(* ===== verification/Prelude.thy ===== *)
theory Prelude
  imports Main "HOL-Library.Word"
begin

text \<open>
  Shared vocabulary of the development: the machine integers and byte strings of the Rust
  sources, the \<open>Result\<close> type with the \<open>?\<close> operator, big-endian integers, and the two
  interfaces that several components share: a text or byte codec with its round-trip law, and
  a step function with an invariant that its runs preserve.
\<close>

section \<open>Types\<close>

type_synonym u8 = "8 word"
type_synonym u16 = "16 word"
type_synonym u32 = "32 word"
type_synonym u64 = "64 word"
type_synonym u128 = "128 word"

type_synonym bytes = "u8 list"

text \<open>A Rust \<open>str\<close> is its UTF-8 bytes; a HOL \<open>char\<close> is one byte.\<close>

type_synonym str = string

section \<open>Rules collected for the component proofs\<close>

named_theorems res_simps \<open>inversion of results built with the question-mark operator\<close>
named_theorems wire_simps \<open>lengths and evaluation of the wire encodings\<close>
named_theorems scope_simps \<open>scope sets as sets of grants\<close>
named_theorems client_simps \<open>unfolding of the client's operations\<close>

section \<open>Results\<close>

abbreviation Err :: "'e \<Rightarrow> 'e + 'a" where "Err \<equiv> Inl"
abbreviation Ok :: "'a \<Rightarrow> 'e + 'a" where "Ok \<equiv> Inr"

text \<open>\<open>let x = m?; k(x)\<close>.\<close>

definition rbind :: "'e + 'a \<Rightarrow> ('a \<Rightarrow> 'e + 'b) \<Rightarrow> 'e + 'b" where
  "rbind m k = (case m of Inl e \<Rightarrow> Inl e | Inr x \<Rightarrow> k x)"

text \<open>\<open>Result::map_err\<close>, \<open>Option::ok_or\<close>, and a failing check.\<close>

definition map_err :: "('e \<Rightarrow> 'f) \<Rightarrow> 'e + 'a \<Rightarrow> 'f + 'a" where
  "map_err f m = (case m of Inl e \<Rightarrow> Inl (f e) | Inr x \<Rightarrow> Inr x)"

definition ok_or :: "'e \<Rightarrow> 'a option \<Rightarrow> 'e + 'a" where
  "ok_or e m = (case m of None \<Rightarrow> Inl e | Some x \<Rightarrow> Inr x)"

lemma rbind_simps [simp, code_unfold]:
  "rbind (Inl e) k = Inl e"
  "rbind (Inr x) k = k x"
  by (simp_all add: rbind_def)

lemma rbind_Ok [res_simps]: "rbind m k = Inr y \<longleftrightarrow> (\<exists>x. m = Inr x \<and> k x = Inr y)"
  by (cases m) auto

lemma rbind_Err [res_simps]:
  "rbind m k = Inl e \<longleftrightarrow> m = Inl e \<or> (\<exists>x. m = Inr x \<and> k x = Inl e)"
  by (cases m) auto

lemma map_err_simps [simp, code_unfold]:
  "map_err f (Inl e) = Inl (f e)"
  "map_err f (Inr x) = Inr x"
  by (simp_all add: map_err_def)

lemma map_err_Ok [res_simps]: "map_err f m = Inr y \<longleftrightarrow> m = Inr y"
  by (cases m) auto

lemma map_err_Err [res_simps]: "map_err f m = Inl e \<longleftrightarrow> (\<exists>e'. m = Inl e' \<and> e = f e')"
  by (cases m) auto

lemma ok_or_simps [simp, code_unfold]:
  "ok_or e None = Inl e"
  "ok_or e (Some x) = Inr x"
  by (simp_all add: ok_or_def)

lemma ok_or_Ok [res_simps]: "ok_or e m = Inr y \<longleftrightarrow> m = Some y"
  by (cases m) auto

lemma ok_or_Err [res_simps]: "ok_or e m = Inl e' \<longleftrightarrow> m = None \<and> e' = e"
  by (cases m) auto

text \<open>\<open>iter().map(f).collect::<Result<Vec<_>, _>>()\<close>: the first error wins.\<close>

fun traverse :: "('a \<Rightarrow> 'e + 'b) \<Rightarrow> 'a list \<Rightarrow> 'e + 'b list" where
  "traverse f [] = Inr []"
| "traverse f (x # xs) = rbind (f x) (\<lambda>y. rbind (traverse f xs) (\<lambda>ys. Inr (y # ys)))"

lemma traverse_Ok: "traverse f xs = Inr ys \<longleftrightarrow> list_all2 (\<lambda>x y. f x = Inr y) xs ys"
  by (induction xs arbitrary: ys) (auto simp: res_simps list_all2_Cons1)

lemma traverse_length: "traverse f xs = Inr ys \<Longrightarrow> length ys = length xs"
  by (simp add: traverse_Ok list_all2_lengthD)

lemma traverse_map_Ok: "(\<And>x. x \<in> set xs \<Longrightarrow> f x = Inr (g x)) \<Longrightarrow> traverse f xs = Inr (map g xs)"
  by (induction xs) auto

lemma traverse_Err: "traverse f xs = Inl e \<Longrightarrow> \<exists>x \<in> set xs. f x = Inl e"
  by (induction xs) (auto simp: res_simps)

text \<open>The same over \<open>Option\<close>.\<close>

fun traverse_opt :: "('a \<Rightarrow> 'b option) \<Rightarrow> 'a list \<Rightarrow> 'b list option" where
  "traverse_opt f [] = Some []"
| "traverse_opt f (x # xs) =
     (case f x of None \<Rightarrow> None
      | Some y \<Rightarrow> (case traverse_opt f xs of None \<Rightarrow> None | Some ys \<Rightarrow> Some (y # ys)))"

lemma traverse_opt_Some: "traverse_opt f xs = Some ys \<longleftrightarrow> list_all2 (\<lambda>x y. f x = Some y) xs ys"
proof (induction xs arbitrary: ys)
  case (Cons x xs)
  then show ?case by (auto simp: list_all2_Cons1 Cons.IH [symmetric] split: option.splits)
qed auto

lemma traverse_opt_map: "(\<And>x. x \<in> set xs \<Longrightarrow> f x = Some (g x)) \<Longrightarrow> traverse_opt f xs = Some (map g xs)"
  by (induction xs) auto

section \<open>Big-endian integers\<close>

fun to_be :: "nat \<Rightarrow> nat \<Rightarrow> bytes" where
  "to_be 0 n = []"
| "to_be (Suc k) n = to_be k (n div 256) @ [word_of_nat n]"

definition from_be :: "bytes \<Rightarrow> nat" where
  "from_be bs = foldl (\<lambda>v b. v * 256 + unat b) 0 bs"

lemma length_to_be [simp]: "length (to_be k n) = k"
  by (induction k arbitrary: n) auto

lemma unat_of_nat_u8: "unat (word_of_nat n :: u8) = n mod 256"
  by (simp add: unat_of_nat)

lemma from_be_to_be: "from_be (to_be k n) = n mod 256 ^ k"
proof (induction k arbitrary: n)
  case 0
  then show ?case by (simp add: from_be_def)
next
  case (Suc k)
  have "from_be (to_be (Suc k) n) = from_be (to_be k (n div 256)) * 256 + n mod 256"
    by (simp add: from_be_def unat_of_nat_u8)
  also have "\<dots> = ((n div 256) mod 256 ^ k) * 256 + n mod 256"
    by (simp add: Suc.IH)
  also have "\<dots> = n mod 256 ^ Suc k"
    by (simp add: mod_mult2_eq)
  finally show ?case .
qed

text \<open>\<open>u128::to_be_bytes\<close> and \<open>u128::from_be_bytes\<close>.\<close>

definition u128_to_be_bytes :: "u128 \<Rightarrow> bytes" where
  "u128_to_be_bytes x = to_be 16 (unat x)"

definition u128_from_be_bytes :: "bytes \<Rightarrow> u128" where
  "u128_from_be_bytes bs = word_of_nat (from_be bs)"

lemma length_u128_to_be_bytes [simp, wire_simps]: "length (u128_to_be_bytes x) = 16"
  by (simp add: u128_to_be_bytes_def)

lemma u128_be_round_trip [simp]: "u128_from_be_bytes (u128_to_be_bytes x) = x"
proof -
  have "unat x mod 256 ^ 16 = unat x"
    using unsigned_less [of x, where 'a = nat] by (intro mod_less) simp
  then show ?thesis
    by (simp add: u128_from_be_bytes_def u128_to_be_bytes_def from_be_to_be)
qed

section \<open>Interface: a codec with a round trip\<close>

text \<open>
  \<open>enc\<close> renders a value, \<open>dec\<close> reads it back or fails, \<open>canon\<close> is what the rendering keeps
  of a value (the identity for a lossless codec).
\<close>

locale codec =
  fixes enc :: "'a \<Rightarrow> 't"
    and dec :: "'t \<Rightarrow> 'e + 'a"
    and canon :: "'a \<Rightarrow> 'a"
  assumes round_trip: "dec (enc x) = Inr (canon x)"
begin

lemma dec_enc_ok: "\<exists>y. dec (enc x) = Inr y"
  by (simp add: round_trip)

lemma enc_determines_canon: "enc x = enc y \<Longrightarrow> canon x = canon y"
  by (metis round_trip sum.inject(2))

lemma enc_dec_error_free: "dec (enc x) \<noteq> Inl e"
  by (simp add: round_trip)

end

locale lossless_codec = codec enc dec "\<lambda>x. x"
  for enc :: "'a \<Rightarrow> 't" and dec :: "'t \<Rightarrow> 'e + 'a"
begin

lemma enc_inj: "enc x = enc y \<longleftrightarrow> x = y"
  using enc_determines_canon by blast

lemma inj_enc: "inj enc"
  by (simp add: inj_def enc_inj)

end

section \<open>Interface: runs of a step function and their invariant\<close>

text \<open>
  A component whose operations act on a state one after the other: \<open>step s op\<close> is the state
  after one operation, \<open>inv\<close> what every operation keeps, \<open>keeps s t\<close> what any operation may
  do to the state (reflexive and transitive).
\<close>

locale stepper =
  fixes step :: "'s \<Rightarrow> 'op \<Rightarrow> 's"
    and inv :: "'s \<Rightarrow> bool"
    and keeps :: "'s \<Rightarrow> 's \<Rightarrow> bool"
  assumes step_inv: "inv s \<Longrightarrow> inv (step s x)"
    and step_keeps: "inv s \<Longrightarrow> keeps s (step s x)"
    and keeps_refl: "keeps s s"
    and keeps_trans: "keeps s t \<Longrightarrow> keeps t u \<Longrightarrow> keeps s u"
begin

lemma run_inv: "inv s \<Longrightarrow> inv (foldl step s ops)"
  by (induction ops arbitrary: s) (auto simp: step_inv)

lemma run_keeps: "inv s \<Longrightarrow> keeps s (foldl step s ops)"
proof (induction ops arbitrary: s)
  case Nil
  then show ?case by (simp add: keeps_refl)
next
  case (Cons x ops)
  then have "keeps (step s x) (foldl step (step s x) ops)" by (simp add: step_inv)
  with Cons.prems show ?case by (auto intro: keeps_trans step_keeps)
qed

end

end
