(* ===== verification/Rust_Text.thy ===== *)
theory Rust_Text
  imports Prelude
begin

text \<open>
  What the sources use of Rust's \<open>str\<close> and integer formatting, on UTF-8 bytes: trimming,
  splitting, prefixes, ASCII case, characters, decoding, decimal printing and parsing.
  Facts about these functions carry the text proofs of the scope, key and amount components.
\<close>

section \<open>ASCII\<close>

abbreviation ord :: "char \<Rightarrow> nat" where "ord c \<equiv> of_char c"

definition is_ascii_digit :: "char \<Rightarrow> bool" where
  "is_ascii_digit c \<longleftrightarrow> 48 \<le> ord c \<and> ord c \<le> 57"

definition is_ascii_alpha :: "char \<Rightarrow> bool" where
  "is_ascii_alpha c \<longleftrightarrow> 65 \<le> ord c \<and> ord c \<le> 90 \<or> 97 \<le> ord c \<and> ord c \<le> 122"

definition is_ascii_alphanumeric :: "char \<Rightarrow> bool" where
  "is_ascii_alphanumeric c \<longleftrightarrow> is_ascii_digit c \<or> is_ascii_alpha c"

definition is_ascii_hexdigit :: "char \<Rightarrow> bool" where
  "is_ascii_hexdigit c \<longleftrightarrow>
     is_ascii_digit c \<or> 65 \<le> ord c \<and> ord c \<le> 70 \<or> 97 \<le> ord c \<and> ord c \<le> 102"

definition to_ascii_lowercase :: "char \<Rightarrow> char" where
  "to_ascii_lowercase c = (if 65 \<le> ord c \<and> ord c \<le> 90 then char_of (ord c + 32) else c)"

definition eq_ignore_ascii_case :: "str \<Rightarrow> str \<Rightarrow> bool" where
  "eq_ignore_ascii_case a b \<longleftrightarrow> map to_ascii_lowercase a = map to_ascii_lowercase b"

lemma eq_ignore_ascii_case_refl [simp]: "eq_ignore_ascii_case a a"
  by (simp add: eq_ignore_ascii_case_def)

lemma eq_ignore_ascii_case_sym: "eq_ignore_ascii_case a b = eq_ignore_ascii_case b a"
  by (auto simp: eq_ignore_ascii_case_def)

lemma eq_ignore_ascii_case_length: "eq_ignore_ascii_case a b \<Longrightarrow> length a = length b"
  using map_eq_imp_length_eq unfolding eq_ignore_ascii_case_def by metis

section \<open>Prefixes and splitting\<close>

fun strip_prefix :: "str \<Rightarrow> str \<Rightarrow> str option" where
  "strip_prefix [] s = Some s"
| "strip_prefix (p # ps) [] = None"
| "strip_prefix (p # ps) (c # cs) = (if p = c then strip_prefix ps cs else None)"

lemma strip_prefix_Some: "strip_prefix p s = Some t \<longleftrightarrow> s = p @ t"
  by (induction p s rule: strip_prefix.induct) auto

lemma strip_prefix_append [simp]: "strip_prefix p (p @ t) = Some t"
  by (simp add: strip_prefix_Some)

definition starts_with :: "str \<Rightarrow> str \<Rightarrow> bool" where
  "starts_with p s \<longleftrightarrow> strip_prefix p s \<noteq> None"

text \<open>\<open>s.strip_prefix(p).unwrap_or(s)\<close>.\<close>

definition without_prefix :: "str \<Rightarrow> str \<Rightarrow> str" where
  "without_prefix p s = (case strip_prefix p s of None \<Rightarrow> s | Some t \<Rightarrow> t)"

lemma without_prefix_append [simp]: "without_prefix p (p @ t) = t"
  by (simp add: without_prefix_def)

text \<open>\<open>str::split_once\<close> on one ASCII character; \<open>str::find\<close> on a pattern.\<close>

fun split_once :: "char \<Rightarrow> str \<Rightarrow> (str \<times> str) option" where
  "split_once c [] = None"
| "split_once c (x # xs) =
     (if x = c then Some ([], xs)
      else (case split_once c xs of None \<Rightarrow> None | Some (a, b) \<Rightarrow> Some (x # a, b)))"

lemma split_once_None: "split_once c s = None \<longleftrightarrow> c \<notin> set s"
  by (induction s) (auto split: option.splits)

lemma split_once_Some: "split_once c s = Some (a, b) \<longleftrightarrow> s = a @ c # b \<and> c \<notin> set a"
proof (induction s arbitrary: a)
  case Nil
  then show ?case by simp
next
  case (Cons x xs)
  show ?case
  proof (cases "x = c")
    case True
    then show ?thesis by (cases a) auto
  next
    case False
    show ?thesis
    proof (cases a)
      case Nil
      with False show ?thesis by (auto split: option.splits)
    next
      case (Cons y ys)
      with False Cons.IH [of ys] show ?thesis by (auto split: option.splits)
    qed
  qed
qed

fun find_str :: "str \<Rightarrow> str \<Rightarrow> nat option" where
  "find_str p [] = (if p = [] then Some 0 else None)"
| "find_str p (c # cs) =
     (if starts_with p (c # cs) then Some 0
      else (case find_str p cs of None \<Rightarrow> None | Some i \<Rightarrow> Some (Suc i)))"

lemma starts_with_iff: "starts_with p s \<longleftrightarrow> (\<exists>t. s = p @ t)"
  by (auto simp: starts_with_def strip_prefix_Some)

lemma find_str_Some_split:
  "find_str p s = Some i \<Longrightarrow> i \<le> length s \<and> s = take i s @ p @ drop (i + length p) s"
proof (induction s arbitrary: i)
  case Nil
  then show ?case by (auto split: if_splits)
next
  case (Cons c cs)
  show ?case
  proof (cases "starts_with p (c # cs)")
    case True
    with Cons.prems obtain t where "c # cs = p @ t" "i = 0" by (auto simp: starts_with_iff)
    then show ?thesis by simp
  next
    case False
    with Cons.prems obtain j where j: "find_str p cs = Some j" "i = Suc j"
      by (auto split: option.splits)
    from Cons.IH [OF j(1)] j(2) show ?thesis by (auto simp: drop_Suc)
  qed
qed

lemma find_str_first:
  "find_str p s = Some i \<Longrightarrow> j < i \<Longrightarrow> \<not> starts_with p (drop j s)"
proof (induction s arbitrary: i j)
  case Nil
  then show ?case by (auto split: if_splits)
next
  case (Cons c cs)
  then show ?case
    by (cases j) (auto split: if_splits option.splits)
qed

lemma find_str_None: "find_str p s = None \<Longrightarrow> \<not> starts_with p (drop j s) \<or> p = []"
proof (induction s arbitrary: j)
  case Nil
  then show ?case by (auto simp: starts_with_iff)
next
  case (Cons c cs)
  then show ?case
    by (cases j) (auto split: if_splits option.splits)
qed

text \<open>\<open>str::find\<close> on a single character.\<close>

fun find_char :: "char \<Rightarrow> str \<Rightarrow> nat option" where
  "find_char c [] = None"
| "find_char c (x # xs) =
     (if x = c then Some 0 else (case find_char c xs of None \<Rightarrow> None | Some i \<Rightarrow> Some (Suc i)))"

lemma find_char_Some:
  "find_char c s = Some i \<Longrightarrow> i < length s \<and> c \<notin> set (take i s) \<and> (\<exists>t. drop i s = c # t)"
proof (induction s arbitrary: i)
  case Nil
  then show ?case by simp
next
  case (Cons x xs)
  then show ?case by (cases i) (auto split: if_splits option.splits)
qed

lemma find_char_None: "find_char c s = None \<longleftrightarrow> c \<notin> set s"
  by (induction s) (auto split: option.splits)

lemma find_char_append: "c \<notin> set a \<Longrightarrow> find_char c (a @ c # b) = Some (length a)"
  by (induction a) auto

text \<open>\<open>str::split\<close>: \<open>sep s\<close> is the length of the separator at the head of \<open>s\<close>, or 0.\<close>

function split_by :: "(str \<Rightarrow> nat) \<Rightarrow> str \<Rightarrow> str \<Rightarrow> str list" where
  "split_by sep acc [] = [rev acc]"
| "split_by sep acc (c # cs) =
     (let n = sep (c # cs) in
      if n = 0 then split_by sep (c # acc) cs else rev acc # split_by sep [] (drop n (c # cs)))"
  by pat_completeness auto
termination
  by (relation "measure (\<lambda>(sep, acc, s). length s)") auto

lemma split_by_piece:
  assumes "\<And>u v. p = u @ v \<Longrightarrow> v \<noteq> [] \<Longrightarrow> sep (v @ s) = 0"
  shows "split_by sep acc (p @ s) = split_by sep (rev p @ acc) s"
  using assms
proof (induction p arbitrary: acc)
  case Nil
  then show ?case by simp
next
  case (Cons c p)
  have "sep ((c # p) @ s) = 0" using Cons.prems [of "[]" "c # p"] by simp
  moreover have "sep (v @ s) = 0" if "p = u @ v" "v \<noteq> []" for u v
    using Cons.prems [of "c # u" v] that by simp
  then have "split_by sep (c # acc) (p @ s) = split_by sep (rev p @ c # acc) s"
    by (intro Cons.IH)
  ultimately show ?case by (simp add: Let_def)
qed

section \<open>Whitespace\<close>

text \<open>The Unicode \<open>White_Space\<close> characters in UTF-8.\<close>

definition ws_chars :: "str list" where
  "ws_chars =
     [[CHR 0x09], [CHR 0x0A], [CHR 0x0B], [CHR 0x0C], [CHR 0x0D], [CHR 0x20],
      [CHR 0xC2, CHR 0x85], [CHR 0xC2, CHR 0xA0], [CHR 0xE1, CHR 0x9A, CHR 0x80],
      [CHR 0xE2, CHR 0x80, CHR 0x80], [CHR 0xE2, CHR 0x80, CHR 0x81],
      [CHR 0xE2, CHR 0x80, CHR 0x82], [CHR 0xE2, CHR 0x80, CHR 0x83],
      [CHR 0xE2, CHR 0x80, CHR 0x84], [CHR 0xE2, CHR 0x80, CHR 0x85],
      [CHR 0xE2, CHR 0x80, CHR 0x86], [CHR 0xE2, CHR 0x80, CHR 0x87],
      [CHR 0xE2, CHR 0x80, CHR 0x88], [CHR 0xE2, CHR 0x80, CHR 0x89],
      [CHR 0xE2, CHR 0x80, CHR 0x8A], [CHR 0xE2, CHR 0x80, CHR 0xA8],
      [CHR 0xE2, CHR 0x80, CHR 0xA9], [CHR 0xE2, CHR 0x80, CHR 0xAF],
      [CHR 0xE2, CHR 0x81, CHR 0x9F], [CHR 0xE3, CHR 0x80, CHR 0x80]]"

text \<open>The length of the first listed character that \<open>s\<close> begins with, or 0.\<close>

fun head_len :: "str list \<Rightarrow> str \<Rightarrow> nat" where
  "head_len [] s = 0"
| "head_len (w # ws) s = (if starts_with w s then length w else head_len ws s)"

lemma head_len_0:
  "\<forall>w \<in> set ws. w \<noteq> [] \<and> hd w \<noteq> c \<Longrightarrow> head_len ws (c # cs) = 0"
proof (induction ws)
  case Nil
  then show ?case by simp
next
  case (Cons w ws)
  then have "\<not> starts_with w (c # cs)" by (cases w) (auto simp: starts_with_iff)
  with Cons show ?case by simp
qed

function strip_heads :: "str list \<Rightarrow> str \<Rightarrow> str" where
  "strip_heads ws [] = []"
| "strip_heads ws (c # cs) =
     (let n = head_len ws (c # cs) in
      if n = 0 then c # cs else strip_heads ws (drop n (c # cs)))"
  by pat_completeness auto
termination
  by (relation "measure (\<lambda>(ws, s). length s)") auto

definition trim :: "str \<Rightarrow> str" where
  "trim s = rev (strip_heads (map rev ws_chars) (rev (strip_heads ws_chars s)))"

text \<open>An ASCII character that is not white space neither starts nor ends one.\<close>

definition solid :: "char \<Rightarrow> bool" where
  "solid c \<longleftrightarrow> ord c < 128 \<and> (ord c < 9 \<or> 13 < ord c) \<and> ord c \<noteq> 32"

lemma ws_heads: "\<forall>w \<in> set ws_chars. w \<noteq> [] \<and> \<not> solid (hd w)"
  by (simp add: ws_chars_def solid_def)

lemma ws_tails: "\<forall>w \<in> set (map rev ws_chars). w \<noteq> [] \<and> \<not> solid (hd w)"
  by (simp add: ws_chars_def solid_def)

lemma head_len_solid: "solid c \<Longrightarrow> head_len ws_chars (c # cs) = 0"
  using ws_heads by (intro head_len_0) auto

lemma head_len_solid_rev: "solid c \<Longrightarrow> head_len (map rev ws_chars) (c # cs) = 0"
  using ws_tails by (intro head_len_0) blast

lemma trim_solid:
  assumes "s = [] \<or> solid (hd s) \<and> solid (last s)"
  shows "trim s = s"
proof (cases "s = []")
  case True
  then show ?thesis by (simp add: trim_def)
next
  case False
  with assms obtain c cs d ds where s: "s = c # cs" "rev s = d # ds" "solid c" "solid d"
    by (metis hd_rev last_rev list.collapse list.sel(1) rev_is_Nil_conv)
  have "strip_heads ws_chars s = s" using s(1,3) by (simp add: head_len_solid Let_def)
  moreover have "strip_heads (map rev ws_chars) (rev s) = rev s"
    using s(2,4) by (simp add: head_len_solid_rev Let_def)
  ultimately show ?thesis by (simp add: trim_def)
qed

text \<open>\<open>trim_start_matches\<close> and \<open>trim_end_matches\<close> on one ASCII character.\<close>

definition trim_start_matches :: "char \<Rightarrow> str \<Rightarrow> str" where
  "trim_start_matches c s = dropWhile (\<lambda>x. x = c) s"

definition trim_end_matches :: "char \<Rightarrow> str \<Rightarrow> str" where
  "trim_end_matches c s = rev (dropWhile (\<lambda>x. x = c) (rev s))"

lemma trim_end_matches_split: "\<exists>n. s = trim_end_matches c s @ replicate n c"
proof -
  have "rev s = takeWhile (\<lambda>x. x = c) (rev s) @ dropWhile (\<lambda>x. x = c) (rev s)" by simp
  then have "s = rev (dropWhile (\<lambda>x. x = c) (rev s)) @ rev (takeWhile (\<lambda>x. x = c) (rev s))"
    by (metis rev_append rev_rev_ident)
  moreover have "rev (takeWhile (\<lambda>x. x = c) (rev s)) =
      replicate (length (takeWhile (\<lambda>x. x = c) (rev s))) c"
    by (metis (full_types) replicate_length_same rev_replicate set_takeWhileD)
  ultimately show ?thesis unfolding trim_end_matches_def by metis
qed

lemma trim_end_matches_last: "trim_end_matches c s \<noteq> [] \<Longrightarrow> last (trim_end_matches c s) \<noteq> c"
  unfolding trim_end_matches_def using hd_dropWhile [of "\<lambda>x. x = c" "rev s"]
  by (auto simp: last_rev)

text \<open>\<open>str::chars\<close>, each as its UTF-8 bytes: a first byte and the continuation bytes after it.\<close>

definition is_continuation :: "char \<Rightarrow> bool" where
  "is_continuation c \<longleftrightarrow> 128 \<le> ord c \<and> ord c < 192"

function str_chars :: "str \<Rightarrow> str list" where
  "str_chars [] = []"
| "str_chars (c # cs) = (c # takeWhile is_continuation cs) # str_chars (dropWhile is_continuation cs)"
  by pat_completeness auto
termination
  by (relation "measure length") (auto simp: length_dropWhile_le le_imp_less_Suc)

lemma concat_str_chars: "concat (str_chars s) = s"
  by (induction s rule: str_chars.induct) auto

lemma str_chars_nonempty: "x \<in> set (str_chars s) \<Longrightarrow> x \<noteq> []"
  by (induction s rule: str_chars.induct) auto

end
