(* ===== verification/Scopes.thy ===== *)
theory Scopes
  imports Rust_Text
begin

text \<open>
  \<open>crates/matter-sdk-key/src/scopes.rs\<close>: the permissions of a member-tied API key. A
  \<open>ScopeSet\<close> is a \<open>u32\<close> with one bit per (scope, access) pair; the operations are the bit
  operations of the source. The component promises a finite set of grants; the locale
  \<open>grant_set\<close> states that promise and the interpretation \<open>sg\<close> at the end of the section on
  operations discharges it. The second half is the text form and its parser.
\<close>

unbundle bit_operations_syntax

section \<open>Scopes and access\<close>

datatype scope =
    Deployments | Collaborations | Secrets | Volumes | Datasets
  | Networking | Resources | Organization | Billing | Communities

fun scope_disc :: "scope \<Rightarrow> nat" where
  "scope_disc Deployments = 0"
| "scope_disc Collaborations = 1"
| "scope_disc Secrets = 2"
| "scope_disc Volumes = 3"
| "scope_disc Datasets = 4"
| "scope_disc Networking = 5"
| "scope_disc Resources = 6"
| "scope_disc Organization = 7"
| "scope_disc Billing = 8"
| "scope_disc Communities = 9"

definition scope_ALL :: "scope list" where
  "scope_ALL =
     [Deployments, Collaborations, Secrets, Volumes, Datasets,
      Networking, Resources, Organization, Billing, Communities]"

definition scope_COUNT :: nat where
  "scope_COUNT = length scope_ALL"

definition NAMES :: "(str \<times> scope) list" where
  "NAMES =
     [(''deployments'', Deployments), (''collaborations'', Collaborations),
      (''secrets'', Secrets), (''volumes'', Volumes), (''datasets'', Datasets),
      (''networking'', Networking), (''resources'', Resources),
      (''organization'', Organization), (''billing'', Billing), (''communities'', Communities)]"

definition scope_name :: "scope \<Rightarrow> str" where
  "scope_name s = fst (NAMES ! scope_disc s)"

definition EMPTY_TEXT :: str where
  "EMPTY_TEXT = ''(none)''"

datatype access = Read | Write

fun access_disc :: "access \<Rightarrow> nat" where
  "access_disc Read = 0"
| "access_disc Write = 1"

section \<open>Scope sets\<close>

datatype scope_set = ScopeSet (bits: u32)

text \<open>\<open>derive(PartialOrd, Ord)\<close>: the order of the bit mask.\<close>

instantiation scope_set :: linorder
begin

definition less_eq_scope_set :: "scope_set \<Rightarrow> scope_set \<Rightarrow> bool" where
  "less_eq_scope_set s t \<longleftrightarrow> bits s \<le> bits t"

definition less_scope_set :: "scope_set \<Rightarrow> scope_set \<Rightarrow> bool" where
  "less_scope_set s t \<longleftrightarrow> bits s < bits t"

instance
  by standard (auto simp: less_eq_scope_set_def less_scope_set_def intro: scope_set.expand)

end

definition SET_EMPTY :: scope_set where
  "SET_EMPTY = ScopeSet 0"

definition SET_ALL :: scope_set where
  "SET_ALL = ScopeSet (push_bit (scope_COUNT * 2) 1 - 1)"

definition scope_bit :: "scope \<Rightarrow> access \<Rightarrow> u32" where
  "scope_bit s a = push_bit (scope_disc s * 2 + access_disc a) 1"

definition from_bits :: "u32 \<Rightarrow> scope_set" where
  "from_bits b = ScopeSet b"

definition single :: "scope \<Rightarrow> access \<Rightarrow> scope_set" where
  "single s a = ScopeSet (scope_bit s a)"

fun covering_loop :: "scope list \<Rightarrow> u32 \<Rightarrow> u32" where
  "covering_loop [] b = b"
| "covering_loop (s # ss) b = covering_loop ss (b OR (scope_bit s Read OR scope_bit s Write))"

definition covering :: "scope list \<Rightarrow> scope_set" where
  "covering scopes = ScopeSet (covering_loop scopes 0)"

definition with_grant :: "scope_set \<Rightarrow> scope \<Rightarrow> access \<Rightarrow> scope_set" where
  "with_grant self s a = ScopeSet (bits self OR scope_bit s a)"

definition union :: "scope_set \<Rightarrow> scope_set \<Rightarrow> scope_set" where
  "union self other = ScopeSet (bits self OR bits other)"

definition contains :: "scope_set \<Rightarrow> scope \<Rightarrow> access \<Rightarrow> bool" where
  "contains self s a \<longleftrightarrow> bits self AND scope_bit s a \<noteq> 0"

definition is_superset :: "scope_set \<Rightarrow> scope_set \<Rightarrow> bool" where
  "is_superset self other \<longleftrightarrow> bits self AND bits other = bits other"

definition is_subset :: "scope_set \<Rightarrow> scope_set \<Rightarrow> bool" where
  "is_subset self other = is_superset other self"

definition set_is_empty :: "scope_set \<Rightarrow> bool" where
  "set_is_empty self \<longleftrightarrow> bits self = 0"

definition is_valid :: "scope_set \<Rightarrow> bool" where
  "is_valid self \<longleftrightarrow> bits self AND NOT (bits SET_ALL) = 0"

subsection \<open>The bit layout\<close>

definition grant_index :: "scope \<Rightarrow> access \<Rightarrow> nat" where
  "grant_index s a = scope_disc s * 2 + access_disc a"

lemma bits_SET_ALL: "bits SET_ALL = mask 20"
  by (simp add: SET_ALL_def scope_COUNT_def scope_ALL_def mask_eq_exp_minus_1)

lemma grant_index_less: "grant_index s a < 20"
  by (cases s; cases a) (simp_all add: grant_index_def)

lemma grant_index_inj: "grant_index s a = grant_index t b \<longleftrightarrow> s = t \<and> a = b"
  by (cases s; cases a; cases t; cases b) (simp_all add: grant_index_def)

lemma scope_disc_surj: "d < 10 \<Longrightarrow> \<exists>s. scope_disc s = d"
proof -
  assume "d < 10"
  moreover have "map scope_disc scope_ALL = [0..<10]"
    by (simp add: scope_ALL_def upt_conv_Cons)
  ultimately have "d \<in> scope_disc ` set scope_ALL"
    by (metis atLeastLessThan_iff list.set_map set_upt zero_le)
  then show ?thesis by auto
qed

lemma grant_index_surj: "k < 20 \<Longrightarrow> \<exists>s a. grant_index s a = k"
proof -
  assume "k < 20"
  then have "k div 2 < 10" by simp
  then obtain s where s: "scope_disc s = k div 2" using scope_disc_surj by blast
  have "access_disc (if even k then Read else Write) = k mod 2"
    by (cases "even k") (auto simp: even_iff_mod_2_eq_zero)
  with s have "grant_index s (if even k then Read else Write) = k div 2 * 2 + k mod 2"
    by (simp only: grant_index_def)
  then show ?thesis by (metis div_mult_mod_eq)
qed

lemma scope_bit_exp: "scope_bit s a = 2 ^ grant_index s a"
  by (simp add: scope_bit_def grant_index_def)

lemma contains_bit: "contains s sc a \<longleftrightarrow> bit (bits s) (grant_index sc a)"
  by (simp add: contains_def scope_bit_exp and_exp_eq_0_iff_not_bit)

lemma bit_scope_bit: "bit (scope_bit sc a) n \<longleftrightarrow> n = grant_index sc a"
  using grant_index_less [of sc a] by (auto simp: scope_bit_exp bit_exp_iff)

lemma is_valid_iff: "is_valid s \<longleftrightarrow> bits s AND mask 20 = bits s"
proof -
  have "bits s = (bits s AND mask 20) OR (bits s AND NOT (mask 20))"
    by (simp flip: bit.conj_disj_distrib)
  moreover have "bits s AND mask 20 = bits s \<Longrightarrow> bits s AND NOT (mask 20) = 0"
    by (metis and.assoc and.right_neutral bit.conj_cancel_right bit.conj_zero_right)
  ultimately show ?thesis unfolding is_valid_def bits_SET_ALL by (metis or.right_neutral)
qed

lemma u32_bit_less: "bit (w :: u32) n \<Longrightarrow> n < 32"
  using bit_imp_le_length [of w n] by simp

lemma is_valid_bit: "is_valid s \<longleftrightarrow> (\<forall>n. bit (bits s) n \<longrightarrow> n < 20)"
  unfolding is_valid_iff
  by (auto simp: bit_eq_iff bit_and_iff bit_mask_iff dest: u32_bit_less)

lemma with_grant_bit: "bit (bits (with_grant s sc a)) n \<longleftrightarrow> bit (bits s) n \<or> n = grant_index sc a"
  by (simp add: with_grant_def bit_or_iff bit_scope_bit)

section \<open>Interface: a set of grants\<close>

text \<open>
  What a permission check relies on: \<open>holds\<close> reads one grant, \<open>none\<close> grants nothing, \<open>add\<close>
  and \<open>join\<close> add grants, \<open>covers\<close> compares two sets, \<open>wf\<close> are the sets of defined grants.
\<close>

locale grant_set =
  fixes holds :: "'s \<Rightarrow> 'g \<Rightarrow> bool"
    and none :: 's
    and add :: "'s \<Rightarrow> 'g \<Rightarrow> 's"
    and join :: "'s \<Rightarrow> 's \<Rightarrow> 's"
    and covers :: "'s \<Rightarrow> 's \<Rightarrow> bool"
    and wf :: "'s \<Rightarrow> bool"
  assumes holds_none: "\<not> holds none g"
    and holds_add: "holds (add s g) h \<longleftrightarrow> holds s h \<or> h = g"
    and holds_join: "holds (join s t) g \<longleftrightarrow> holds s g \<or> holds t g"
    and covers_holds: "wf t \<Longrightarrow> covers s t \<longleftrightarrow> (\<forall>g. holds t g \<longrightarrow> holds s g)"
    and wf_none: "wf none"
    and wf_add: "wf s \<Longrightarrow> wf (add s g)"
    and wf_join: "wf s \<Longrightarrow> wf t \<Longrightarrow> wf (join s t)"
    and wf_ext: "wf s \<Longrightarrow> wf t \<Longrightarrow> (\<And>g. holds s g \<longleftrightarrow> holds t g) \<Longrightarrow> s = t"
begin

lemma covers_trans: "wf t \<Longrightarrow> wf u \<Longrightarrow> covers s t \<Longrightarrow> covers t u \<Longrightarrow> covers s u"
  by (auto simp: covers_holds)

lemma covers_refl: "wf s \<Longrightarrow> covers s s"
  by (simp add: covers_holds)

lemma covers_antisym: "wf s \<Longrightarrow> wf t \<Longrightarrow> covers s t \<Longrightarrow> covers t s \<Longrightarrow> s = t"
  by (rule wf_ext) (auto simp: covers_holds)

lemma covers_join: "wf t \<Longrightarrow> wf u \<Longrightarrow> covers s (join t u) \<longleftrightarrow> covers s t \<and> covers s u"
  by (auto simp: covers_holds wf_join holds_join)

lemma missing_grant: "wf t \<Longrightarrow> \<not> covers s t \<Longrightarrow> \<exists>g. holds t g \<and> \<not> holds s g"
  by (auto simp: covers_holds)

lemma holds_foldl_add: "holds (foldl add s gs) h \<longleftrightarrow> holds s h \<or> h \<in> set gs"
  by (induction gs arbitrary: s) (auto simp: holds_add)

lemma wf_foldl_add: "wf s \<Longrightarrow> wf (foldl add s gs)"
  by (induction gs arbitrary: s) (auto simp: wf_add)

lemma covers_foldl_add: "covers s (foldl add none gs) \<longleftrightarrow> (\<forall>g \<in> set gs. holds s g)"
  by (auto simp: covers_holds [OF wf_foldl_add [OF wf_none]] holds_foldl_add holds_none)

end

text \<open>The bit set discharges it: grants are (scope, access) pairs.\<close>

abbreviation holds_grant :: "scope_set \<Rightarrow> scope \<times> access \<Rightarrow> bool" where
  "holds_grant s g \<equiv> contains s (fst g) (snd g)"

abbreviation add_grant :: "scope_set \<Rightarrow> scope \<times> access \<Rightarrow> scope_set" where
  "add_grant s g \<equiv> with_grant s (fst g) (snd g)"

lemma is_superset_bits: "is_superset s t \<longleftrightarrow> (\<forall>n. bit (bits t) n \<longrightarrow> bit (bits s) n)"
  by (auto simp: is_superset_def bit_eq_iff bit_and_iff dest: u32_bit_less)

interpretation sg: grant_set holds_grant SET_EMPTY add_grant union is_superset is_valid
proof
  fix s t :: scope_set and g h :: "scope \<times> access"
  show "\<not> holds_grant SET_EMPTY g" by (simp add: contains_def SET_EMPTY_def)
  show "holds_grant (add_grant s g) h \<longleftrightarrow> holds_grant s h \<or> h = g"
    by (auto simp: contains_bit with_grant_bit grant_index_inj prod_eq_iff)
  show "holds_grant (union s t) g \<longleftrightarrow> holds_grant s g \<or> holds_grant t g"
    by (simp add: contains_bit union_def bit_or_iff)
  show "is_superset s t \<longleftrightarrow> (\<forall>g. holds_grant t g \<longrightarrow> holds_grant s g)" if "is_valid t"
    using that by (auto simp: is_superset_bits contains_bit is_valid_bit)
      (metis grant_index_surj)
  show "is_valid SET_EMPTY" by (simp add: is_valid_def SET_EMPTY_def)
  show "is_valid (add_grant s g)" if "is_valid s"
    using that by (auto simp: is_valid_bit with_grant_bit grant_index_less)
  show "is_valid (union s t)" if "is_valid s" "is_valid t"
    using that by (auto simp: is_valid_bit union_def bit_or_iff)
  show "s = t" if "is_valid s" "is_valid t" "\<And>g. holds_grant s g \<longleftrightarrow> holds_grant t g"
  proof -
    have "bit (bits s) n \<longleftrightarrow> bit (bits t) n" for n
      using that grant_index_surj [of n] by (auto simp: is_valid_bit contains_bit)
    then show ?thesis by (auto intro: scope_set.expand bit_eqI)
  qed
qed

section \<open>The text form\<close>

text \<open>\<open>Display\<close>: the loop over \<open>NAMES\<close> with its \<open>first\<close> flag.\<close>

definition access_text :: "bool \<Rightarrow> bool \<Rightarrow> str" where
  "access_text r w = (if r then ''r'' else []) @ (if w then ''w'' else [])"

fun display_loop :: "scope_set \<Rightarrow> (str \<times> scope) list \<Rightarrow> bool \<Rightarrow> str" where
  "display_loop self [] first = []"
| "display_loop self ((name, scope) # rest) first =
     (let r = contains self scope Read; w = contains self scope Write in
      if \<not> r \<and> \<not> w then display_loop self rest first
      else (if first then [] else '', '') @ name @ '':'' @ access_text r w
           @ display_loop self rest False)"

definition scope_set_display :: "scope_set \<Rightarrow> str" where
  "scope_set_display self =
     (if set_is_empty self then EMPTY_TEXT else display_loop self NAMES True)"

text \<open>\<open>FromStr\<close>.\<close>

datatype scope_parse_error =
    MissingAccess str
  | UnknownScope str
  | InvalidAccess str str

fun parse_access :: "str \<Rightarrow> str \<Rightarrow> str \<Rightarrow> bool \<Rightarrow> bool \<Rightarrow> scope_parse_error + bool \<times> bool" where
  "parse_access name access [] r w = Ok (r, w)"
| "parse_access name access (c # cs) r w =
     (if to_ascii_lowercase c = CHR ''r'' \<and> \<not> r then parse_access name access cs True w
      else if to_ascii_lowercase c = CHR ''w'' \<and> \<not> w then parse_access name access cs r True
      else Err (InvalidAccess name access))"

definition parse_entry :: "scope_set \<Rightarrow> str \<Rightarrow> scope_parse_error + scope_set" where
  "parse_entry acc entry =
     rbind (ok_or (MissingAccess entry) (split_once (CHR '':'') entry)) (\<lambda>(name, access).
     rbind (ok_or (UnknownScope name)
              (map_option snd (find (\<lambda>(n, s). eq_ignore_ascii_case n name) NAMES))) (\<lambda>scope.
     rbind (parse_access name access access False False) (\<lambda>(r, w).
     if \<not> r \<and> \<not> w then Err (InvalidAccess name access)
     else Ok (let acc1 = (if r then with_grant acc scope Read else acc)
              in if w then with_grant acc1 scope Write else acc1))))"

fun parse_entries :: "scope_set \<Rightarrow> str list \<Rightarrow> scope_parse_error + scope_set" where
  "parse_entries acc [] = Ok acc"
| "parse_entries acc (e # es) = rbind (parse_entry acc e) (\<lambda>acc'. parse_entries acc' es)"

definition comma_or_ws :: "str \<Rightarrow> nat" where
  "comma_or_ws s = (if starts_with '','' s then 1 else head_len ws_chars s)"

definition scope_entries :: "str \<Rightarrow> str list" where
  "scope_entries trimmed = filter (\<lambda>e. e \<noteq> []) (split_by comma_or_ws [] trimmed)"

definition scope_set_from_str :: "str \<Rightarrow> scope_parse_error + scope_set" where
  "scope_set_from_str s =
     (let trimmed = trim s in
      if trimmed = [] \<or> eq_ignore_ascii_case trimmed EMPTY_TEXT then Ok SET_EMPTY
      else parse_entries SET_EMPTY (scope_entries trimmed))"

subsection \<open>What the loop prints\<close>

text \<open>One entry per scope with a grant, in table order.\<close>

definition granted :: "scope_set \<Rightarrow> (str \<times> scope) list \<Rightarrow> (str \<times> scope) list" where
  "granted self ns = filter (\<lambda>(n, s). contains self s Read \<or> contains self s Write) ns"

definition entry_text :: "scope_set \<Rightarrow> str \<times> scope \<Rightarrow> str" where
  "entry_text self ns =
     fst ns @ '':'' @ access_text (contains self (snd ns) Read) (contains self (snd ns) Write)"

definition entry_char :: "char \<Rightarrow> bool" where
  "entry_char c \<longleftrightarrow> solid c \<and> c \<noteq> CHR '',''"

definition name_char :: "char \<Rightarrow> bool" where
  "name_char c \<longleftrightarrow> 97 \<le> ord c \<and> ord c \<le> 122"

lemma names_letters: "list_all (\<lambda>(n, s). n \<noteq> [] \<and> list_all name_char n) NAMES"
  by code_simp

lemma names_chars: "(n, s) \<in> set NAMES \<Longrightarrow> c \<in> set n \<Longrightarrow> name_char c"
  using names_letters unfolding list_all_iff by fastforce

lemma names_nonempty: "(n, s) \<in> set NAMES \<Longrightarrow> n \<noteq> []"
  using names_letters unfolding list_all_iff by fastforce

lemma name_char_entry: "name_char c \<Longrightarrow> entry_char c \<and> c \<noteq> CHR '':'' \<and> c \<noteq> CHR ''(''"
  by (auto simp: name_char_def entry_char_def solid_def)

lemma entry_text_chars:
  "ns \<in> set NAMES \<Longrightarrow> \<forall>c \<in> set (entry_text self ns). entry_char c"
  using names_chars [of "fst ns" "snd ns"] name_char_entry
  by (auto simp: entry_text_def access_text_def entry_char_def solid_def split: if_splits)

lemma comma_or_ws_entry_char: "entry_char c \<Longrightarrow> comma_or_ws (c # cs) = 0"
  by (auto simp: comma_or_ws_def entry_char_def head_len_solid starts_with_iff)

lemma split_entry:
  assumes "\<forall>c \<in> set e. entry_char c"
  shows "split_by comma_or_ws acc (e @ s) = split_by comma_or_ws (rev e @ acc) s"
proof (rule split_by_piece)
  fix u v assume "e = u @ v" "v \<noteq> []"
  with assms show "comma_or_ws (v @ s) = 0"
    by (cases v) (auto intro: comma_or_ws_entry_char)
qed

lemma comma_then_space:
  "comma_or_ws (CHR '','' # s) = 1" "comma_or_ws (CHR '' '' # s) = 1"
  by (simp_all add: comma_or_ws_def starts_with_iff ws_chars_def)

lemma display_loop_tail:
  assumes "set ns \<subseteq> set NAMES"
  shows "\<exists>es. split_by comma_or_ws acc (display_loop self ns False) = rev acc # es \<and>
     filter (\<lambda>e. e \<noteq> []) es = map (entry_text self) (granted self ns)"
  using assms
proof (induction ns arbitrary: acc)
  case Nil
  then show ?case by (simp add: granted_def)
next
  case (Cons x ns)
  obtain name sc where x: "x = (name, sc)" by (cases x)
  show ?case
  proof (cases "contains self sc Read \<or> contains self sc Write")
    case False
    with Cons x show ?thesis by (simp add: granted_def)
  next
    case True
    let ?e = "entry_text self x"
    have chars: "\<forall>c \<in> set ?e. entry_char c" using Cons.prems by (intro entry_text_chars) simp
    have loop: "display_loop self (x # ns) False = '', '' @ ?e @ display_loop self ns False"
      using True by (auto simp: x entry_text_def Let_def)
    obtain es where es: "split_by comma_or_ws (rev ?e) (display_loop self ns False) = ?e # es"
      "filter (\<lambda>e. e \<noteq> []) es = map (entry_text self) (granted self ns)"
      using Cons.IH [of "rev ?e"] Cons.prems by auto
    have "split_by comma_or_ws acc (display_loop self (x # ns) False) = rev acc # [] # ?e # es"
      by (simp add: loop comma_then_space Let_def split_entry [OF chars] es)
    moreover have "?e \<noteq> []" by (simp add: entry_text_def)
    ultimately show ?thesis using es(2) True by (auto simp: granted_def x)
  qed
qed

lemma display_loop_entries:
  assumes "set ns \<subseteq> set NAMES"
  shows "scope_entries (display_loop self ns True) = map (entry_text self) (granted self ns)"
  using assms
proof (induction ns)
  case Nil
  then show ?case by (simp add: granted_def scope_entries_def)
next
  case (Cons x ns)
  obtain name sc where x: "x = (name, sc)" by (cases x)
  show ?case
  proof (cases "contains self sc Read \<or> contains self sc Write")
    case False
    with Cons x show ?thesis by (simp add: granted_def)
  next
    case True
    let ?e = "entry_text self x"
    have chars: "\<forall>c \<in> set ?e. entry_char c" using Cons.prems by (intro entry_text_chars) simp
    have loop: "display_loop self (x # ns) True = ?e @ display_loop self ns False"
      using True by (auto simp: x entry_text_def Let_def)
    obtain es where es: "split_by comma_or_ws (rev ?e) (display_loop self ns False) = ?e # es"
      "filter (\<lambda>e. e \<noteq> []) es = map (entry_text self) (granted self ns)"
      using display_loop_tail [of ns "rev ?e" self] Cons.prems by auto
    have "split_by comma_or_ws [] (display_loop self (x # ns) True) = ?e # es"
      unfolding loop split_entry [OF chars] by (simp add: es)
    moreover have "?e \<noteq> []" by (simp add: entry_text_def)
    ultimately show ?thesis using es(2) True by (auto simp: granted_def x scope_entries_def)
  qed
qed

subsection \<open>What the parser reads\<close>

text \<open>The grants one entry of the printed form restores.\<close>

definition regrant :: "scope_set \<Rightarrow> scope_set \<Rightarrow> str \<times> scope \<Rightarrow> scope_set" where
  "regrant self acc ns =
     (let acc1 = (if contains self (snd ns) Read then with_grant acc (snd ns) Read else acc)
      in if contains self (snd ns) Write then with_grant acc1 (snd ns) Write else acc1)"

lemma find_names: "list_all (\<lambda>(n, s). find (\<lambda>(m, t). eq_ignore_ascii_case m n) NAMES = Some (n, s)) NAMES"
  by code_simp

lemma parse_access_text:
  "r \<or> w \<Longrightarrow> parse_access n a (access_text r w) False False = Ok (r, w)"
  by (cases r; cases w) (simp_all add: access_text_def to_ascii_lowercase_def)

lemma parse_entry_text:
  assumes "ns \<in> set NAMES" "contains self (snd ns) Read \<or> contains self (snd ns) Write"
  shows "parse_entry acc (entry_text self ns) = Ok (regrant self acc ns)"
proof -
  obtain n s where ns: "ns = (n, s)" by (cases ns)
  have "CHR '':'' \<notin> set n" using assms(1) names_chars name_char_entry ns by blast
  then have "split_once (CHR '':'') (entry_text self ns) =
      Some (n, access_text (contains self s Read) (contains self s Write))"
    by (simp add: split_once_Some entry_text_def ns)
  moreover have "find (\<lambda>(m, t). eq_ignore_ascii_case m n) NAMES = Some (n, s)"
    using find_names assms(1) ns unfolding list_all_iff by fastforce
  ultimately show ?thesis
    using assms(2) by (auto simp: parse_entry_def ns regrant_def parse_access_text Let_def)
qed

lemma parse_entries_text:
  assumes "set ns \<subseteq> set NAMES"
  shows "parse_entries acc (map (entry_text self) (granted self ns)) =
    Ok (foldl (regrant self) acc (granted self ns))"
  using assms
proof (induction ns arbitrary: acc)
  case Nil
  then show ?case by (simp add: granted_def)
next
  case (Cons x ns)
  then show ?case by (auto simp: granted_def parse_entry_text split: prod.splits)
qed

lemma regrant_holds:
  "contains (foldl (regrant self) acc ns) sc a \<longleftrightarrow>
     contains acc sc a \<or> contains self sc a \<and> sc \<in> snd ` set ns"
proof (induction ns arbitrary: acc)
  case Nil
  then show ?case by simp
next
  case (Cons x ns)
  have "contains (regrant self acc x) sc a \<longleftrightarrow>
      contains acc sc a \<or> contains self sc a \<and> sc = snd x"
    using sg.holds_add [of _ _ "(sc, a)"] by (cases a) (auto simp: regrant_def Let_def)
  with Cons.IH show ?case by auto
qed

lemma regrant_valid: "is_valid acc \<Longrightarrow> is_valid (foldl (regrant self) acc ns)"
  using sg.wf_add by (induction ns arbitrary: acc) (auto simp: regrant_def Let_def)

lemma names_scopes: "snd ` set NAMES = UNIV"
proof -
  have "sc \<in> snd ` set NAMES" for sc by (cases sc) (simp_all add: NAMES_def)
  then show ?thesis by blast
qed

definition defined_part :: "scope_set \<Rightarrow> scope_set" where
  "defined_part s = ScopeSet (bits s AND bits SET_ALL)"

lemma defined_part_valid: "is_valid (defined_part s)"
  by (simp add: is_valid_iff defined_part_def bits_SET_ALL and.assoc)

lemma defined_part_holds: "contains (defined_part s) sc a = contains s sc a"
  using grant_index_less [of sc a]
  by (simp add: contains_bit defined_part_def bits_SET_ALL bit_and_iff bit_mask_iff)

lemma defined_part_id: "defined_part s = s \<longleftrightarrow> is_valid s"
  by (cases s) (auto simp: is_valid_iff defined_part_def bits_SET_ALL)

lemma regrant_all: "foldl (regrant self) SET_EMPTY (granted self NAMES) = defined_part self"
proof (rule sg.wf_ext)
  show "is_valid (foldl (regrant self) SET_EMPTY (granted self NAMES))"
    by (intro regrant_valid sg.wf_none)
  show "is_valid (defined_part self)" by (rule defined_part_valid)
  fix g :: "scope \<times> access"
  obtain sc a where g: "g = (sc, a)" by (cases g)
  have "\<exists>n. (n, sc) \<in> set NAMES" using names_scopes by force
  then have "contains self sc a \<Longrightarrow> sc \<in> snd ` set (granted self NAMES)"
    by (cases a) (force simp: granted_def)+
  then show "holds_grant (foldl (regrant self) SET_EMPTY (granted self NAMES)) g =
      holds_grant (defined_part self) g"
    using sg.holds_none by (auto simp: g regrant_holds defined_part_holds)
qed

subsection \<open>The shape of the printed text\<close>

lemma display_loop_nothing: "granted self ns = [] \<Longrightarrow> display_loop self ns first = []"
  by (induction ns) (auto simp: granted_def Let_def split: if_splits)

lemma display_loop_begins:
  "granted self ns \<noteq> [] \<Longrightarrow> \<exists>n s t. (n, s) \<in> set ns \<and> display_loop self ns True = n @ t"
proof (induction ns)
  case Nil
  then show ?case by (simp add: granted_def)
next
  case (Cons x ns)
  obtain n s where x: "x = (n, s)" by (cases x)
  show ?case
  proof (cases "contains self s Read \<or> contains self s Write")
    case True
    then have "display_loop self (x # ns) True = n @ '':'' @
        access_text (contains self s Read) (contains self s Write) @ display_loop self ns False"
      by (auto simp: x Let_def)
    then show ?thesis using x by (metis list.set_intros(1))
  next
    case False
    with Cons show ?thesis by (auto simp: x granted_def)
  qed
qed

lemma display_loop_ends:
  "display_loop self ns first \<noteq> [] \<Longrightarrow> last (display_loop self ns first) \<in> {CHR ''r'', CHR ''w''}"
proof (induction ns arbitrary: first)
  case Nil
  then show ?case by simp
next
  case (Cons x ns)
  obtain n s where x: "x = (n, s)" by (cases x)
  show ?case
  proof (cases "contains self s Read \<or> contains self s Write")
    case True
    then have "access_text (contains self s Read) (contains self s Write) \<noteq> []"
      "last (access_text (contains self s Read) (contains self s Write)) \<in> {CHR ''r'', CHR ''w''}"
      by (auto simp: access_text_def)
    moreover have "last (display_loop self ns False) \<in> {CHR ''r'', CHR ''w''}"
      if "display_loop self ns False \<noteq> []"
      using Cons.IH that by blast
    ultimately show ?thesis using True
      by (cases "display_loop self ns False = []") (auto simp: x Let_def)
  next
    case False
    with Cons show ?thesis by (auto simp: x)
  qed
qed

text \<open>So trimming leaves it alone and it is not the empty form.\<close>

lemma display_text_shape:
  assumes "granted self NAMES \<noteq> []"
  defines "t \<equiv> display_loop self NAMES True"
  shows "t \<noteq> [] \<and> trim t = t \<and> \<not> eq_ignore_ascii_case t EMPTY_TEXT"
proof -
  obtain n s u where n: "(n, s) \<in> set NAMES" "t = n @ u"
    using display_loop_begins [OF assms(1)] unfolding t_def by blast
  then obtain c cs where c: "n = c # cs" using names_nonempty by (cases n) auto
  have nc: "name_char c" using n(1) c names_chars by auto
  have t: "t = c # cs @ u" using n(2) c by simp
  have "last t \<in> {CHR ''r'', CHR ''w''}"
    using display_loop_ends [of self NAMES True] t unfolding t_def by simp
  then have "solid (last t)" by (auto simp: solid_def)
  moreover have "solid (hd t)" using nc t by (auto simp: name_char_def solid_def)
  moreover have "to_ascii_lowercase c = c" using nc by (simp add: name_char_def to_ascii_lowercase_def)
  then have "\<not> eq_ignore_ascii_case t EMPTY_TEXT"
    using nc t by (auto simp: eq_ignore_ascii_case_def EMPTY_TEXT_def to_ascii_lowercase_def name_char_def)
  ultimately show ?thesis using t by (simp add: trim_solid)
qed

lemma trim_EMPTY_TEXT: "trim EMPTY_TEXT = EMPTY_TEXT"
  by (rule trim_solid) (simp add: EMPTY_TEXT_def solid_def)

lemma scope_text_canonical:
  "scope_set_from_str (scope_set_display s) = Ok (defined_part s)"
proof (cases "set_is_empty s")
  case True
  then have "defined_part s = SET_EMPTY"
    by (simp add: set_is_empty_def defined_part_def SET_EMPTY_def)
  with True show ?thesis
    by (simp add: scope_set_from_str_def scope_set_display_def trim_EMPTY_TEXT)
next
  case False
  then have shown: "scope_set_display s = display_loop s NAMES True"
    by (simp add: scope_set_display_def)
  show ?thesis
  proof (cases "granted s NAMES = []")
    case True
    then have "defined_part s = SET_EMPTY" using regrant_all [of s] by simp
    with True show ?thesis
      by (simp add: shown display_loop_nothing scope_set_from_str_def trim_solid)
  next
    case False
    then show ?thesis
      using display_text_shape [OF False]
      by (simp add: shown scope_set_from_str_def display_loop_entries parse_entries_text regrant_all)
  qed
qed

interpretation scope_text: codec scope_set_display scope_set_from_str defined_part
  by unfold_locales (rule scope_text_canonical)

subsection \<open>What a parsed text grants\<close>

definition access_letter :: "access \<Rightarrow> char" where
  "access_letter a = (case a of Read \<Rightarrow> CHR ''r'' | Write \<Rightarrow> CHR ''w'')"

definition entry_grants :: "str \<Rightarrow> scope \<Rightarrow> access \<Rightarrow> bool" where
  "entry_grants e sc a \<longleftrightarrow>
     (case split_once (CHR '':'') e of None \<Rightarrow> False
      | Some (name, acc) \<Rightarrow> eq_ignore_ascii_case (scope_name sc) name \<and>
          access_letter a \<in> to_ascii_lowercase ` set acc)"

lemma parse_access_letters:
  "parse_access n t cs r w = Ok (r', w') \<Longrightarrow>
     r' = (r \<or> CHR ''r'' \<in> to_ascii_lowercase ` set cs) \<and>
     w' = (w \<or> CHR ''w'' \<in> to_ascii_lowercase ` set cs)"
  by (induction n t cs r w rule: parse_access.induct) (auto split: if_splits)

lemma scope_name_in_NAMES: "(scope_name sc, sc) \<in> set NAMES"
  by (cases sc) (simp_all add: scope_name_def NAMES_def)

lemma NAMES_name: "list_all (\<lambda>(n, s). n = scope_name s) NAMES"
  by code_simp

lemma eq_ignore_case_trans:
  "eq_ignore_ascii_case a b \<Longrightarrow> eq_ignore_ascii_case c b \<Longrightarrow> eq_ignore_ascii_case a c"
  by (simp add: eq_ignore_ascii_case_def)

lemma scope_name_case_inj: "eq_ignore_ascii_case (scope_name s) (scope_name t) \<Longrightarrow> s = t"
proof -
  assume *: "eq_ignore_ascii_case (scope_name s) (scope_name t)"
  have "list_all (\<lambda>s. list_all (\<lambda>t. eq_ignore_ascii_case (scope_name s) (scope_name t) = (s = t)) scope_ALL) scope_ALL"
    by code_simp
  moreover have "x \<in> set scope_ALL" for x by (cases x) (simp_all add: scope_ALL_def)
  ultimately show ?thesis using * unfolding list_all_iff by blast
qed

lemma find_name_scope:
  assumes "find (\<lambda>(n, s). eq_ignore_ascii_case n name) NAMES = Some (n, s)"
  shows "eq_ignore_ascii_case (scope_name t) name \<longleftrightarrow> t = s"
proof -
  have "(n, s) \<in> set NAMES" "eq_ignore_ascii_case n name"
    using assms by (auto simp: find_Some_iff in_set_conv_nth)
  moreover from this have "n = scope_name s" using NAMES_name unfolding list_all_iff by fastforce
  ultimately show ?thesis
    using eq_ignore_case_trans scope_name_case_inj by (metis eq_ignore_ascii_case_sym)
qed

lemma parse_entry_grants:
  assumes "parse_entry acc e = Ok s"
  shows "contains s sc a \<longleftrightarrow> contains acc sc a \<or> entry_grants e sc a"
    and "is_valid acc \<Longrightarrow> is_valid s"
proof -
  from assms obtain name at n scope r w where
    e: "split_once (CHR '':'') e = Some (name, at)"
    and f: "find (\<lambda>(n, s). eq_ignore_ascii_case n name) NAMES = Some (n, scope)"
    and p: "parse_access name at at False False = Ok (r, w)"
    and s: "s = (let acc1 = (if r then with_grant acc scope Read else acc)
                 in if w then with_grant acc1 scope Write else acc1)"
    by (auto simp: parse_entry_def res_simps split: if_splits prod.splits)
  note letters = parse_access_letters [OF p]
  show "contains s sc a \<longleftrightarrow> contains acc sc a \<or> entry_grants e sc a"
    using sg.holds_add [of _ _ "(sc, a)"] letters find_name_scope [OF f, of sc]
    by (cases a) (auto simp: s e entry_grants_def access_letter_def Let_def)
  show "is_valid acc \<Longrightarrow> is_valid s"
    using sg.wf_add by (auto simp: s Let_def)
qed

lemma parse_entries_grants:
  "parse_entries acc es = Ok s \<Longrightarrow>
     (contains s sc a \<longleftrightarrow> contains acc sc a \<or> (\<exists>e \<in> set es. entry_grants e sc a)) \<and>
     (is_valid acc \<longrightarrow> is_valid s)"
proof (induction es arbitrary: acc)
  case Nil
  then show ?case by simp
next
  case (Cons e es)
  then obtain acc' where *: "parse_entry acc e = Ok acc'" "parse_entries acc' es = Ok s"
    by (auto simp: res_simps)
  from Cons.IH [OF *(2)] parse_entry_grants [OF *(1)] show ?case by auto
qed

lemma no_entry_grants: "CHR '':'' \<notin> set e \<Longrightarrow> \<not> entry_grants e sc a"
  by (simp add: entry_grants_def flip: split_once_None)

lemma split_by_chars: "e \<in> set (split_by sep acc s) \<Longrightarrow> set e \<subseteq> set acc \<union> set s"
proof (induction sep acc s arbitrary: e rule: split_by.induct)
  case (1 sep acc)
  then show ?case by simp
next
  case (2 sep acc c cs)
  have "set (drop (sep (c # cs)) (c # cs)) \<subseteq> set (c # cs)" by (rule set_drop_subset)
  with 2 show ?case by (fastforce simp: Let_def split: if_splits)
qed

lemma scope_entries_chars: "e \<in> set (scope_entries t) \<Longrightarrow> set e \<subseteq> set t"
  using split_by_chars [of e comma_or_ws "[]" t] by (auto simp: scope_entries_def)

section \<open>Properties\<close>

text \<open>
  C22. Printing a scope set and parsing the text gives back exactly the defined part of the
  set: undefined bits are dropped, and the round trip is the identity precisely on the sets
  that \<open>is_valid\<close> accepts.
\<close>

theorem scope_text_round_trip:
  "scope_set_from_str (scope_set_display s) = Ok (ScopeSet (bits s AND bits SET_ALL)) \<and>
   (scope_set_from_str (scope_set_display s) = Ok s \<longleftrightarrow> is_valid s)"
  using scope_text.round_trip [of s] defined_part_id [of s]
  by (auto simp: defined_part_def)

text \<open>
  The mask comparison decides permission inclusion: a set covers a required set of
  defined grants exactly when it contains each of them, Read and Write counted separately.
\<close>

theorem superset_is_grant_inclusion:
  assumes "is_valid required"
  shows "is_superset held required \<longleftrightarrow>
    (\<forall>sc a. contains required sc a \<longrightarrow> contains held sc a)"
  using sg.covers_holds [OF assms, of held] by auto

theorem superset_is_grant_inclusion_witness:
  "is_valid (single Secrets Read) \<and> \<not> is_superset (single Secrets Write) (single Secrets Read) \<and>
   \<not> (\<forall>sc a. contains (single Secrets Read) sc a \<longrightarrow> contains (single Secrets Write) sc a)"
proof -
  have v: "is_valid (single Secrets Read)" by code_simp
  have "\<not> is_superset (single Secrets Write) (single Secrets Read)" by code_simp
  with v superset_is_grant_inclusion [OF v, of "single Secrets Write"] show ?thesis by blast
qed

text \<open>
  C21. The set operations are the operations on sets of grants: adding a grant adds exactly
  that grant, union is union, \<open>covering\<close> grants Read and Write on exactly the listed scopes,
  \<open>EMPTY\<close> grants nothing and \<open>ALL\<close> everything; and one set covers the defined bits of another
  exactly when its grants include the other's, Read and Write counted separately.
\<close>

theorem scope_set_operations:
  "(contains (with_grant s sc a) sc' a' \<longleftrightarrow> contains s sc' a' \<or> sc' = sc \<and> a' = a) \<and>
   (contains (union s t) sc a \<longleftrightarrow> contains s sc a \<or> contains t sc a) \<and>
   (contains (covering scopes) sc a \<longleftrightarrow> sc \<in> set scopes) \<and>
   \<not> contains SET_EMPTY sc a \<and> contains SET_ALL sc a \<and>
   (is_superset s (ScopeSet (bits t AND bits SET_ALL)) \<longleftrightarrow>
      {(sc, a). contains t sc a} \<subseteq> {(sc, a). contains s sc a})"
proof -
  have v: "is_valid (ScopeSet (bits t AND bits SET_ALL))"
    by (simp add: is_valid_def bit_eq_iff bit_and_iff bit_not_iff)
  have "contains (ScopeSet (bits t AND bits SET_ALL)) x y = contains t x y" for x y
    using grant_index_less [of x y] by (simp add: contains_bit bits_SET_ALL bit_and_iff bit_mask_iff)
  then have sup: "is_superset s (ScopeSet (bits t AND bits SET_ALL)) \<longleftrightarrow>
      {(sc, a). contains t sc a} \<subseteq> {(sc, a). contains s sc a}"
    using sg.covers_holds [OF v, of s] by auto
  have loop: "contains (ScopeSet (covering_loop ss b)) sc a \<longleftrightarrow> contains (ScopeSet b) sc a \<or> sc \<in> set ss"
    for ss b
    by (induction ss arbitrary: b; cases a)
      (auto simp: contains_bit bit_or_iff bit_scope_bit grant_index_inj)
  show ?thesis
    using sup sg.holds_add [of s "(sc, a)" "(sc', a')"] sg.holds_join [of s t "(sc, a)"]
      sg.holds_none [of "(sc, a)"] loop [of scopes 0] grant_index_less [of sc a]
    by (auto simp: covering_def contains_bit bits_SET_ALL bit_mask_iff)
qed

text \<open>
  C23. What a parsed scope text grants: a successful parse yields a valid set whose grants
  are exactly those that some comma- or space-separated entry names, with names and access
  letters compared case-insensitively.
\<close>

theorem scope_parse_grants:
  assumes "scope_set_from_str txt = Ok s"
  shows "is_valid s \<and>
    (contains s sc a \<longleftrightarrow> (\<exists>e \<in> set (scope_entries (trim txt)). entry_grants e sc a))"
proof (cases "trim txt = [] \<or> eq_ignore_ascii_case (trim txt) EMPTY_TEXT")
  case False
  with assms have "parse_entries SET_EMPTY (scope_entries (trim txt)) = Ok s"
    by (simp add: scope_set_from_str_def)
  from parse_entries_grants [OF this, of sc a] sg.wf_none sg.holds_none show ?thesis by auto
next
  case True
  have "\<not> entry_grants e sc a" if e: "e \<in> set (scope_entries (trim txt))" for e
  proof -
    have "CHR '':'' \<notin> set (trim txt)"
    proof
      assume "CHR '':'' \<in> set (trim txt)"
      then have "to_ascii_lowercase (CHR '':'') \<in> set (map to_ascii_lowercase EMPTY_TEXT)"
        using True by (metis empty_iff eq_ignore_ascii_case_def image_eqI list.set(1) list.set_map)
      then show False by (simp add: EMPTY_TEXT_def to_ascii_lowercase_def)
    qed
    moreover have "set e \<subseteq> set (trim txt)" using e scope_entries_chars by blast
    ultimately show ?thesis by (intro no_entry_grants) blast
  qed
  moreover have "s = SET_EMPTY" using assms True by (auto simp: scope_set_from_str_def)
  ultimately show ?thesis using sg.wf_none sg.holds_none by auto
qed

theorem scope_parse_grants_witness:
  "scope_set_from_str '' Secrets:R, '' = Ok (single Secrets Read) \<and> is_valid (single Secrets Read) \<and>
   (\<exists>e \<in> set (scope_entries (trim '' Secrets:R, '')). entry_grants e Secrets Read)"
proof -
  have p: "scope_set_from_str '' Secrets:R, '' = Ok (single Secrets Read)" by code_simp
  have "contains (single Secrets Read) Secrets Read" by code_simp
  with p scope_parse_grants [OF p, of Secrets Read] show ?thesis by blast
qed

end
