(* ===== verification/Wire.thy ===== *)
theory Wire
  imports Rust_Text
begin

text \<open>
  The vocabulary every crate shares: \<open>CoreError\<close> (\<open>matter-sdk-core/src/error.rs\<close>), the AAD
  registry (\<open>aad.rs\<close>), the \<open>0x\<close>-hex helpers of the wire contract (\<open>wire.rs\<close>) and the crate
  constants (\<open>lib.rs\<close>). The third-party \<open>hex\<close> crate is the parameter \<open>hex_lib\<close>; what the
  sources rely on is the locale \<open>hex_crate\<close>, and \<open>hex_ref\<close> is a concrete codec that has it.
\<close>

section \<open>Decimal printing\<close>

text \<open>\<open>Display\<close> of an unsigned integer.\<close>

definition digit_char :: "nat \<Rightarrow> char" where
  "digit_char d = char_of (48 + d)"

fun show_nat :: "nat \<Rightarrow> str" where
  "show_nat n = (if n < 10 then [digit_char n] else show_nat (n div 10) @ [digit_char (n mod 10)])"

declare show_nat.simps [simp del]

text \<open>
  \<open>Debug\<close> of a \<open>str\<close>: quotes, with the ASCII escapes. Bytes above 127 are passed through
  (\<open>Debug\<close> also escapes the unprintable characters of the Unicode tables).
\<close>

definition hex_char :: "nat \<Rightarrow> char" where
  "hex_char d = (if d < 10 then char_of (48 + d) else char_of (87 + d))"

definition debug_char :: "char \<Rightarrow> str" where
  "debug_char c =
     (if c = CHR 0x22 then [CHR 0x5C, CHR 0x22]
      else if c = CHR 0x5C then [CHR 0x5C, CHR 0x5C]
      else if c = CHR 0x0A then [CHR 0x5C, CHR ''n'']
      else if c = CHR 0x0D then [CHR 0x5C, CHR ''r'']
      else if c = CHR 0x09 then [CHR 0x5C, CHR ''t'']
      else if c = CHR 0x00 then [CHR 0x5C, CHR ''0'']
      else if ord c < 32 \<or> ord c = 127 then
        [CHR 0x5C] @ ''u{'' @ (if ord c < 16 then [] else [hex_char (ord c div 16)]) @
        [hex_char (ord c mod 16)] @ ''}''
      else [c])"

definition debug_str :: "str \<Rightarrow> str" where
  "debug_str s = [CHR 0x22] @ concat (map debug_char s) @ [CHR 0x22]"

section \<open>The hex crate\<close>

datatype from_hex_error = InvalidHexCharacter char nat | OddLength | InvalidStringLength

text \<open>
  \<open>hex::encode\<close>, \<open>hex::decode\<close>, \<open>hex::decode_to_slice\<close> (into a buffer of the given length)
  and the error's \<open>Display\<close>.
\<close>

record hex_lib =
  hex_encode :: "bytes \<Rightarrow> str"
  hex_decode :: "str \<Rightarrow> from_hex_error + bytes"
  hex_decode_to_slice :: "str \<Rightarrow> nat \<Rightarrow> from_hex_error + bytes"
  hex_error_display :: "from_hex_error \<Rightarrow> str"

definition lower_hex :: "char \<Rightarrow> bool" where
  "lower_hex c \<longleftrightarrow> is_ascii_digit c \<or> 97 \<le> ord c \<and> ord c \<le> 102"

locale hex_crate =
  fixes H :: hex_lib
  assumes decode_encode: "hex_decode H (hex_encode H bs) = Ok bs"
    and encode_length: "length (hex_encode H bs) = 2 * length bs"
    and encode_lower: "c \<in> set (hex_encode H bs) \<Longrightarrow> lower_hex c"
    and decode_length: "hex_decode H s = Ok bs \<Longrightarrow> length s = 2 * length bs"
    and decode_slice: "hex_decode_to_slice H s n = Ok bs \<longleftrightarrow> hex_decode H s = Ok bs \<and> length bs = n"

section \<open>Core errors\<close>

datatype core_error =
    InvalidLength (il_field: str) (il_expected: nat) (il_actual: nat)
  | TooLarge (tl_field: str) (tl_max: nat) (tl_actual: nat)
  | Empty str
  | Hex str from_hex_error
  | Decode str str
  | InvalidSubset str
  | Aggregate str
  | Aead

fun core_error_display :: "hex_lib \<Rightarrow> core_error \<Rightarrow> str" where
  "core_error_display H (InvalidLength field expected actual) =
     field @ '' must be '' @ show_nat expected @ '' bytes, got '' @ show_nat actual"
| "core_error_display H (TooLarge field mx actual) =
     field @ '' is '' @ show_nat actual @ '' bytes; max is '' @ show_nat mx"
| "core_error_display H (Empty what) = what @ '' must not be empty''"
| "core_error_display H (Hex field source) =
     ''hex decode of '' @ field @ '': '' @ hex_error_display H source"
| "core_error_display H (Decode field detail) = ''decode of '' @ field @ '': '' @ detail"
| "core_error_display H (InvalidSubset d) = ''invalid decrypt subset: '' @ d"
| "core_error_display H (Aggregate d) = ''partial-decryption aggregate rejected: '' @ d"
| "core_error_display H Aead = ''AEAD authentication failed (wrong key, epoch, or aad)''"

section \<open>The AAD registry\<close>

datatype aad =
    EnvV1 | TlsV1 | StorageCredsV1 | VolumeDekV1 | DatasetSourceCredsV1 | QuantumGuardPolicyDekV1

text \<open>The bytes of an ASCII literal.\<close>

definition str_bytes :: "str \<Rightarrow> bytes" where
  "str_bytes s = map of_char s"

fun aad_text :: "aad \<Rightarrow> str" where
  "aad_text EnvV1 = ''matter-deployment/env/v1''"
| "aad_text TlsV1 = ''matter-deployment/tls/v1''"
| "aad_text StorageCredsV1 = ''matter-volume/storage-creds/v1''"
| "aad_text VolumeDekV1 = ''matter-volume/dek/v1''"
| "aad_text DatasetSourceCredsV1 = ''matter-dataset/source-creds/v1''"
| "aad_text QuantumGuardPolicyDekV1 = ''quantum-guard/policy-dek/v1''"

definition aad_as_bytes :: "aad \<Rightarrow> bytes" where
  "aad_as_bytes a = str_bytes (aad_text a)"

lemma str_bytes_inj: "str_bytes s = str_bytes t \<longleftrightarrow> s = t"
proof -
  have "inj (of_char :: char \<Rightarrow> u8)"
  proof (rule injI)
    fix c d :: char
    assume "(of_char c :: u8) = of_char d"
    then have "unat (word_of_nat (of_char c) :: u8) = unat (word_of_nat (of_char d) :: u8)"
      by (metis of_nat_of_char)
    then show "c = d" by (simp add: unat_of_nat_u8)
  qed
  then show ?thesis by (simp add: str_bytes_def inj_map_eq_map)
qed

lemma aad_as_bytes_inj: "aad_as_bytes a = aad_as_bytes b \<longleftrightarrow> a = b"
  by (cases a; cases b) (simp_all add: aad_as_bytes_def str_bytes_inj)

lemma aad_as_bytes_nonempty: "aad_as_bytes a \<noteq> []"
  by (cases a) (simp_all add: aad_as_bytes_def str_bytes_def)

section \<open>Hex helpers\<close>

definition to_0x :: "hex_lib \<Rightarrow> bytes \<Rightarrow> str" where
  "to_0x H bs = ''0x'' @ hex_encode H bs"

definition from_0x :: "hex_lib \<Rightarrow> str \<Rightarrow> str \<Rightarrow> core_error + bytes" where
  "from_0x H field s = map_err (Hex field) (hex_decode H (without_prefix ''0x'' s))"

definition secret_id_to_hex :: "hex_lib \<Rightarrow> u128 \<Rightarrow> str" where
  "secret_id_to_hex H secret_id = to_0x H (u128_to_be_bytes secret_id)"

definition secret_id_from_hex :: "hex_lib \<Rightarrow> str \<Rightarrow> core_error + u128" where
  "secret_id_from_hex H s =
     rbind (from_0x H ''secret_id'' s) (\<lambda>bytes.
       if length bytes = 16 then Ok (u128_from_be_bytes bytes)
       else Err (InvalidLength ''secret_id'' 16 (length bytes)))"

context hex_crate
begin

lemma from_0x_to_0x: "from_0x H field (to_0x H bs) = Ok bs"
  by (simp add: from_0x_def to_0x_def decode_encode del: append_Cons)

text \<open>Bare hex is read as it is: its second character is never an \<open>x\<close>.\<close>

lemma without_prefix_bare: "without_prefix ''0x'' (hex_encode H bs) = hex_encode H bs"
proof -
  have "hex_encode H bs \<noteq> ''0x'' @ t" for t
    using encode_lower [of "CHR ''x''" bs] by (auto simp: lower_hex_def is_ascii_digit_def)
  then have "strip_prefix ''0x'' (hex_encode H bs) = None"
    by (metis not_None_eq strip_prefix_Some)
  then show ?thesis by (simp add: without_prefix_def)
qed

lemma from_0x_bare: "from_0x H field (hex_encode H bs) = Ok bs"
  by (simp add: from_0x_def without_prefix_bare decode_encode)

lemma to_0x_length: "length (to_0x H bs) = 2 + 2 * length bs"
  by (simp add: to_0x_def encode_length)

lemma secret_id_round_trip: "secret_id_from_hex H (secret_id_to_hex H i) = Ok i"
  by (simp add: secret_id_from_hex_def secret_id_to_hex_def from_0x_to_0x)

lemma secret_id_accepts:
  "secret_id_from_hex H s = Ok i \<Longrightarrow> length (without_prefix ''0x'' s) = 32"
  by (auto simp: secret_id_from_hex_def from_0x_def res_simps dest: decode_length split: if_splits)

end

sublocale hex_crate \<subseteq> secret_id: lossless_codec "secret_id_to_hex H" "secret_id_from_hex H"
  by unfold_locales (rule secret_id_round_trip)

section \<open>A reference hex codec\<close>

definition hex_value :: "char \<Rightarrow> nat option" where
  "hex_value c =
     (if is_ascii_digit c then Some (ord c - 48)
      else if 97 \<le> ord c \<and> ord c \<le> 102 then Some (ord c - 87)
      else if 65 \<le> ord c \<and> ord c \<le> 70 then Some (ord c - 55)
      else None)"

fun encode_ref :: "bytes \<Rightarrow> str" where
  "encode_ref [] = []"
| "encode_ref (b # bs) = hex_char (unat b div 16) # hex_char (unat b mod 16) # encode_ref bs"

fun decode_ref :: "nat \<Rightarrow> str \<Rightarrow> from_hex_error + bytes" where
  "decode_ref i [] = Ok []"
| "decode_ref i [c] = Err OddLength"
| "decode_ref i (c # d # cs) =
     (case hex_value c of None \<Rightarrow> Err (InvalidHexCharacter c i)
      | Some h \<Rightarrow> (case hex_value d of None \<Rightarrow> Err (InvalidHexCharacter d (i + 1))
        | Some l \<Rightarrow> rbind (decode_ref (i + 2) cs) (\<lambda>bs. Ok (word_of_nat (h * 16 + l) # bs))))"

definition hex_ref :: hex_lib where
  "hex_ref =
     \<lparr>hex_encode = encode_ref,
      hex_decode = (\<lambda>s. if odd (length s) then Err OddLength else decode_ref 0 s),
      hex_decode_to_slice = (\<lambda>s n.
        if odd (length s) then Err OddLength
        else if length s div 2 \<noteq> n then Err InvalidStringLength else decode_ref 0 s),
      hex_error_display = (\<lambda>e. ''invalid hex'')\<rparr>"

lemma hex_char_facts: "d < 16 \<Longrightarrow> hex_value (hex_char d) = Some d \<and> lower_hex (hex_char d)"
  by (auto simp: hex_char_def hex_value_def lower_hex_def is_ascii_digit_def)

lemma unat_u8_div16: "unat (b :: u8) div 16 < 16"
  using unsigned_less [of b, where 'a = nat] by simp

lemma decode_encode_ref: "decode_ref i (encode_ref bs) = Ok bs"
  by (induction bs arbitrary: i) (simp_all add: hex_char_facts unat_u8_div16)

lemma length_encode_ref: "length (encode_ref bs) = 2 * length bs"
  by (induction bs) simp_all

lemma encode_ref_lower: "c \<in> set (encode_ref bs) \<Longrightarrow> lower_hex c"
  by (induction bs) (auto simp: hex_char_facts unat_u8_div16)

lemma decode_ref_length: "decode_ref i s = Ok bs \<Longrightarrow> length s = 2 * length bs"
  by (induction i s arbitrary: bs rule: decode_ref.induct)
    (auto simp: res_simps split: option.splits)

interpretation hexr: hex_crate hex_ref
  by unfold_locales
    (auto simp: hex_ref_def decode_encode_ref length_encode_ref encode_ref_lower
      dest: decode_ref_length split: if_splits)

section \<open>Constants\<close>

definition MAX_COMMITTEE_RESPONSE_BYTES :: nat where
  "MAX_COMMITTEE_RESPONSE_BYTES = 2 ^ 30"

definition OBSERVED_PARTIAL_BYTES :: nat where
  "OBSERVED_PARTIAL_BYTES = 1180574"

text \<open>The two compile-time assertions.\<close>

lemma response_cap_headroom:
  "OBSERVED_PARTIAL_BYTES < MAX_COMMITTEE_RESPONSE_BYTES"
  "OBSERVED_PARTIAL_BYTES * 8 \<le> MAX_COMMITTEE_RESPONSE_BYTES"
  by (simp_all add: OBSERVED_PARTIAL_BYTES_def MAX_COMMITTEE_RESPONSE_BYTES_def)

section \<open>Properties\<close>

text \<open>
  A secret id survives its wire form: rendering a \<open>u128\<close> as \<open>0x\<close> and 32 hex digits and
  reading it back is the identity, the rendering always has 34 characters, and text that
  does not hold exactly 16 bytes is never accepted.
\<close>

theorem secret_id_hex_round_trip:
  assumes "hex_crate H"
  shows "secret_id_from_hex H (secret_id_to_hex H i) = Ok i \<and>
    length (secret_id_to_hex H i) = 34 \<and>
    (length (without_prefix ''0x'' s) \<noteq> 32 \<longrightarrow> secret_id_from_hex H s \<noteq> Ok j)"
  using hex_crate.secret_id_round_trip [OF assms] hex_crate.secret_id_accepts [OF assms]
    hex_crate.to_0x_length [OF assms]
  by (auto simp: secret_id_to_hex_def)

theorem secret_id_hex_round_trip_witness:
  "hex_crate hex_ref \<and> secret_id_from_hex hex_ref (secret_id_to_hex hex_ref 255) = Ok 255 \<and>
   secret_id_to_hex hex_ref 255 = ''0x000000000000000000000000000000ff'' \<and>
   secret_id_from_hex hex_ref ''0x00'' \<noteq> Ok 0"
proof -
  have h: "hex_crate hex_ref" by (rule hexr.hex_crate_axioms)
  have t: "secret_id_to_hex hex_ref 255 = ''0x000000000000000000000000000000ff''" by code_simp
  have "length (without_prefix ''0x'' ''0x00'') \<noteq> 32" by code_simp
  with h t secret_id_hex_round_trip [OF h, of 255 "''0x00''" 0] show ?thesis by blast
qed

end
