(* ===== verification/Keys.thy ===== *)
theory Keys
  imports Wire
begin

text \<open>
  \<open>crates/matter-sdk-key\<close>: key errors (\<open>error.rs\<close>), schemes and account ids (\<open>scheme.rs\<close>), the
  secret-URI splitter (\<open>suri.rs\<close>), the \<open>ApiKey\<close> container (\<open>apikey.rs\<close>) and the \<open>KeySigner\<close>
  contract (\<open>signer.rs\<close>). The sr25519 and BIP39 code of \<open>subxt_signer\<close> is third-party: it is the
  record \<open>signer_lib\<close>, with keypairs \<open>'kp\<close>, mnemonics \<open>'m\<close> and junctions \<open>'j\<close>.
\<close>

section \<open>Errors\<close>

datatype key_error =
    KeyEmpty
  | UnsupportedScheme (us_scheme: str) (us_supported: str)
  | Malformed str
  | Derivation str
  | NoKey

fun key_error_display :: "key_error \<Rightarrow> str" where
  "key_error_display KeyEmpty = ''api key is empty''"
| "key_error_display (UnsupportedScheme scheme supported) =
     ''unsupported api key scheme '' @ debug_str scheme @ '': this build supports '' @ supported"
| "key_error_display (Malformed detail) = ''malformed api key: '' @ detail"
| "key_error_display (Derivation detail) = ''api key rejected during derivation: '' @ detail"
| "key_error_display NoKey = ''signer holds no key material and cannot sign''"

section \<open>Schemes and account ids\<close>

datatype key_scheme = Sr25519

definition RESERVED_SCHEMES :: "str list" where
  "RESERVED_SCHEMES = [''secp256k1'', ''ecdsa'', ''ed25519'']"

definition SUPPORTED_SCHEMES :: str where
  "SUPPORTED_SCHEMES = ''sr25519''"

fun scheme_as_str :: "key_scheme \<Rightarrow> str" where
  "scheme_as_str Sr25519 = ''sr25519''"

definition UNRECOGNISED_PREFIX :: key_error where
  "UNRECOGNISED_PREFIX =
     Malformed ''unrecognised api key scheme prefix; this build supports sr25519''"

definition from_token :: "str \<Rightarrow> key_error + key_scheme" where
  "from_token tok =
     (if eq_ignore_ascii_case tok (scheme_as_str Sr25519) then Ok Sr25519
      else Err UNRECOGNISED_PREFIX)"

datatype account_id = AccountId (as_bytes: bytes)

definition account_to_hex :: "hex_lib \<Rightarrow> account_id \<Rightarrow> str" where
  "account_to_hex H a = ''0x'' @ hex_encode H (as_bytes a)"

definition account_from_hex :: "hex_lib \<Rightarrow> str \<Rightarrow> key_error + account_id" where
  "account_from_hex H s =
     rbind (map_err (\<lambda>_. Malformed ''account id must be 32 bytes of hex'')
             (hex_decode_to_slice H (without_prefix ''0x'' s) 32))
       (\<lambda>out. Ok (AccountId out))"

section \<open>The signing library\<close>

text \<open>Errors of this library are always replaced by static text, so they are \<open>None\<close> here.\<close>

record ('kp, 'm, 'j) signer_lib =
  junction_from :: "str \<Rightarrow> 'j"
  from_secret_key :: "bytes \<Rightarrow> 'kp option"
  mnemonic_from_str :: "str \<Rightarrow> 'm option"
  from_phrase :: "'m \<Rightarrow> str option \<Rightarrow> 'kp option"
  derive :: "'kp \<Rightarrow> 'j list \<Rightarrow> 'kp"
  public_key :: "'kp \<Rightarrow> bytes"
  kp_sign :: "'kp \<Rightarrow> bytes \<Rightarrow> bytes"

section \<open>Secret URIs\<close>

record 'j suri =
  phrase :: str
  junctions :: "'j list"
  password :: "str option"

text \<open>
  \<open>char::is_alphanumeric\<close>: the ASCII letters and digits, and what the Unicode tables say
  (\<open>uni\<close>, on the UTF-8 bytes of one character) for the others.
\<close>

definition is_alphanumeric :: "(str \<Rightarrow> bool) \<Rightarrow> str \<Rightarrow> bool" where
  "is_alphanumeric uni c =
     (case c of [a] \<Rightarrow> if ord a < 128 then is_ascii_alphanumeric a else uni c | _ \<Rightarrow> uni c)"

definition is_valid_phrase :: "(str \<Rightarrow> bool) \<Rightarrow> str \<Rightarrow> bool" where
  "is_valid_phrase uni p \<longleftrightarrow>
     list_all (\<lambda>c. is_alphanumeric uni c \<or> c = ''_'' \<or> c = '' '') (str_chars p)"

definition PHRASE_MALFORMED :: key_error where
  "PHRASE_MALFORMED =
     Malformed ''phrase may contain only letters, digits, underscores, and spaces''"

definition PATH_MALFORMED :: key_error where
  "PATH_MALFORMED =
     Malformed ''derivation path must be a sequence of `/soft` or `//hard` segments''"

text \<open>One round of the byte loop reads a separator, a second one, and the code after it.\<close>

function parse_junctions :: "(str \<Rightarrow> 'j) \<Rightarrow> str \<Rightarrow> key_error + 'j list" where
  "parse_junctions J [] = Ok []"
| "parse_junctions J (c # cs) =
     (if c \<noteq> CHR ''/'' then Err PATH_MALFORMED
      else
       let hard = (case cs of d # _ \<Rightarrow> d = CHR ''/'' | [] \<Rightarrow> False);
           cs' = (if hard then tl cs else cs);
           code = takeWhile (\<lambda>x. x \<noteq> CHR ''/'') cs' in
       if code = [] then Err PATH_MALFORMED
       else rbind (parse_junctions J (dropWhile (\<lambda>x. x \<noteq> CHR ''/'') cs'))
              (\<lambda>js. Ok (J ((if hard then ''/'' else '''') @ code) # js)))"
  by pat_completeness auto
termination
proof (relation "measure (\<lambda>(J, s). length s)", goal_cases)
  case 1
  then show ?case by simp
next
  case (2 J c cs hard cs' code)
  then have "length cs' \<le> length cs" by auto
  moreover have "length (dropWhile (\<lambda>x. x \<noteq> CHR ''/'') cs') \<le> length cs'"
    by (rule length_dropWhile_le)
  ultimately show ?case by simp
qed

definition suri_split :: "(str \<Rightarrow> bool) \<Rightarrow> (str \<Rightarrow> 'j) \<Rightarrow> str \<Rightarrow> key_error + 'j suri" where
  "suri_split uni J input =
     (let (head, pw) = (case find_str ''///'' input of
            Some at \<Rightarrow> (take at input, Some (drop (at + 3) input))
          | None \<Rightarrow> (input, None));
          (ph, path) = (case find_char (CHR ''/'') head of
            Some at \<Rightarrow> (take at head, drop at head)
          | None \<Rightarrow> (head, ''''))
      in
      if \<not> is_valid_phrase uni ph then Err PHRASE_MALFORMED
      else rbind (parse_junctions J path)
             (\<lambda>js. Ok \<lparr>phrase = ph, junctions = js, password = pw\<rparr>))"

section \<open>The API key\<close>

record 'kp api_key =
  key_scheme :: key_scheme
  account :: account_id
  material :: 'kp

definition from_keypair :: "('kp, 'm, 'j) signer_lib \<Rightarrow> 'kp \<Rightarrow> 'kp api_key" where
  "from_keypair L kp =
     \<lparr>key_scheme = Sr25519, account = AccountId (public_key L kp), material = kp\<rparr>"

definition BAD_SEED :: key_error where
  "BAD_SEED = Derivation ''seed is not a valid sr25519 mini-secret''"

definition from_seed :: "('kp, 'm, 'j) signer_lib \<Rightarrow> bytes \<Rightarrow> key_error + 'kp api_key" where
  "from_seed L seed =
     rbind (ok_or BAD_SEED (from_secret_key L seed)) (\<lambda>kp. Ok (from_keypair L kp))"

definition MINI_SECRET_HEX_LEN :: nat where
  "MINI_SECRET_HEX_LEN = 64"

definition HEX_LENGTH :: key_error where
  "HEX_LENGTH = Malformed ''hex mini-secret must be exactly 32 bytes (64 hex characters)''"

definition HEX_CHAR :: key_error where
  "HEX_CHAR = Malformed ''hex mini-secret contains a non-hex character''"

definition NOT_A_KEY :: key_error where
  "NOT_A_KEY = Malformed ''not a 0x mini-secret, BIP39 mnemonic, or sr25519 SURI''"

definition BAD_PHRASE :: key_error where
  "BAD_PHRASE = Derivation ''sr25519 derivation failed (check the BIP39 checksum or word count)''"

definition NO_PHRASE :: key_error where
  "NO_PHRASE = Malformed (''api key has no phrase; this would derive from the public '' @
     ''well-known development phrase'')"

definition keypair_from_hex ::
  "hex_lib \<Rightarrow> ('kp, 'm, 'j) signer_lib \<Rightarrow> str \<Rightarrow> key_error + 'kp" where
  "keypair_from_hex H L body =
     (if length body \<noteq> MINI_SECRET_HEX_LEN then Err HEX_LENGTH
      else if \<not> list_all is_ascii_hexdigit body then Err HEX_CHAR
      else rbind (map_err (\<lambda>_. HEX_CHAR) (hex_decode_to_slice H body 32)) (\<lambda>seed.
           ok_or BAD_SEED (from_secret_key L seed)))"

definition keypair_from_mnemonic ::
  "('kp, 'm, 'j) signer_lib \<Rightarrow> str \<Rightarrow> str option \<Rightarrow> key_error + 'kp" where
  "keypair_from_mnemonic L ph pw =
     rbind (ok_or NOT_A_KEY (mnemonic_from_str L ph)) (\<lambda>m. ok_or BAD_PHRASE (from_phrase L m pw))"

definition parse_sr25519 ::
  "hex_lib \<Rightarrow> ('kp, 'm, 'j) signer_lib \<Rightarrow> (str \<Rightarrow> bool) \<Rightarrow> str \<Rightarrow> key_error + 'kp api_key" where
  "parse_sr25519 H L uni body =
     rbind (suri_split uni (junction_from L) body) (\<lambda>uri.
     if phrase uri = [] then Err NO_PHRASE
     else
      rbind (case strip_prefix ''0x'' (phrase uri) of
               Some hex_body \<Rightarrow> keypair_from_hex H L hex_body
             | None \<Rightarrow> keypair_from_mnemonic L (phrase uri) (password uri)) (\<lambda>root.
      Ok (from_keypair L (derive L root (junctions uri)))))"

definition is_scheme_token :: "str \<Rightarrow> bool" where
  "is_scheme_token tok \<longleftrightarrow>
     tok \<noteq> [] \<and> \<not> starts_with ''0x'' tok \<and>
     list_all (\<lambda>b. is_ascii_alphanumeric b \<or> b = CHR ''_'' \<or> b = CHR ''-'') tok"

definition split_scheme :: "str \<Rightarrow> key_error + key_scheme \<times> str" where
  "split_scheme input =
     (case (case split_once (CHR '':'') input of
              Some (tok, body) \<Rightarrow> if is_scheme_token tok then Some (tok, body) else None
            | None \<Rightarrow> None) of
        None \<Rightarrow> Ok (Sr25519, input)
      | Some (tok, body) \<Rightarrow>
         (case find (eq_ignore_ascii_case tok) RESERVED_SCHEMES of
            Some reserved \<Rightarrow> Err (UnsupportedScheme reserved SUPPORTED_SCHEMES)
          | None \<Rightarrow> rbind (from_token tok) (\<lambda>s. Ok (s, body))))"

definition api_key_parse ::
  "hex_lib \<Rightarrow> ('kp, 'm, 'j) signer_lib \<Rightarrow> (str \<Rightarrow> bool) \<Rightarrow> str \<Rightarrow> key_error + 'kp api_key" where
  "api_key_parse H L uni input =
     (let trimmed = trim input in
      if trimmed = [] then Err KeyEmpty
      else rbind (split_scheme trimmed) (\<lambda>(scheme, body).
        if trim body = [] then Err KeyEmpty
        else (case scheme of Sr25519 \<Rightarrow> parse_sr25519 H L uni body)))"

definition api_key_sign :: "('kp, 'm, 'j) signer_lib \<Rightarrow> 'kp api_key \<Rightarrow> bytes \<Rightarrow> key_error + bytes" where
  "api_key_sign L k message = Ok (kp_sign L (material k) message)"

definition api_key_debug :: "hex_lib \<Rightarrow> 'kp api_key \<Rightarrow> str" where
  "api_key_debug H k =
     ''ApiKey { scheme: '' @ debug_str (scheme_as_str (key_scheme k)) @
     '', account: '' @ debug_str (account_to_hex H (account k)) @
     '', material: '' @ debug_str ''<redacted>'' @ '' }''"

section \<open>Facts about the splitter\<close>

definition path_segment :: "str \<Rightarrow> bool" where
  "path_segment seg \<longleftrightarrow>
     (\<exists>code. code \<noteq> [] \<and> CHR ''/'' \<notin> set code \<and>
        (seg = CHR ''/'' # code \<or> seg = CHR ''/'' # CHR ''/'' # code))"

lemma path_segment_cases:
  assumes "path_segment seg"
  obtains hard c code where "seg = ''/'' @ (if hard then ''/'' else '''') @ c # code"
    "c \<noteq> CHR ''/''" "CHR ''/'' \<notin> set code"
  using assms unfolding path_segment_def
proof (elim exE conjE disjE)
  fix xs
  note r = that
  assume xs: "xs \<noteq> []" "CHR ''/'' \<notin> set xs"
  then obtain c cs where c: "xs = c # cs" by (cases xs) auto
  show thesis if "seg = CHR ''/'' # xs"
    using xs c that by (intro r [of False c cs]) auto
  show thesis if "seg = CHR ''/'' # CHR ''/'' # xs"
    using xs c that by (intro r [of True c cs]) auto
qed

lemma takeWhile_code:
  assumes "CHR ''/'' \<notin> set code" "rest = [] \<or> hd rest = CHR ''/''"
  shows "takeWhile (\<lambda>x. x \<noteq> CHR ''/'') (code @ rest) = code"
    and "dropWhile (\<lambda>x. x \<noteq> CHR ''/'') (code @ rest) = rest"
proof -
  have "\<forall>x \<in> set code. x \<noteq> CHR ''/''" using assms(1) by metis
  moreover from assms(2) have "takeWhile (\<lambda>x. x \<noteq> CHR ''/'') rest = []"
    "dropWhile (\<lambda>x. x \<noteq> CHR ''/'') rest = rest"
    by (cases rest; simp)+
  ultimately show "takeWhile (\<lambda>x. x \<noteq> CHR ''/'') (code @ rest) = code"
    "dropWhile (\<lambda>x. x \<noteq> CHR ''/'') (code @ rest) = rest"
    by simp_all
qed

lemma concat_segments_head: "list_all path_segment segs \<Longrightarrow> concat segs = [] \<or> hd (concat segs) = CHR ''/''"
  by (cases segs) (auto simp: path_segment_def)

lemma parse_junctions_segments:
  "list_all path_segment segs \<Longrightarrow> parse_junctions J (concat segs) = Ok (map (J \<circ> tl) segs)"
proof (induction segs)
  case Nil
  then show ?case by simp
next
  case (Cons seg segs)
  then obtain hard c code where seg: "seg = ''/'' @ (if hard then ''/'' else '''') @ c # code"
    "c \<noteq> CHR ''/''" "CHR ''/'' \<notin> set code"
    using path_segment_cases by (metis list.pred_inject(2))
  have "concat segs = [] \<or> hd (concat segs) = CHR ''/''"
    using Cons.prems concat_segments_head by simp
  with seg takeWhile_code [of "code" "concat segs"] Cons show ?case
    by (cases hard) (simp_all add: Let_def)
qed

lemma parse_junctions_Ok:
  "parse_junctions J path = Ok js \<longleftrightarrow>
     (\<exists>segs. list_all path_segment segs \<and> path = concat segs \<and> js = map (J \<circ> tl) segs)"
proof
  show "\<exists>segs. list_all path_segment segs \<and> path = concat segs \<and> js = map (J \<circ> tl) segs"
    if "parse_junctions J path = Ok js"
    using that
  proof (induction J path arbitrary: js rule: parse_junctions.induct)
    case (1 J)
    then show ?case by (intro exI [of _ "[]"]) simp
  next
    case (2 J c cs)
    define hard where "hard = (case cs of d # _ \<Rightarrow> d = CHR ''/'' | [] \<Rightarrow> False)"
    define cs' where "cs' = (if hard then tl cs else cs)"
    define code where "code = takeWhile (\<lambda>x. x \<noteq> CHR ''/'') cs'"
    let ?rest = "dropWhile (\<lambda>x. x \<noteq> CHR ''/'') cs'"
    from "2.prems" obtain js' where c: "c = CHR ''/''" "code \<noteq> []"
      and js: "parse_junctions J ?rest = Ok js'" "js = J ((if hard then ''/'' else '''') @ code) # js'"
      by (auto simp: Let_def res_simps hard_def cs'_def code_def split: if_splits)
    from "2.IH" [OF _ hard_def cs'_def code_def c(2) js(1)] c(1)
    obtain segs where segs: "list_all path_segment segs" "?rest = concat segs" "js' = map (J \<circ> tl) segs"
      by auto
    let ?seg = "c # (if hard then ''/'' else '''') @ code"
    have "CHR ''/'' \<notin> set code" unfolding code_def by (auto dest: set_takeWhileD)
    with c have "path_segment ?seg" by (auto simp: path_segment_def)
    moreover have "c # cs = ?seg @ ?rest"
      unfolding code_def by (auto simp: cs'_def hard_def split: list.splits)
    ultimately show ?case using segs js
      by (intro exI [of _ "?seg # segs"]) simp
  qed
qed (auto simp: parse_junctions_segments)

text \<open>No password separator starts inside a phrase or a segment.\<close>

lemma find_separator_code:
  "CHR ''/'' \<notin> set code \<Longrightarrow>
     find_str ''///'' (code @ s) = map_option (\<lambda>i. i + length code) (find_str ''///'' s)"
  by (induction code) (auto simp: starts_with_iff option.map_comp option.map_ident split: option.splits)

lemma find_separator_segment:
  assumes "path_segment seg"
  shows "find_str ''///'' (seg @ s) = map_option (\<lambda>i. i + length seg) (find_str ''///'' s)"
proof -
  from assms obtain hard c code where seg: "seg = ''/'' @ (if hard then ''/'' else '''') @ c # code"
    "c \<noteq> CHR ''/''" "CHR ''/'' \<notin> set code"
    by (rule path_segment_cases)
  with find_separator_code [of "c # code" s] show ?thesis
    by (cases hard) (auto simp: starts_with_iff split: option.splits)
qed

lemma find_separator_segments:
  "list_all path_segment segs \<Longrightarrow>
     find_str ''///'' (concat segs @ s) = map_option (\<lambda>i. i + length (concat segs)) (find_str ''///'' s)"
proof (induction segs)
  case Nil
  then show ?case by (cases "find_str ''///'' s") simp_all
next
  case (Cons seg segs)
  then show ?case
    by (simp add: find_separator_segment) (cases "find_str ''///'' s"; simp)
qed

lemma find_separator_uri:
  assumes "CHR ''/'' \<notin> set ph" "list_all path_segment segs"
  shows "find_str ''///'' (ph @ concat segs) = None"
    and "find_str ''///'' (ph @ concat segs @ ''///'' @ pw) = Some (length (ph @ concat segs))"
  using find_separator_code [OF assms(1)] find_separator_segments [OF assms(2)]
    find_separator_segments [OF assms(2), of "[]"]
  by (simp_all add: starts_with_iff)

lemma find_slash_uri:
  assumes "CHR ''/'' \<notin> set ph" "list_all path_segment segs"
  shows "(case find_char (CHR ''/'') (ph @ concat segs) of
            Some at \<Rightarrow> (take at (ph @ concat segs), drop at (ph @ concat segs))
          | None \<Rightarrow> (ph @ concat segs, '''')) = (ph, concat segs)"
proof (cases "concat segs")
  case Nil
  moreover have "find_char (CHR ''/'') ph = None" using assms(1) by (simp add: find_char_None)
  ultimately show ?thesis by (simp del: concat_eq_Nil_conv)
next
  case (Cons c cs)
  then have "c = CHR ''/''" using concat_segments_head [OF assms(2)] by simp
  with Cons show ?thesis using assms find_char_append [of "CHR ''/''" ph cs] by simp
qed

lemma cut_password_uri:
  assumes "CHR ''/'' \<notin> set ph" "list_all path_segment segs"
  shows "(case find_str ''///'' (ph @ concat segs @ (case pw of None \<Rightarrow> '''' | Some p \<Rightarrow> ''///'' @ p)) of
            Some at \<Rightarrow>
              (take at (ph @ concat segs @ (case pw of None \<Rightarrow> '''' | Some p \<Rightarrow> ''///'' @ p)),
               Some (drop (at + 3) (ph @ concat segs @ (case pw of None \<Rightarrow> '''' | Some p \<Rightarrow> ''///'' @ p))))
          | None \<Rightarrow> (ph @ concat segs @ (case pw of None \<Rightarrow> '''' | Some p \<Rightarrow> ''///'' @ p), None)) =
         (ph @ concat segs, pw)"
  using find_separator_uri(1) [OF assms] find_separator_uri(2) [OF assms] by (cases pw) simp_all

lemma suri_split_parts:
  assumes "suri_split uni J input = Ok u"
  shows "\<exists>path. is_valid_phrase uni (phrase u) \<and> CHR ''/'' \<notin> set (phrase u) \<and>
     parse_junctions J path = Ok (junctions u) \<and>
     input = phrase u @ path @ (case password u of None \<Rightarrow> '''' | Some pw \<Rightarrow> ''///'' @ pw)"
proof -
  define hp where "hp = (case find_str ''///'' input of
            Some at \<Rightarrow> (take at input, Some (drop (at + 3) input))
          | None \<Rightarrow> (input, None))"
  define pp where "pp = (case find_char (CHR ''/'') (fst hp) of
            Some at \<Rightarrow> (take at (fst hp), drop at (fst hp))
          | None \<Rightarrow> (fst hp, ''''))"
  have input: "input = fst hp @ (case snd hp of None \<Rightarrow> '''' | Some pw \<Rightarrow> ''///'' @ pw)"
    using find_str_Some_split [of "''///''" input]
    by (auto simp: hp_def numeral_3_eq_3 split: option.splits)
  have head: "fst hp = fst pp @ snd pp" "CHR ''/'' \<notin> set (fst pp)"
    using find_char_Some [of "CHR ''/''" "fst hp"]
    by (auto simp: pp_def find_char_None split: option.splits)
  from assms have v: "is_valid_phrase uni (fst pp)" "parse_junctions J (snd pp) = Ok (junctions u)"
    "phrase u = fst pp" "password u = snd hp"
    unfolding suri_split_def hp_def pp_def
    by (auto simp: Let_def res_simps case_prod_beta split: if_splits)
  show ?thesis
    using input v(1,2) head(2) unfolding head(1) v(3,4) append_assoc by blast
qed

lemma suri_split_Ok:
  "suri_split uni J input = Ok u \<longleftrightarrow>
     (\<exists>segs. is_valid_phrase uni (phrase u) \<and> CHR ''/'' \<notin> set (phrase u) \<and>
        list_all path_segment segs \<and> junctions u = map (J \<circ> tl) segs \<and>
        input = phrase u @ concat segs @
          (case password u of None \<Rightarrow> '''' | Some pw \<Rightarrow> ''///'' @ pw))"
    (is "_ \<longleftrightarrow> (\<exists>segs. ?g segs)")
proof
  assume "suri_split uni J input = Ok u"
  then show "\<exists>segs. ?g segs" using suri_split_parts by (fastforce simp: parse_junctions_Ok)
next
  assume "\<exists>segs. ?g segs"
  then obtain segs where g: "?g segs" by (elim exE) (rule that)
  then have v: "is_valid_phrase uni (phrase u)" "CHR ''/'' \<notin> set (phrase u)"
    "parse_junctions J (concat segs) = Ok (junctions u)" "list_all path_segment segs"
    by (auto simp: parse_junctions_segments)
  have i: "input = phrase u @ concat segs @ (case password u of None \<Rightarrow> '''' | Some pw \<Rightarrow> ''///'' @ pw)"
    using g by (elim conjE)
  show "suri_split uni J input = Ok u"
    unfolding suri_split_def Let_def i cut_password_uri [OF v(2,4)] case_prod_conv
      find_slash_uri [OF v(2,4)] v(3)
    using v(1) by simp
qed

section \<open>Facts about parsing\<close>

lemma parse_junctions_Err: "parse_junctions J path = Err e \<Longrightarrow> e = PATH_MALFORMED"
  by (induction J path rule: parse_junctions.induct) (auto simp: Let_def res_simps split: if_splits)

text \<open>Every error of \<open>parse\<close>, a list that names no part of the input.\<close>

definition KEY_PARSE_ERRORS :: "key_error list" where
  "KEY_PARSE_ERRORS =
     KeyEmpty # map (\<lambda>r. UnsupportedScheme r SUPPORTED_SCHEMES) RESERVED_SCHEMES @
     [UNRECOGNISED_PREFIX, PHRASE_MALFORMED, PATH_MALFORMED, NO_PHRASE, HEX_LENGTH, HEX_CHAR,
      NOT_A_KEY, BAD_SEED, BAD_PHRASE]"

lemma suri_split_Err: "suri_split uni J s = Err e \<Longrightarrow> e \<in> {PHRASE_MALFORMED, PATH_MALFORMED}"
  by (auto simp: suri_split_def Let_def case_prod_beta res_simps split: if_splits
      dest: parse_junctions_Err)

lemma keypair_Err:
  "keypair_from_hex H L b = Err e \<Longrightarrow> e \<in> {HEX_LENGTH, HEX_CHAR, BAD_SEED}"
  "keypair_from_mnemonic L ph pw = Err e \<Longrightarrow> e \<in> {NOT_A_KEY, BAD_PHRASE}"
  by (auto simp: keypair_from_hex_def keypair_from_mnemonic_def res_simps split: if_splits)

lemma parse_sr25519_Err:
  "parse_sr25519 H L uni b = Err e \<Longrightarrow>
     e \<in> {PHRASE_MALFORMED, PATH_MALFORMED, NO_PHRASE, HEX_LENGTH, HEX_CHAR, NOT_A_KEY, BAD_SEED,
          BAD_PHRASE}"
  by (auto simp: parse_sr25519_def res_simps split: if_splits option.splits
      dest!: suri_split_Err keypair_Err)

lemma split_scheme_Err:
  "split_scheme s = Err e \<Longrightarrow>
     e = UNRECOGNISED_PREFIX \<or> (\<exists>r \<in> set RESERVED_SCHEMES. e = UnsupportedScheme r SUPPORTED_SCHEMES)"
  by (auto simp: split_scheme_def from_token_def res_simps find_Some_iff split: option.splits if_splits)
    (metis nth_mem)

lemma split_scheme_prefixed:
  assumes "is_scheme_token tok"
  shows "split_scheme (tok @ CHR '':'' # body) =
    (case find (eq_ignore_ascii_case tok) RESERVED_SCHEMES of
       Some r \<Rightarrow> Err (UnsupportedScheme r SUPPORTED_SCHEMES)
     | None \<Rightarrow> rbind (from_token tok) (\<lambda>s. Ok (s, body)))"
proof -
  have "CHR '':'' \<notin> set tok"
    using assms by (auto simp: is_scheme_token_def list_all_iff is_ascii_alphanumeric_def
        is_ascii_digit_def is_ascii_alpha_def)
  then have "split_once (CHR '':'') (tok @ CHR '':'' # body) = Some (tok, body)"
    by (simp add: split_once_Some)
  with assms show ?thesis by (simp add: split_scheme_def)
qed

lemma api_key_parse_prefixed:
  assumes "trim input = tok @ CHR '':'' # body" "is_scheme_token tok"
    and "eq_ignore_ascii_case tok r" "r \<in> set RESERVED_SCHEMES"
  shows "api_key_parse H L uni input = Err (UnsupportedScheme r SUPPORTED_SCHEMES)"
proof -
  have "find (eq_ignore_ascii_case tok) RESERVED_SCHEMES = Some r"
    using assms(3,4) by (auto simp: RESERVED_SCHEMES_def eq_ignore_ascii_case_def
        to_ascii_lowercase_def)
  with assms(1,2) show ?thesis
    by (simp add: api_key_parse_def Let_def split_scheme_prefixed)
qed

lemma reserved_token:
  assumes "r \<in> set RESERVED_SCHEMES" "eq_ignore_ascii_case tok r"
  shows "is_scheme_token tok"
proof -
  have lower: "list_all (\<lambda>b. is_ascii_alphanumeric b) r \<and> r \<noteq> [] \<and> hd r \<noteq> CHR ''0'' \<and>
      map to_ascii_lowercase r = r"
    using assms(1) by (simp add: RESERVED_SCHEMES_def) (elim disjE; simp; code_simp)
  with assms(2) have m: "map to_ascii_lowercase tok = r" by (simp add: eq_ignore_ascii_case_def)
  have a: "is_ascii_alphanumeric b" if "is_ascii_alphanumeric (to_ascii_lowercase b)" for b
    using that by (auto simp: to_ascii_lowercase_def is_ascii_alphanumeric_def is_ascii_alpha_def split: if_splits)
  have "list_all is_ascii_alphanumeric tok"
    using lower m a by (auto simp: list_all_iff)
  moreover have "\<not> starts_with ''0x'' tok"
    using lower m by (auto simp: starts_with_iff to_ascii_lowercase_def)
  moreover have "tok \<noteq> []" using lower m by auto
  ultimately show ?thesis by (auto simp: is_scheme_token_def list_all_iff)
qed

lemma split_scheme_body:
  assumes "split_scheme s = Ok (sch, body)"
  shows "s = body \<or> (\<exists>tok. s = tok @ CHR '':'' # body \<and> eq_ignore_ascii_case tok ''sr25519'')"
  using assms
  by (auto simp: split_scheme_def from_token_def res_simps split_once_Some
      split: option.splits if_splits)

lemma parse_sr25519_Ok:
  "parse_sr25519 H L uni body = Ok k \<longleftrightarrow>
     (\<exists>u root. suri_split uni (junction_from L) body = Ok u \<and> phrase u \<noteq> [] \<and>
        (case strip_prefix ''0x'' (phrase u) of
           Some h \<Rightarrow> keypair_from_hex H L h
         | None \<Rightarrow> keypair_from_mnemonic L (phrase u) (password u)) = Ok root \<and>
        k = from_keypair L (derive L root (junctions u)))"
  by (auto simp: parse_sr25519_def res_simps)

lemma keypair_from_hex_Ok:
  "keypair_from_hex H L h = Ok root \<longleftrightarrow>
     length h = 64 \<and> list_all is_ascii_hexdigit h \<and>
     (\<exists>seed. hex_decode_to_slice H h 32 = Ok seed \<and> from_secret_key L seed = Some root)"
  by (auto simp: keypair_from_hex_def MINI_SECRET_HEX_LEN_def res_simps)

lemma keypair_from_mnemonic_Ok:
  "keypair_from_mnemonic L ph pw = Ok root \<longleftrightarrow>
     (\<exists>m. mnemonic_from_str L ph = Some m \<and> from_phrase L m pw = Some root)"
  by (auto simp: keypair_from_mnemonic_def res_simps)

section \<open>The contract of a key signer\<close>

text \<open>
  \<open>KeySigner\<close>: an account of 32 bytes and raw signatures of 64 bytes (the array types of the
  trait). \<open>wf\<close> holds of the signers an implementation can build.
\<close>

locale key_signer =
  fixes wf :: "'k \<Rightarrow> bool"
    and account_of :: "'k \<Rightarrow> account_id"
    and sign_with :: "'k \<Rightarrow> bytes \<Rightarrow> key_error + bytes"
  assumes account_bytes: "wf k \<Longrightarrow> length (as_bytes (account_of k)) = 32"
    and signature_bytes: "wf k \<Longrightarrow> sign_with k m = Ok sig \<Longrightarrow> length sig = 64"

text \<open>The array types of the signing library.\<close>

locale subxt_keys =
  fixes L :: "('kp, 'm, 'j) signer_lib"
  assumes public_key_bytes: "length (public_key L kp) = 32"
    and raw_signature_bytes: "length (kp_sign L kp m) = 64"

definition api_key_wf :: "('kp, 'm, 'j) signer_lib \<Rightarrow> 'kp api_key \<Rightarrow> bool" where
  "api_key_wf L k \<longleftrightarrow> account k = AccountId (public_key L (material k))"

sublocale subxt_keys \<subseteq> api: key_signer "api_key_wf L" account "api_key_sign L"
  by unfold_locales
    (auto simp: api_key_wf_def api_key_sign_def public_key_bytes raw_signature_bytes)

context subxt_keys
begin

lemma api_key_signer: "key_signer (api_key_wf L) account (api_key_sign L)"
  by (rule api.key_signer_axioms)

lemma parsed_key_wf: "api_key_parse H L uni s = Ok k \<Longrightarrow> api_key_wf L k"
  by (auto simp: api_key_parse_def Let_def res_simps parse_sr25519_Ok api_key_wf_def
      from_keypair_def split: if_splits key_scheme.splits)

lemma seed_key_wf: "from_seed L seed = Ok k \<Longrightarrow> api_key_wf L k"
  by (auto simp: from_seed_def res_simps api_key_wf_def from_keypair_def)

lemma parsed_key_signs:
  "api_key_parse H L uni s = Ok k \<Longrightarrow>
     length (as_bytes (account k)) = 32 \<and> (\<exists>sig. api_key_sign L k m = Ok sig \<and> length sig = 64)"
  using api.account_bytes [OF parsed_key_wf] raw_signature_bytes by (simp add: api_key_sign_def)

end

text \<open>A reference instance: keypairs are byte strings, derivation appends the junctions.\<close>

definition keys_ref :: "(bytes, str, str) signer_lib" where
  "keys_ref =
     \<lparr>junction_from = (\<lambda>s. s),
      from_secret_key = (\<lambda>b. if list_all (\<lambda>x. x = 0) b then None else Some b),
      mnemonic_from_str = (\<lambda>s. if 12 \<le> length (split_by (\<lambda>s. if take 1 s = '' '' then 1 else 0) [] s)
        then Some s else None),
      from_phrase = (\<lambda>m pw. Some (str_bytes m @ (case pw of None \<Rightarrow> [] | Some p \<Rightarrow> str_bytes p))),
      derive = (\<lambda>kp js. kp @ concat (map str_bytes js)),
      public_key = (\<lambda>kp. take 32 (kp @ replicate 32 0)),
      kp_sign = (\<lambda>kp m. take 64 (m @ kp @ replicate 64 0))\<rparr>"

interpretation keysr: subxt_keys keys_ref
  by unfold_locales (simp_all add: keys_ref_def)

section \<open>Properties\<close>

text \<open>
  The documented grammar, \<open>^([\d\w ]+)?((//?[^/]+)*)(///(.*))?$\<close>, group by group. Of the
  characters beyond ASCII, whose UTF-8 bytes are all at least 128, \<open>word\<close> says which are in the
  class \<open>[\d\w]\<close>; a dot is anything but a line feed.
\<close>

definition beyond_ascii :: "str \<Rightarrow> bool" where
  "beyond_ascii c \<longleftrightarrow> list_all (\<lambda>b. 128 \<le> ord b) c"

definition word_class :: "(str \<Rightarrow> bool) \<Rightarrow> str \<Rightarrow> bool" where
  "word_class word c \<longleftrightarrow>
     (\<exists>a. c = [a] \<and> (is_ascii_alphanumeric a \<or> a = CHR ''_'' \<or> a = CHR '' '')) \<or>
     beyond_ascii c \<and> word c"

definition documented_uri ::
  "(str \<Rightarrow> bool) \<Rightarrow> str \<Rightarrow> str \<Rightarrow> str list \<Rightarrow> str option \<Rightarrow> bool" where
  "documented_uri word input ph segs pw \<longleftrightarrow>
     list_all (word_class word) (str_chars ph) \<and> list_all path_segment segs \<and>
     (\<forall>p. pw = Some p \<longrightarrow> CHR 0x0A \<notin> set p) \<and>
     input = ph @ concat segs @ (case pw of None \<Rightarrow> '''' | Some p \<Rightarrow> ''///'' @ p)"

text \<open>
  The class of \<open>is_alphanumeric\<close> and the class \<open>[\d\w]\<close> are different Unicode tables; this says
  that they agree on the characters beyond ASCII of one text, as they do when it has none.
\<close>

definition same_letters :: "(str \<Rightarrow> bool) \<Rightarrow> (str \<Rightarrow> bool) \<Rightarrow> str \<Rightarrow> bool" where
  "same_letters uni word s \<longleftrightarrow>
     (\<forall>c \<in> set (str_chars s). (\<forall>a. c = [a] \<longrightarrow> 128 \<le> ord a) \<longrightarrow> uni c = (beyond_ascii c \<and> word c))"

lemma same_letters_ascii:
  assumes "list_all (\<lambda>b. ord b < 128) s"
  shows "same_letters uni word s"
proof -
  have "\<exists>a. c = [a] \<and> ord a < 128" if "c \<in> set (str_chars s)" for c
    using that assms
  proof (induction s rule: str_chars.induct)
    case (2 a as)
    then have "takeWhile is_continuation as = []" "dropWhile is_continuation as = as"
      by (cases as; simp add: is_continuation_def)+
    with 2 show ?case by auto
  qed simp
  then show ?thesis unfolding same_letters_def by fastforce
qed

lemma ascii_word: "is_ascii_alphanumeric a \<Longrightarrow> ord a < 128"
  by (auto simp: is_ascii_alphanumeric_def is_ascii_digit_def is_ascii_alpha_def)

lemma ascii_blanks: "ord (CHR ''_'') < 128" "ord (CHR '' '') < 128"
  by simp_all

lemma phrase_char:
  assumes "(\<forall>a. c = [a] \<longrightarrow> 128 \<le> ord a) \<longrightarrow> uni c = (beyond_ascii c \<and> word c)"
  shows "word_class word c \<longleftrightarrow> is_alphanumeric uni c \<or> c = ''_'' \<or> c = '' ''"
proof (cases "\<exists>a. c = [a] \<and> ord a < 128")
  case True
  then obtain a where a: "c = [a]" "ord a < 128" by blast
  then have "\<not> beyond_ascii c" by (simp add: beyond_ascii_def)
  with a show ?thesis by (simp add: word_class_def is_alphanumeric_def)
next
  case False
  then have c: "\<forall>a. c = [a] \<longrightarrow> 128 \<le> ord a" by (metis not_le)
  have "is_alphanumeric uni c = uni c"
  proof (cases "length c = 1")
    case True
    then obtain a where "c = [a]" by (auto simp: length_Suc_conv)
    with c have "c = [a]" "\<not> ord a < 128" by (blast, fastforce)
    then show ?thesis by (simp add: is_alphanumeric_def)
  qed (auto simp: is_alphanumeric_def split: list.splits)
  moreover from False have "c \<noteq> ''_''" "c \<noteq> '' ''" by (blast intro: ascii_blanks)+
  moreover have "\<not> (\<exists>a. c = [a] \<and> (is_ascii_alphanumeric a \<or> a = CHR ''_'' \<or> a = CHR '' ''))"
  proof (rule notI, elim exE conjE)
    fix a assume "c = [a]" and a: "is_ascii_alphanumeric a \<or> a = CHR ''_'' \<or> a = CHR '' ''"
    then have "128 \<le> ord a" using c by blast
    with a ascii_word [of a] show False by auto
  qed
  moreover have "uni c = (beyond_ascii c \<and> word c)" using assms c by blast
  ultimately show ?thesis unfolding word_class_def by blast
qed

lemma phrase_grammar:
  "same_letters uni word ph \<Longrightarrow> is_valid_phrase uni ph \<longleftrightarrow> list_all (word_class word) (str_chars ph)"
  using phrase_char [of _ uni word] unfolding is_valid_phrase_def same_letters_def list_all_iff by blast

lemma word_class_no_slash:
  assumes "list_all (word_class word) (str_chars ph)"
  shows "CHR ''/'' \<notin> set ph"
proof -
  have "CHR ''/'' \<notin> set c" if "word_class word c" for c
    using that
    by (auto simp: word_class_def beyond_ascii_def list_all_iff is_ascii_alphanumeric_def
        is_ascii_digit_def is_ascii_alpha_def)
  then have "CHR ''/'' \<notin> set (concat (str_chars ph))"
    using assms unfolding list_all_iff set_concat by blast
  then show ?thesis by (simp only: concat_str_chars not_False_eq_True)
qed

lemma uri_phrase:
  assumes "CHR ''/'' \<notin> set ph" "list_all path_segment segs"
  shows "takeWhile (\<lambda>c. c \<noteq> CHR ''/'') (ph @ concat segs @ (case pw of None \<Rightarrow> '''' | Some p \<Rightarrow> ''///'' @ p)) = ph"
proof (rule takeWhile_code(1) [OF assms(1)])
  show "concat segs @ (case pw of None \<Rightarrow> '''' | Some p \<Rightarrow> ''///'' @ p) = [] \<or>
      hd (concat segs @ (case pw of None \<Rightarrow> '''' | Some p \<Rightarrow> ''///'' @ p)) = CHR ''/''"
    using concat_segments_head [OF assms(2)] by (cases "concat segs"; cases pw) (auto simp del: concat_eq_Nil_conv)
qed

text \<open>
  C29. The secret-URI splitter decides its documented grammar, up to line feeds in the password
  and the tables of Unicode. When the class of \<open>is_alphanumeric\<close> and the documented class
  \<open>[\d\w]\<close> agree on the characters beyond ASCII of the phrase (they do when it has none), an input
  has a documented parse into a phrase, path segments and an optional password exactly when the
  splitter accepts it with those parts, the junctions made of the segments in order, and the
  password has no line feed. So every documented input is accepted with its documented parts,
  and what is accepted beyond the documentation has a line feed in its password; every rejection
  is one of two fixed errors.
\<close>

theorem suri_split_follows_grammar:
  assumes "same_letters uni word (takeWhile (\<lambda>c. c \<noteq> CHR ''/'') input)"
  shows "((\<exists>segs. documented_uri word input (phrase u) segs (password u) \<and> junctions u = map (J \<circ> tl) segs) \<longleftrightarrow>
      suri_split uni J input = Ok u \<and> (\<forall>p. password u = Some p \<longrightarrow> CHR 0x0A \<notin> set p)) \<and>
    (\<forall>e. suri_split uni J input = Err e \<longrightarrow> e = PHRASE_MALFORMED \<or> e = PATH_MALFORMED)"
proof (intro conjI iffI)
  assume "\<exists>segs. documented_uri word input (phrase u) segs (password u) \<and> junctions u = map (J \<circ> tl) segs"
  then obtain segs where d: "list_all (word_class word) (str_chars (phrase u))" "list_all path_segment segs"
    "\<forall>p. password u = Some p \<longrightarrow> CHR 0x0A \<notin> set p" "junctions u = map (J \<circ> tl) segs"
    "input = phrase u @ concat segs @ (case password u of None \<Rightarrow> '''' | Some p \<Rightarrow> ''///'' @ p)"
    unfolding documented_uri_def by blast
  note n = word_class_no_slash [OF d(1)]
  have "is_valid_phrase uni (phrase u)"
    using assms phrase_grammar [of uni word "phrase u"] d(1) uri_phrase [OF n d(2), of "password u"] d(5) by simp
  with n d show "suri_split uni J input = Ok u" "\<forall>p. password u = Some p \<longrightarrow> CHR 0x0A \<notin> set p"
    by (auto simp: suri_split_Ok)
next
  assume a: "suri_split uni J input = Ok u \<and> (\<forall>p. password u = Some p \<longrightarrow> CHR 0x0A \<notin> set p)"
  then obtain segs where d: "is_valid_phrase uni (phrase u)" "CHR ''/'' \<notin> set (phrase u)"
    "list_all path_segment segs" "junctions u = map (J \<circ> tl) segs"
    "input = phrase u @ concat segs @ (case password u of None \<Rightarrow> '''' | Some p \<Rightarrow> ''///'' @ p)"
    by (auto simp: suri_split_Ok)
  have "list_all (word_class word) (str_chars (phrase u))"
    using assms phrase_grammar [of uni word "phrase u"] d(1) uri_phrase [OF d(2,3), of "password u"] d(5) by simp
  with a d show "\<exists>segs. documented_uri word input (phrase u) segs (password u) \<and> junctions u = map (J \<circ> tl) segs"
    unfolding documented_uri_def by blast
qed (use suri_split_Err in blast)

theorem suri_split_follows_grammar_witness:
  "\<exists>segs. documented_uri (\<lambda>_. False) ''foo bar//hard/soft///pw'' ''foo bar'' segs (Some ''pw'') \<and>
     [''/hard'', ''soft''] = map tl segs"
proof -
  let ?u = "\<lparr>phrase = ''foo bar'', junctions = [''/hard'', ''soft''], password = Some ''pw''\<rparr> :: str suri"
  have l: "same_letters (\<lambda>_. False) (\<lambda>_. False) (takeWhile (\<lambda>c. c \<noteq> CHR ''/'') ''foo bar//hard/soft///pw'')"
    by (rule same_letters_ascii) simp
  have "suri_split (\<lambda>_. False) (\<lambda>j. j) ''foo bar//hard/soft///pw'' = Ok ?u" by code_simp
  moreover have "\<forall>p. password ?u = Some p \<longrightarrow> CHR 0x0A \<notin> set p" by simp
  ultimately show ?thesis
    using suri_split_follows_grammar [OF l, of ?u "\<lambda>j. j"] by (simp add: comp_def)
qed

text \<open>
  C31. No error of key parsing carries any part of the input: every error of \<open>ApiKey::parse\<close> is
  one of thirteen fixed values, whatever the input and the signing library.
\<close>

theorem key_errors_never_echo_the_input:
  assumes "api_key_parse H L uni input = Err e"
  shows "e \<in> set KEY_PARSE_ERRORS"
proof -
  have "set KEY_PARSE_ERRORS = {KeyEmpty} \<union> (\<lambda>r. UnsupportedScheme r SUPPORTED_SCHEMES) ` set RESERVED_SCHEMES \<union>
     {UNRECOGNISED_PREFIX, PHRASE_MALFORMED, PATH_MALFORMED, NO_PHRASE, HEX_LENGTH, HEX_CHAR,
      NOT_A_KEY, BAD_SEED, BAD_PHRASE}"
    by (auto simp: KEY_PARSE_ERRORS_def)
  with assms show ?thesis
    by (auto simp: api_key_parse_def Let_def res_simps split: if_splits key_scheme.splits
        dest!: split_scheme_Err parse_sr25519_Err)
qed

theorem key_errors_never_echo_the_input_witness:
  "HEX_LENGTH \<in> set KEY_PARSE_ERRORS \<and>
   api_key_parse hex_ref keys_ref (\<lambda>_. False) '' 0xabc '' = Err HEX_LENGTH"
proof -
  have e: "api_key_parse hex_ref keys_ref (\<lambda>_. False) '' 0xabc '' = Err HEX_LENGTH" by code_simp
  with key_errors_never_echo_the_input [OF e] show ?thesis by blast
qed

text \<open>
  A reserved scheme prefix, in any ASCII case, is reported as an unsupported scheme by its
  canonical name, whatever follows the colon; the text is never tried as a key.
\<close>

theorem reserved_scheme_is_unsupported:
  assumes "trim input = tok @ CHR '':'' # body"
    and "r \<in> set RESERVED_SCHEMES" and "eq_ignore_ascii_case tok r"
  shows "api_key_parse H L uni input = Err (UnsupportedScheme r SUPPORTED_SCHEMES)"
proof -
  have "is_scheme_token tok"
    using reserved_token [OF assms(2,3)] .
  with assms show ?thesis by (intro api_key_parse_prefixed)
qed

theorem reserved_scheme_is_unsupported_witness:
  "api_key_parse hex_ref keys_ref (\<lambda>_. False) '' Secp256K1:0xabc'' =
     Err (UnsupportedScheme ''secp256k1'' ''sr25519'')"
proof -
  have "trim '' Secp256K1:0xabc'' = ''Secp256K1'' @ CHR '':'' # ''0xabc''" by code_simp
  moreover have "''secp256k1'' \<in> set RESERVED_SCHEMES" by (simp add: RESERVED_SCHEMES_def)
  moreover have "eq_ignore_ascii_case ''Secp256K1'' ''secp256k1''" by code_simp
  ultimately show ?thesis
    unfolding SUPPORTED_SCHEMES_def [symmetric] by (rule reserved_scheme_is_unsupported)
qed

text \<open>
  C30. What a parsed key was derived from: the input, without surrounding space and an optional
  \<open>sr25519:\<close> prefix, splits into a non-empty phrase, so the public development phrase is never
  used; a phrase starting \<open>0x\<close> is exactly 64 hex digits of a seed and the password has no
  effect, any other phrase is a mnemonic used with the password; the junctions are applied in
  order and the account is the public key of the result.
\<close>

theorem api_key_derivation:
  assumes "api_key_parse H L uni input = Ok k"
  shows "\<exists>body u root.
    (trim input = body \<or>
     (\<exists>tok. trim input = tok @ CHR '':'' # body \<and> eq_ignore_ascii_case tok ''sr25519'')) \<and>
    suri_split uni (junction_from L) body = Ok u \<and> phrase u \<noteq> [] \<and>
    (case strip_prefix ''0x'' (phrase u) of
       Some h \<Rightarrow> length h = 64 \<and> list_all is_ascii_hexdigit h \<and>
         (\<exists>seed. hex_decode_to_slice H h 32 = Ok seed \<and> from_secret_key L seed = Some root)
     | None \<Rightarrow> \<exists>m. mnemonic_from_str L (phrase u) = Some m \<and>
         from_phrase L m (password u) = Some root) \<and>
    material k = derive L root (junctions u) \<and>
    account k = AccountId (public_key L (material k))"
proof -
  from assms obtain body where b: "split_scheme (trim input) = Ok (Sr25519, body)"
    "parse_sr25519 H L uni body = Ok k"
    by (auto simp: api_key_parse_def Let_def res_simps split: if_splits key_scheme.splits)
  from b(2) obtain u root where u: "suri_split uni (junction_from L) body = Ok u" "phrase u \<noteq> []"
    "(case strip_prefix ''0x'' (phrase u) of
           Some h \<Rightarrow> keypair_from_hex H L h
         | None \<Rightarrow> keypair_from_mnemonic L (phrase u) (password u)) = Ok root"
    "k = from_keypair L (derive L root (junctions u))"
    by (auto simp: parse_sr25519_Ok)
  with split_scheme_body [OF b(1)] show ?thesis
    by (intro exI [of _ body] exI [of _ u] exI [of _ root])
      (auto simp: from_keypair_def keypair_from_hex_Ok keypair_from_mnemonic_Ok split: option.splits)
qed

theorem api_key_derivation_witness:
  "\<exists>k. api_key_parse hex_ref keys_ref (\<lambda>_. False)
     (''SR25519:0x'' @ concat (replicate 32 ''2a'') @ ''//hard/soft///pw'') = Ok k \<and>
   material k = replicate 32 42 @ str_bytes ''/hardsoft'' \<and>
   account k = AccountId (public_key keys_ref (material k))"
proof -
  have e: "api_key_parse hex_ref keys_ref (\<lambda>_. False)
     (''SR25519:0x'' @ concat (replicate 32 ''2a'') @ ''//hard/soft///pw'') =
     Ok (from_keypair keys_ref (replicate 32 42 @ str_bytes ''/hardsoft''))"
    by code_simp
  show ?thesis using api_key_derivation [OF e] e by (auto simp: from_keypair_def)
qed

text \<open>
  Account ids keep their hex form: 32 bytes rendered with \<open>to_hex\<close> are read back, with or
  without the \<open>0x\<close>, and text of any other length is refused with the fixed error.
\<close>

theorem account_id_hex_round_trip:
  assumes "hex_crate H" and "length (as_bytes a) = 32"
  shows "account_from_hex H (account_to_hex H a) = Ok a \<and>
    account_from_hex H (hex_encode H (as_bytes a)) = Ok a \<and>
    (length (without_prefix ''0x'' s) \<noteq> 64 \<longrightarrow>
      account_from_hex H s = Err (Malformed ''account id must be 32 bytes of hex''))"
proof -
  have bare: "without_prefix ''0x'' (hex_encode H (as_bytes a)) = hex_encode H (as_bytes a)"
    by (rule hex_crate.without_prefix_bare [OF assms(1)])
  have dec: "hex_decode_to_slice H (hex_encode H (as_bytes a)) 32 = Ok (as_bytes a)"
    by (simp add: hex_crate.decode_slice [OF assms(1)] hex_crate.decode_encode [OF assms(1)] assms(2))
  have "\<exists>e. hex_decode_to_slice H t 32 = Err e" if "length t \<noteq> 64" for t
  proof (cases "hex_decode_to_slice H t 32")
    case (Inr b)
    then have "hex_decode H t = Ok b" "length b = 32"
      by (simp_all add: hex_crate.decode_slice [OF assms(1)])
    with hex_crate.decode_length [OF assms(1)] that show ?thesis by fastforce
  qed simp
  from this [of "without_prefix ''0x'' s"] show ?thesis
    using dec bare by (auto simp: account_from_hex_def account_to_hex_def simp del: append_Cons)
qed

theorem account_id_hex_round_trip_witness:
  "account_from_hex hex_ref (account_to_hex hex_ref (AccountId (replicate 32 7))) =
     Ok (AccountId (replicate 32 7))"
  using account_id_hex_round_trip [OF hexr.hex_crate_axioms, of "AccountId (replicate 32 7)"]
  by simp

end
