(* ===== verification/Sdk_Error.thy ===== *)
theory Sdk_Error
  imports Scopes Keys
begin

text \<open>
  \<open>crates/matter-sdk/src/error.rs\<close>: the SDK's error type with its rendering, the stages at which
  a committee node drops out of a decrypt, and the fault list that \<open>QuorumUnavailable\<close> carries.
\<close>

section \<open>Rendering of scope errors\<close>

fun scope_parse_error_display :: "scope_parse_error \<Rightarrow> str" where
  "scope_parse_error_display (MissingAccess entry) =
     ''scope entry '' @ debug_str entry @ '' is missing its `:r`, `:w` or `:rw` suffix''"
| "scope_parse_error_display (UnknownScope name) = ''unknown scope '' @ debug_str name"
| "scope_parse_error_display (InvalidAccess name access) =
     ''scope '' @ debug_str name @ '' has invalid access '' @ debug_str access @
     '': expected r, w, or rw''"

section \<open>Durations\<close>

text \<open>\<open>std::time::Duration\<close> in nanoseconds, and its \<open>Debug\<close> text.\<close>

type_synonym duration = nat

definition from_secs :: "nat \<Rightarrow> duration" where
  "from_secs s = s * 10 ^ 9"

fun frac_digits :: "nat \<Rightarrow> nat \<Rightarrow> str" where
  "frac_digits 0 f = []"
| "frac_digits (Suc k) f =
     (if f = 0 then [] else digit_char (f div 10 ^ k) # frac_digits k (f mod 10 ^ k))"

definition fmt_decimal :: "nat \<Rightarrow> nat \<Rightarrow> nat \<Rightarrow> str \<Rightarrow> str" where
  "fmt_decimal whole frac digits suffix =
     show_nat whole @ (if frac = 0 then [] else ''.'' @ frac_digits digits frac) @ suffix"

definition duration_debug :: "duration \<Rightarrow> str" where
  "duration_debug d =
     (if 10 ^ 9 \<le> d then fmt_decimal (d div 10 ^ 9) (d mod 10 ^ 9) 9 ''s''
      else if 10 ^ 6 \<le> d then fmt_decimal (d div 10 ^ 6) (d mod 10 ^ 6) 6 ''ms''
      else if 10 ^ 3 \<le> d then fmt_decimal (d div 10 ^ 3) (d mod 10 ^ 3) 3 [CHR 0xC2, CHR 0xB5, CHR ''s'']
      else fmt_decimal d 0 0 ''ns'')"

section \<open>Node faults\<close>

datatype fault_stage = StageHealth | StageInactive | StagePartialDecrypt | StageEpochMismatch
  | StageProtocolVersion

fun fault_stage_as_str :: "fault_stage \<Rightarrow> str" where
  "fault_stage_as_str StageHealth = ''health''"
| "fault_stage_as_str StageInactive = ''inactive''"
| "fault_stage_as_str StagePartialDecrypt = ''partial-decrypt''"
| "fault_stage_as_str StageEpochMismatch = ''epoch-mismatch''"
| "fault_stage_as_str StageProtocolVersion = ''protocol-version''"

record node_fault =
  f_index :: u64
  f_endpoint :: str
  f_stage :: fault_stage
  f_detail :: str

definition fault_line :: "node_fault \<Rightarrow> str" where
  "fault_line f =
     ''node '' @ show_nat (unat (f_index f)) @ '' ('' @ f_endpoint f @ '') '' @
     fault_stage_as_str (f_stage f) @ '': '' @ f_detail f"

fun fault_lines :: "bool \<Rightarrow> node_fault list \<Rightarrow> str" where
  "fault_lines first [] = []"
| "fault_lines first (f # fs) =
     (if first then [] else ''; '') @ fault_line f @ fault_lines False fs"

definition EM_DASH :: str where
  "EM_DASH = [CHR '' '', CHR 0xE2, CHR 0x80, CHR 0x94, CHR '' '']"

definition summarize_faults :: "node_fault list \<Rightarrow> str" where
  "summarize_faults faults = (if faults = [] then [] else EM_DASH @ fault_lines True faults)"

section \<open>SDK errors\<close>

datatype sdk_error =
    Core core_error
  | Key key_error
  | ScopeError scope_parse_error
  | Transport str str
  | QuorumUnavailable nat nat "node_fault list"
  | EpochRotated u32 u32
  | SignerError str
  | BadResponse str str
  | AadMismatch u128 str str
  | ReadOnly
  | Config str
  | Chain str str
  | NotPermitted str str scope_set scope_set
  | NeverAdmitted str str
  | Dispatch str str str
  | KeyRevoked
  | Unsponsored str str str
  | MainnetNotConfirmed str str
  | WrongNetwork str str
  | FinalityTimeout str str duration
  | BadAmount str

fun sdk_error_display :: "hex_lib \<Rightarrow> sdk_error \<Rightarrow> str" where
  "sdk_error_display H (Core e) = core_error_display H e"
| "sdk_error_display H (Key e) = key_error_display e"
| "sdk_error_display H (ScopeError e) = scope_parse_error_display e"
| "sdk_error_display H (Transport ep d) =
     ''committee transport error for '' @ ep @ '': '' @ d"
| "sdk_error_display H (QuorumUnavailable n a fs) =
     ''quorum unavailable: need '' @ show_nat n @ '' healthy nodes, found '' @ show_nat a @
     summarize_faults fs"
| "sdk_error_display H (EpochRotated s p) =
     ''secret served under epoch '' @ show_nat (unat s) @ '', but state was supplied for '' @
     show_nat (unat p) @ ''; refetch the served epoch's committee state''"
| "sdk_error_display H (SignerError d) = ''signer error: '' @ d"
| "sdk_error_display H (BadResponse ep d) = ''unusable response from '' @ ep @ '': '' @ d"
| "sdk_error_display H (AadMismatch i sealed_under requested) =
     ''secret '' @ show_nat (unat i) @ '' is sealed under AAD '' @ debug_str sealed_under @
     '', not '' @ debug_str requested"
| "sdk_error_display H ReadOnly =
     ''this client is read-only: build it with an api key or a signer to submit''"
| "sdk_error_display H (Config d) = ''configuration error: '' @ d"
| "sdk_error_display H (Chain target d) = ''chain error at '' @ target @ '': '' @ d"
| "sdk_error_display H (NotPermitted pallet call required held) =
     ''key lacks '' @ scope_set_display required @ '' for '' @ pallet @ ''.'' @ call @
     ''; it holds '' @ scope_set_display held"
| "sdk_error_display H (NeverAdmitted pallet call) =
     pallet @ ''.'' @ call @
     '' is never admitted to an api key; sign it with the member's own key''"
| "sdk_error_display H (Dispatch pallet call d) =
     pallet @ ''.'' @ call @ '' failed under delegation: '' @ d"
| "sdk_error_display H KeyRevoked =
     ''this api key is no longer registered; it was revoked or re-scoped''"
| "sdk_error_display H (Unsponsored who pallet call) =
     pallet @ ''.'' @ call @ '' was not sponsored: neither '' @ who @
     '' nor their billing org could cover the fee''"
| "sdk_error_display H (MainnetNotConfirmed chain via) =
     ''refusing to build a signing client against mainnet '' @ debug_str chain @
     '' (detected via '' @ via @
     '') without explicit confirmation: set MATTER_CONFIRM=yes or MatterConfig::confirm_mainnet. '' @
     ''This client can spend real funds''"
| "sdk_error_display H (WrongNetwork expected actual) =
     ''expected the '' @ expected @ '' network but the endpoint serves '' @ debug_str actual"
| "sdk_error_display H (FinalityTimeout pallet call waited) =
     pallet @ ''.'' @ call @ '' did not finalize within '' @ duration_debug waited @
     ''; it may still land, so check the chain before resubmitting''"
| "sdk_error_display H (BadAmount d) = ''invalid amount: '' @ d"

section \<open>Properties\<close>

text \<open>
  The rendered quorum error names every dropped node: after the counts come exactly the
  fault lines in the order the nodes dropped, joined by semicolons; with no faults the text
  ends after the count.
\<close>

theorem quorum_error_renders_every_fault:
  "sdk_error_display H (QuorumUnavailable n a fs) =
     ''quorum unavailable: need '' @ show_nat n @ '' healthy nodes, found '' @ show_nat a @
     (case map fault_line fs of [] \<Rightarrow> [] | l # ls \<Rightarrow> EM_DASH @ l @ concat (map ((@) ''; '') ls))"
proof -
  have "fault_lines False gs = concat (map ((@) ''; '') (map fault_line gs))" for gs
    by (induction gs) simp_all
  then show ?thesis by (cases fs) (simp_all add: summarize_faults_def)
qed

end
