(* ===== verification/Seal.thy ===== *)
theory Seal
  imports Wire "HOL-Library.Multiset"
begin

text \<open>
  \<open>crates/matter-sdk-core\<close>: sealing a secret (\<open>encrypt.rs\<close>) and opening it from a collected
  quorum (\<open>decrypt.rs\<close>), over the value types of \<open>types.rs\<close>. The lattice cryptography, the
  bincode decoders and the protocol constants are third-party code; they are the fields of
  the record \<open>kgc\<close>, passed to every definition that calls them. An opaque decoded object of
  that library has type \<open>'o\<close>. A decoder or serializer error carries the rendered detail.
\<close>

section \<open>Value types\<close>

record encrypted_secret =
  binding_id :: bytes
  capsule :: bytes
  proof_blob :: bytes
  ct :: bytes

text \<open>\<open>Plaintext\<close>: the bytes, with a \<open>Debug\<close> that prints only the length.\<close>

datatype plaintext = Plaintext (expose: bytes)

definition plaintext_len :: "plaintext \<Rightarrow> nat" where
  "plaintext_len p = length (expose p)"

definition plaintext_is_empty :: "plaintext \<Rightarrow> bool" where
  "plaintext_is_empty p \<longleftrightarrow> expose p = []"

definition plaintext_debug :: "plaintext \<Rightarrow> str" where
  "plaintext_debug p = ''Plaintext(<redacted '' @ show_nat (length (expose p)) @ '' bytes>)''"

record partial_input =
  point :: u64
  partial :: bytes
  p_proof :: bytes
  commitment :: bytes

section \<open>The cryptographic library\<close>

record sealed_secrets =
  nonce :: bytes
  ciphertext :: bytes

record 'o entry =
  e_partial :: 'o
  e_proof :: 'o
  e_commitment :: 'o
  e_lambda :: 'o

datatype open_error = OpenAggregate str | OpenAead

record 'o kgc =
  bincode_pk :: "bytes \<Rightarrow> str + 'o"
  bincode_ser :: "'o \<Rightarrow> str + bytes"
  encode_tagged :: "'o \<Rightarrow> str + bytes"
  untag :: "bytes \<Rightarrow> str + bytes"
  strict_pk :: "bytes \<Rightarrow> str + 'o"
  strict_shared_a :: "bytes \<Rightarrow> str + 'o"
  strict_capsule :: "bytes \<Rightarrow> str + 'o"
  strict_plaintext_proof :: "bytes \<Rightarrow> str + 'o"
  strict_partial :: "bytes \<Rightarrow> str + 'o"
  strict_partial_proof :: "bytes \<Rightarrow> str + 'o"
  strict_commitment :: "bytes \<Rightarrow> str + 'o"
  seal_secret :: "'o \<Rightarrow> bytes \<Rightarrow> bytes \<Rightarrow> u64 \<Rightarrow> bytes \<Rightarrow> 'o \<times> 'o \<times> sealed_secrets"
  verify_secret_proof :: "'o \<Rightarrow> 'o \<Rightarrow> 'o \<Rightarrow> bytes \<Rightarrow> u64 \<Rightarrow> bool"
  lagrange_coefficient :: "u64 \<Rightarrow> u64 list \<Rightarrow> 'o"
  verify_aggregate_open ::
    "'o entry list \<Rightarrow> 'o \<Rightarrow> 'o \<Rightarrow> bytes \<Rightarrow> u64 \<Rightarrow> bytes \<Rightarrow> bytes \<Rightarrow> sealed_secrets \<Rightarrow> open_error + bytes"
  partial_decrypt_signing_payload :: "u128 \<Rightarrow> u64 list \<Rightarrow> bytes \<Rightarrow> u64 \<Rightarrow> bytes"
  MAX_BINDING_ID :: nat
  MAX_CAPSULE :: nat
  MAX_CIPHERTEXT :: nat
  MAX_PROOF :: nat
  CRYPTO_PROTOCOL_VERSION :: u16

section \<open>The shared context\<close>

text \<open>
  \<open>ctx::ensure\<close>: the process-wide context of the library, a \<open>OnceCell\<close> that the first access
  fills. The operations below that use it are fields of \<open>kgc\<close>, which closes over it.
\<close>

definition ensure :: "('w \<Rightarrow> 'c \<times> 'w) \<Rightarrow> 'c option \<times> 'w \<Rightarrow> 'c \<times> 'c option \<times> 'w" where
  "ensure gen s =
     (case s of
        (Some c, w) \<Rightarrow> (c, Some c, w)
      | (None, w) \<Rightarrow> (let (c, w1) = gen w in (c, Some c, w1)))"

text \<open>Whoever asks later, and however often, gets the context of the first access; it is built once.\<close>

lemma ensure_builds_once:
  assumes "ensure gen s = (c, s1)"
  shows "((snd \<circ> ensure gen) ^^ n) s1 = s1 \<and> ensure gen' s1 = (c, s1)"
proof -
  have "ensure g s1 = (c, s1)" for g
    using assms by (auto simp: ensure_def Let_def split: prod.splits option.splits)
  then show ?thesis by (induction n) simp_all
qed

section \<open>Sealing\<close>

definition DEFAULT_BINDING_ID_LEN :: nat where
  "DEFAULT_BINDING_ID_LEN = 32"

definition bound :: "str \<Rightarrow> nat \<Rightarrow> nat \<Rightarrow> core_error + unit" where
  "bound field actual mx = (if mx < actual then Err (TooLarge field mx actual) else Ok ())"

text \<open>\<open>fill n\<close> is what the thread's random generator writes into a buffer of \<open>n\<close> bytes.\<close>

definition encrypt ::
  "'o kgc \<Rightarrow> (nat \<Rightarrow> bytes) \<Rightarrow> bytes \<Rightarrow> u32 \<Rightarrow> bytes \<Rightarrow> bytes \<Rightarrow> bytes option
     \<Rightarrow> core_error + encrypted_secret" where
  "encrypt K fill joint_pk epoch pt aad bid =
     (if pt = [] then Err (Empty ''plaintext'')
      else
       rbind (map_err (Decode ''joint_pk'') (bincode_pk K joint_pk)) (\<lambda>pk.
       let binding = (case bid of Some b \<Rightarrow> b | None \<Rightarrow> fill DEFAULT_BINDING_ID_LEN) in
       rbind (bound ''binding_id'' (length binding) (MAX_BINDING_ID K)) (\<lambda>_.
       let (cap, pt_proof, sealed) = seal_secret K pk binding aad (ucast epoch) pt;
           c = nonce sealed @ ciphertext sealed in
       rbind (map_err (Decode ''capsule'') (bincode_ser K cap)) (\<lambda>cap_bytes.
       rbind (map_err (Decode ''proof'') (encode_tagged K pt_proof)) (\<lambda>proof_bytes.
       rbind (bound ''capsule'' (length cap_bytes) (MAX_CAPSULE K)) (\<lambda>_.
       rbind (bound ''proof'' (length proof_bytes) (MAX_PROOF K)) (\<lambda>_.
       rbind (bound ''ct'' (length c) (MAX_CIPHERTEXT K)) (\<lambda>_.
       Ok \<lparr>binding_id = binding, capsule = cap_bytes, proof_blob = proof_bytes, ct = c\<rparr>))))))))"

section \<open>Opening\<close>

definition MAX_DECODE_BYTES :: nat where
  "MAX_DECODE_BYTES = 16 * 2 ^ 20"

definition de :: "(bytes \<Rightarrow> str + 'o) \<Rightarrow> str \<Rightarrow> bytes \<Rightarrow> nat \<Rightarrow> core_error + 'o" where
  "de decoder field bs mx =
     rbind (bound field (length bs) mx) (\<lambda>_. map_err (Decode field) (decoder bs))"

definition de_tagged ::
  "'o kgc \<Rightarrow> (bytes \<Rightarrow> str + 'o) \<Rightarrow> str \<Rightarrow> bytes \<Rightarrow> nat \<Rightarrow> core_error + 'o" where
  "de_tagged K decoder field bs mx =
     rbind (bound field (length bs) mx) (\<lambda>_.
     rbind (map_err (Decode field) (untag K bs)) (\<lambda>body. de decoder field body mx))"

text \<open>\<open>points.iter().find(|&&p| !seen.insert(p))\<close>.\<close>

fun first_duplicate :: "u64 set \<Rightarrow> u64 list \<Rightarrow> u64 option" where
  "first_duplicate seen [] = None"
| "first_duplicate seen (p # ps) =
     (if p \<in> seen then Some p else first_duplicate (insert p seen) ps)"

definition subset_points :: "partial_input list \<Rightarrow> core_error + u64 list" where
  "subset_points partials =
     (if partials = [] then Err (InvalidSubset ''no partials supplied'')
      else
       let points = map point partials in
       if 0 \<in> set points then Err (InvalidSubset ''point 0 is not an evaluation point'')
       else (case first_duplicate {} points of
               Some dup \<Rightarrow> Err (InvalidSubset (''point '' @ show_nat (unat dup) @ '' appears twice''))
             | None \<Rightarrow> Ok points))"

definition signing_payload :: "'o kgc \<Rightarrow> u128 \<Rightarrow> u64 list \<Rightarrow> bytes \<Rightarrow> u64 \<Rightarrow> bytes" where
  "signing_payload K secret_id subs block_hash recipient_index =
     partial_decrypt_signing_payload K secret_id subs block_hash recipient_index"

definition lagrange_for :: "'o kgc \<Rightarrow> u64 \<Rightarrow> u64 list \<Rightarrow> core_error + bytes" where
  "lagrange_for K p subs =
     map_err (Decode ''lambda'') (bincode_ser K (lagrange_coefficient K p subs))"

definition verify_plaintext_proof ::
  "'o kgc \<Rightarrow> bytes \<Rightarrow> bytes \<Rightarrow> bytes \<Rightarrow> bytes \<Rightarrow> u32 \<Rightarrow> core_error + bool" where
  "verify_plaintext_proof K joint_pk cap tagged_proof bid epoch =
     rbind (bound ''binding_id'' (length bid) (MAX_BINDING_ID K)) (\<lambda>_.
     rbind (de (strict_pk K) ''joint_pk'' joint_pk MAX_DECODE_BYTES) (\<lambda>pk.
     rbind (de (strict_capsule K) ''capsule'' cap (MAX_CAPSULE K)) (\<lambda>c.
     rbind (de_tagged K (strict_plaintext_proof K) ''proof'' tagged_proof (MAX_PROOF K)) (\<lambda>pf.
     Ok (verify_secret_proof K pk c pf bid (ucast epoch))))))"

definition decode_partial :: "'o kgc \<Rightarrow> u64 list \<Rightarrow> partial_input \<Rightarrow> core_error + 'o entry" where
  "decode_partial K points p =
     rbind (de (strict_partial K) ''partial'' (partial p) MAX_DECODE_BYTES) (\<lambda>pd.
     rbind (de (strict_partial_proof K) ''partial proof'' (p_proof p) MAX_DECODE_BYTES) (\<lambda>pf.
     rbind (de (strict_commitment K) ''commitment'' (commitment p) MAX_DECODE_BYTES) (\<lambda>cm.
     Ok \<lparr>e_partial = pd, e_proof = pf, e_commitment = cm,
         e_lambda = lagrange_coefficient K (point p) points\<rparr>)))"

definition open_secret ::
  "'o kgc \<Rightarrow> bytes \<Rightarrow> bytes \<Rightarrow> u128 \<Rightarrow> u32 \<Rightarrow> bytes \<Rightarrow> bytes \<Rightarrow> bytes \<Rightarrow> partial_input list
     \<Rightarrow> core_error + plaintext" where
  "open_secret K shared_a cap secret_id epoch bid aad c partials =
     rbind (subset_points partials) (\<lambda>points.
     rbind (bound ''binding_id'' (length bid) (MAX_BINDING_ID K)) (\<lambda>_.
     rbind (bound ''ct'' (length c) (MAX_CIPHERTEXT K)) (\<lambda>_.
     rbind (de (strict_shared_a K) ''shared_a'' shared_a MAX_DECODE_BYTES) (\<lambda>sa.
     rbind (de (strict_capsule K) ''capsule'' cap (MAX_CAPSULE K)) (\<lambda>cp.
     if length c < 12 then Err (InvalidLength ''ct (nonce prefix)'' 12 (length c))
     else
       let sealed = \<lparr>nonce = take 12 c, ciphertext = drop 12 c\<rparr> in
       rbind (traverse (decode_partial K points) partials) (\<lambda>entries.
       map_err (\<lambda>e. case e of OpenAggregate a \<Rightarrow> Aggregate a | OpenAead \<Rightarrow> Aead)
        (map_sum id Plaintext
          (verify_aggregate_open K entries cp sa (u128_to_be_bytes secret_id) (ucast epoch)
             bid aad sealed))))))))"

section \<open>Facts about the checks\<close>

lemma bound_Ok [res_simps]: "bound f a m = Ok u \<longleftrightarrow> a \<le> m"
  by (auto simp: bound_def)

lemma bound_Err [res_simps]: "bound f a m = Err e \<longleftrightarrow> m < a \<and> e = TooLarge f m a"
  by (auto simp: bound_def)

lemma de_Ok [res_simps]: "de d f bs m = Ok x \<longleftrightarrow> length bs \<le> m \<and> d bs = Ok x"
  by (auto simp: de_def res_simps)

lemma de_Err [res_simps]:
  "de d f bs m = Err e \<longleftrightarrow>
     m < length bs \<and> e = TooLarge f m (length bs) \<or>
     length bs \<le> m \<and> (\<exists>t. d bs = Err t \<and> e = Decode f t)"
  by (auto simp: de_def res_simps)

lemma first_duplicate_None:
  "first_duplicate seen ps = None \<longleftrightarrow> distinct ps \<and> set ps \<inter> seen = {}"
  by (induction ps arbitrary: seen) auto

lemma subset_points_Ok [res_simps]:
  "subset_points partials = Ok ps \<longleftrightarrow>
     partials \<noteq> [] \<and> ps = map point partials \<and> 0 \<notin> set ps \<and> distinct ps"
  using first_duplicate_None [of "{}" "map point partials"]
  by (auto simp: subset_points_def Let_def split: option.splits)

lemma subset_points_Err: "subset_points partials = Err e \<Longrightarrow> \<exists>m. e = InvalidSubset m"
  by (auto simp: subset_points_def Let_def split: option.splits if_splits)

lemma decode_partial_Ok:
  "decode_partial K points p = Ok en \<longleftrightarrow>
     length (partial p) \<le> MAX_DECODE_BYTES \<and> length (p_proof p) \<le> MAX_DECODE_BYTES \<and>
     length (commitment p) \<le> MAX_DECODE_BYTES \<and>
     strict_partial K (partial p) = Ok (e_partial en) \<and>
     strict_partial_proof K (p_proof p) = Ok (e_proof en) \<and>
     strict_commitment K (commitment p) = Ok (e_commitment en) \<and>
     e_lambda en = lagrange_coefficient K (point p) points"
  by (cases en) (auto simp: decode_partial_def res_simps)

lemma decode_partial_not_subset: "decode_partial K ps p \<noteq> Err (InvalidSubset m)"
  by (auto simp: decode_partial_def res_simps)

text \<open>Everything after the subset check reports another error.\<close>

lemma open_secret_invalid_subset:
  "open_secret K sa cap i ep bid aad c partials = Err (InvalidSubset m) \<longleftrightarrow>
     subset_points partials = Err (InvalidSubset m)"
proof (cases "subset_points partials")
  case (Inl e)
  then show ?thesis by (auto simp: open_secret_def)
next
  case (Inr ps)
  have "traverse (decode_partial K ps) partials \<noteq> Err (InvalidSubset m)"
    using traverse_Err decode_partial_not_subset by metis
  with Inr show ?thesis
    by (auto simp: open_secret_def res_simps Let_def split: if_splits open_error.splits)
      (metis open_error.exhaust)
qed

lemma open_secret_Ok:
  "open_secret K sa cap i ep bid aad c partials = Ok pt \<longleftrightarrow>
     (partials \<noteq> [] \<and> 0 \<notin> point ` set partials \<and> distinct (map point partials) \<and>
      length bid \<le> MAX_BINDING_ID K \<and> 12 \<le> length c \<and> length c \<le> MAX_CIPHERTEXT K \<and>
      length sa \<le> MAX_DECODE_BYTES \<and> length cap \<le> MAX_CAPSULE K \<and>
      (\<exists>a cp es. strict_shared_a K sa = Ok a \<and> strict_capsule K cap = Ok cp \<and>
         list_all2 (\<lambda>p e. decode_partial K (map point partials) p = Ok e) partials es \<and>
         verify_aggregate_open K es cp a (u128_to_be_bytes i) (ucast ep) bid aad
           \<lparr>nonce = take 12 c, ciphertext = drop 12 c\<rparr> = Ok (expose pt)))"
proof -
  have ms: "map_sum id Plaintext x = Ok pt \<longleftrightarrow> x = Ok (expose pt)" for x :: "open_error + bytes"
    by (cases x; cases pt) auto
  show ?thesis
    by (auto simp: open_secret_def res_simps traverse_Ok Let_def ms split: if_splits)
qed

lemma encrypt_Ok:
  assumes "encrypt K fill joint_pk epoch pt aad bid = Ok env"
  shows "pt \<noteq> [] \<and>
    length (binding_id env) \<le> MAX_BINDING_ID K \<and> length (capsule env) \<le> MAX_CAPSULE K \<and>
    length (proof_blob env) \<le> MAX_PROOF K \<and> length (ct env) \<le> MAX_CIPHERTEXT K \<and>
    binding_id env = (case bid of None \<Rightarrow> fill 32 | Some b \<Rightarrow> b) \<and>
    (\<exists>pk cap pf sealed. bincode_pk K joint_pk = Ok pk \<and>
       seal_secret K pk (binding_id env) aad (ucast epoch) pt = (cap, pf, sealed) \<and>
       bincode_ser K cap = Ok (capsule env) \<and> encode_tagged K pf = Ok (proof_blob env) \<and>
       ct env = nonce sealed @ ciphertext sealed)"
  using assms
  by (cases "bincode_pk K joint_pk"; cases bid)
    (auto simp: encrypt_def res_simps DEFAULT_BINDING_ID_LEN_def Let_def case_prod_beta prod_eq_iff
      split: if_splits)

section \<open>What a quorum of the library opens\<close>

text \<open>
  The library's promise: sealing uses a 12-byte nonce and a capsule that its strict decoder
  reads back; and a quorum of entries made for a capsule opens everything sealed to it.
\<close>

definition seal_law :: "'o kgc \<Rightarrow> bool" where
  "seal_law K \<longleftrightarrow>
     (\<forall>pk bid aad ep pt cap pf sealed. seal_secret K pk bid aad ep pt = (cap, pf, sealed) \<longrightarrow>
        length (nonce sealed) = 12 \<and> (\<forall>bs. bincode_ser K cap = Ok bs \<longrightarrow> strict_capsule K bs = Ok cap))"

definition quorum_opens ::
  "'o kgc \<Rightarrow> bytes \<Rightarrow> u128 \<Rightarrow> u64 \<Rightarrow> bytes \<Rightarrow> 'o \<Rightarrow> partial_input list \<Rightarrow> bool" where
  "quorum_opens K shared_a i ep bid cap partials \<longleftrightarrow>
     length shared_a \<le> MAX_DECODE_BYTES \<and>
     (\<exists>sa es. strict_shared_a K shared_a = Ok sa \<and>
       list_all2 (\<lambda>p e. decode_partial K (map point partials) p = Ok e) partials es \<and>
       (\<forall>pk aad pt pf sealed. seal_secret K pk bid aad ep pt = (cap, pf, sealed) \<longrightarrow>
          verify_aggregate_open K es cap sa (u128_to_be_bytes i) ep bid aad sealed = Ok pt))"

section \<open>A reference instance\<close>

text \<open>
  A transparent stand-in for the cryptographic library, with small bounds: objects are their
  encodings, sealing writes the epoch, the plaintext and the aad after a zero nonce, and
  opening needs at least two entries whose proof is their partial.
\<close>

definition kgc_ref :: "bytes kgc" where
  "kgc_ref =
     \<lparr>bincode_pk = (\<lambda>bs. if bs = [] then Err ''end of input'' else Ok bs),
      bincode_ser = Ok,
      encode_tagged = (\<lambda>bs. Ok (0 # bs)),
      untag = (\<lambda>bs. case bs of [] \<Rightarrow> Err ''no tag'' | t # r \<Rightarrow> if t = 0 then Ok r else Err ''unknown tag''),
      strict_pk = Ok, strict_shared_a = Ok, strict_capsule = Ok, strict_plaintext_proof = Ok,
      strict_partial = (\<lambda>bs. if bs = [] then Err ''end of input'' else Ok bs),
      strict_partial_proof = Ok, strict_commitment = Ok,
      seal_secret = (\<lambda>pk bid aad ep pt.
        (pk, bid, \<lparr>nonce = replicate 12 0, ciphertext = [ucast ep] @ pt @ aad\<rparr>)),
      verify_secret_proof = (\<lambda>pk c pf bid ep. pf = bid),
      lagrange_coefficient = (\<lambda>p ps. [ucast p]),
      verify_aggregate_open = (\<lambda>es cp sa i ep bid aad sealed.
        if length es < 2 \<or> (\<exists>e \<in> set es. e_partial e \<noteq> e_proof e) then Err (OpenAggregate ''rejected'')
        else if take 1 (ciphertext sealed) = [ucast ep] \<and>
                drop (length (ciphertext sealed) - length aad) (ciphertext sealed) = aad
          then Ok (take (length (ciphertext sealed) - 1 - length aad) (drop 1 (ciphertext sealed)))
          else Err OpenAead),
      partial_decrypt_signing_payload = (\<lambda>i ps bh r.
        u128_to_be_bytes i @ map ucast ps @ bh @ [ucast r]),
      MAX_BINDING_ID = 32, MAX_CAPSULE = 64, MAX_CIPHERTEXT = 64, MAX_PROOF = 64,
      CRYPTO_PROTOCOL_VERSION = 1\<rparr>"

definition ref_partial :: "u64 \<Rightarrow> partial_input" where
  "ref_partial p = \<lparr>point = p, partial = [4], p_proof = [4], commitment = []\<rparr>"

section \<open>Properties\<close>

text \<open>
  Whatever \<open>encrypt\<close> returns fits the chain: the plaintext was not empty, each of the
  four fields is within its on-chain bound, the binding id is the caller's (or 32 random
  bytes), and \<open>ct\<close> is the nonce followed by the ciphertext.
\<close>

theorem encrypt_fits_chain_bounds:
  assumes "encrypt K fill joint_pk epoch pt aad bid = Ok env"
  shows "pt \<noteq> [] \<and>
    length (binding_id env) \<le> MAX_BINDING_ID K \<and> length (capsule env) \<le> MAX_CAPSULE K \<and>
    length (proof_blob env) \<le> MAX_PROOF K \<and> length (ct env) \<le> MAX_CIPHERTEXT K \<and>
    binding_id env = (case bid of None \<Rightarrow> fill 32 | Some b \<Rightarrow> b) \<and>
    (\<exists>pk cap pf sealed. bincode_pk K joint_pk = Ok pk \<and>
       seal_secret K pk (binding_id env) aad (ucast epoch) pt = (cap, pf, sealed) \<and>
       bincode_ser K cap = Ok (capsule env) \<and> encode_tagged K pf = Ok (proof_blob env) \<and>
       ct env = nonce sealed @ ciphertext sealed)"
  using encrypt_Ok [OF assms] .

theorem encrypt_fits_chain_bounds_witness:
  "\<exists>env. encrypt kgc_ref (\<lambda>n. replicate n 5) [1, 2] 3 [7, 8] [9] None = Ok env \<and>
     binding_id env = replicate 32 5 \<and> length (ct env) \<le> 64"
proof -
  let ?env = "\<lparr>binding_id = replicate 32 5, capsule = [1, 2], proof_blob = 0 # replicate 32 5,
    ct = replicate 12 0 @ [3] @ [7, 8] @ [9]\<rparr>"
  have e: "encrypt kgc_ref (\<lambda>n. replicate n 5) [1, 2] 3 [7, 8] [9] None = Ok ?env"
    by (simp add: encrypt_def kgc_ref_def bound_def DEFAULT_BINDING_ID_LEN_def Let_def)
  from encrypt_fits_chain_bounds [OF e] e show ?thesis by (auto simp: kgc_ref_def)
qed

text \<open>
  The subset check decides \<open>InvalidSubset\<close>: opening reports it exactly when the partials
  are empty, a point is zero, or a point is repeated, whatever the other inputs are.
\<close>

theorem open_secret_rejects_bad_subsets:
  "(\<exists>m. open_secret K sa cap i ep bid aad c partials = Err (InvalidSubset m)) \<longleftrightarrow>
     \<not> (partials \<noteq> [] \<and> 0 \<notin> point ` set partials \<and> distinct (map point partials))"
proof (cases "subset_points partials")
  case (Inl e)
  then obtain m where m: "subset_points partials = Err (InvalidSubset m)"
    using subset_points_Err by blast
  then have "subset_points partials \<noteq> Ok (map point partials)" by simp
  then have "partials = [] \<or> 0 \<in> point ` set partials \<or> \<not> distinct (map point partials)"
    by (auto simp: res_simps)
  with m show ?thesis by (auto simp: open_secret_invalid_subset)
next
  case (Inr ps)
  then show ?thesis by (simp add: open_secret_invalid_subset) (auto simp: res_simps)
qed

text \<open>
  C39. No oversized blob reaches a decoder: replacing the library's decoders by others that
  agree with them on inputs within the checked limits (whatever they do beyond) never
  changes the outcome of opening.
\<close>

theorem open_secret_bounds_before_decoding:
  assumes "\<And>bs. length bs \<le> MAX_DECODE_BYTES \<Longrightarrow>
      sa' bs = strict_shared_a K bs \<and> pd' bs = strict_partial K bs \<and>
      pf' bs = strict_partial_proof K bs \<and> cm' bs = strict_commitment K bs"
    and "\<And>bs. length bs \<le> MAX_CAPSULE K \<Longrightarrow> cap' bs = strict_capsule K bs"
  shows "open_secret (K\<lparr>strict_shared_a := sa', strict_capsule := cap', strict_partial := pd',
           strict_partial_proof := pf', strict_commitment := cm'\<rparr>) sa cap i ep bid aad c partials =
         open_secret K sa cap i ep bid aad c partials"
proof -
  let ?K = "K\<lparr>strict_shared_a := sa', strict_capsule := cap', strict_partial := pd',
           strict_partial_proof := pf', strict_commitment := cm'\<rparr>"
  have de_cong: "(\<And>bs. length bs \<le> m \<Longrightarrow> d' bs = d bs) \<Longrightarrow> de d' f b m = de d f b m"
    for d d' :: "bytes \<Rightarrow> str + 'a" and f b m
    by (auto simp: de_def bound_def)
  have "decode_partial ?K = decode_partial K"
    using assms(1) by (intro ext) (simp add: decode_partial_def cong: de_cong)
  then show ?thesis
    using assms de_cong [of MAX_DECODE_BYTES sa' "strict_shared_a K"]
      de_cong [of "MAX_CAPSULE K" cap' "strict_capsule K"]
    by (simp add: open_secret_def Let_def cong: if_cong)
qed

theorem open_secret_bounds_before_decoding_witness:
  "open_secret (kgc_ref\<lparr>strict_shared_a := strict_shared_a kgc_ref,
     strict_capsule := (\<lambda>bs. if 64 < length bs then Ok [1] else Ok bs),
     strict_partial := strict_partial kgc_ref, strict_partial_proof := strict_partial_proof kgc_ref,
     strict_commitment := strict_commitment kgc_ref\<rparr>) [] (replicate 65 0) 7 1 [] [] (replicate 20 0) [ref_partial 1] =
   open_secret kgc_ref [] (replicate 65 0) 7 1 [] [] (replicate 20 0) [ref_partial 1]"
  by (rule open_secret_bounds_before_decoding) (auto simp: kgc_ref_def)

text \<open>
  The order in which partials were collected does not matter: when the library's
  aggregation and Lagrange coefficients do not depend on the order of the entries and of the
  subset, any permutation of the partials opens to the same plaintext.
\<close>

theorem open_secret_order_irrelevant:
  assumes "open_secret K sa cap i ep bid aad c ps = Ok pt"
    and "mset qs = mset ps"
    and "\<And>p xs ys. mset xs = mset ys \<Longrightarrow> lagrange_coefficient K p xs = lagrange_coefficient K p ys"
    and "\<And>es fs a b d e f g h. mset es = mset fs \<Longrightarrow>
      verify_aggregate_open K es a b d e f g h = verify_aggregate_open K fs a b d e f g h"
  shows "open_secret K sa cap i ep bid aad c qs = Ok pt"
proof -
  let ?dec = "\<lambda>p e. decode_partial K (map point ps) p = Ok e"
  have dec: "decode_partial K (map point qs) p = decode_partial K (map point ps) p" for p
    using assms(3) [of "map point qs" "map point ps"] assms(2) by (simp add: decode_partial_def)
  from assms(1) obtain a cp es where *: "strict_shared_a K sa = Ok a" "strict_capsule K cap = Ok cp"
    "list_all2 ?dec ps es"
    "verify_aggregate_open K es cp a (u128_to_be_bytes i) (ucast ep) bid aad
       \<lparr>nonce = take 12 c, ciphertext = drop 12 c\<rparr> = Ok (expose pt)"
    by (auto simp: open_secret_Ok)
  from list_all2_reorder_left_invariance [OF *(3) assms(2)]
  obtain fs where fs: "list_all2 ?dec qs fs" "mset fs = mset es" by blast
  have "set qs = set ps" "qs = [] \<longleftrightarrow> ps = []" using assms(2) by (auto dest: mset_eq_setD)
  moreover have "distinct (map point qs) = distinct (map point ps)"
    using assms(2) by (metis mset_eq_imp_distinct_iff mset_map)
  ultimately show ?thesis using assms(1) *(1,2,4) fs assms(4) [OF fs(2)]
    by (auto simp: open_secret_Ok dec)
qed

theorem open_secret_order_irrelevant_witness:
  "open_secret kgc_ref [] [] 7 3 [] [9] (replicate 12 0 @ [3, 7, 8, 9]) [ref_partial 2, ref_partial 1] =
     Ok (Plaintext [7, 8])"
proof (rule open_secret_order_irrelevant)
  show "open_secret kgc_ref [] [] 7 3 [] [9] (replicate 12 0 @ [3, 7, 8, 9]) [ref_partial 1, ref_partial 2] =
     Ok (Plaintext [7, 8])"
    by (simp add: open_secret_def subset_points_def de_def bound_def decode_partial_def
        ref_partial_def kgc_ref_def MAX_DECODE_BYTES_def Let_def)
  show "mset [ref_partial 2, ref_partial 1] = mset [ref_partial 1, ref_partial 2]" by simp
  show "lagrange_coefficient kgc_ref p xs = lagrange_coefficient kgc_ref p ys" for p xs ys
    by (simp add: kgc_ref_def)
  show "verify_aggregate_open kgc_ref es a b d e f g h = verify_aggregate_open kgc_ref fs a b d e f g h"
    if "mset es = mset fs" for es fs a b d e f g h
    using mset_eq_setD [OF that] mset_eq_length [OF that] by (simp add: kgc_ref_def)
qed

lemma sealed_opens:
  assumes "encrypt K fill joint_pk epoch pt aad bid = Ok env" and "seal_law K"
    and "strict_capsule K (capsule env) = Ok cap"
    and "quorum_opens K shared_a i (ucast epoch) (binding_id env) cap partials"
    and "partials \<noteq> [] \<and> 0 \<notin> point ` set partials \<and> distinct (map point partials)"
  shows "open_secret K shared_a (capsule env) i epoch (binding_id env) aad (ct env) partials =
    Ok (Plaintext pt)"
proof -
  from encrypt_Ok [OF assms(1)] obtain pk cap' pf sealed where
    e: "seal_secret K pk (binding_id env) aad (ucast epoch) pt = (cap', pf, sealed)"
      "bincode_ser K cap' = Ok (capsule env)" "ct env = nonce sealed @ ciphertext sealed"
    and b: "length (binding_id env) \<le> MAX_BINDING_ID K" "length (capsule env) \<le> MAX_CAPSULE K"
      "length (ct env) \<le> MAX_CIPHERTEXT K"
    by blast
  with assms(2,3) have l: "length (nonce sealed) = 12" "cap' = cap"
    by (auto simp: seal_law_def)
  with e have "\<lparr>nonce = take 12 (ct env), ciphertext = drop 12 (ct env)\<rparr> = sealed"
    and "12 \<le> length (ct env)" by simp_all
  moreover from assms(4) e(1) l(2) obtain sa es where
    "length shared_a \<le> MAX_DECODE_BYTES" "strict_shared_a K shared_a = Ok sa"
    "list_all2 (\<lambda>p e. decode_partial K (map point partials) p = Ok e) partials es"
    "verify_aggregate_open K es cap sa (u128_to_be_bytes i) (ucast epoch) (binding_id env) aad sealed = Ok pt"
    unfolding quorum_opens_def by blast
  ultimately show ?thesis using assms(3,5) b unfolding open_secret_Ok by auto
qed

text \<open>
  C8. Sealing and opening are inverse: what \<open>encrypt\<close> wrote (capsule, binding id and the
  nonce-prefixed ciphertext) opens to the plaintext, for a quorum of distinct nonzero points
  whose entries the library accepts for that capsule.
\<close>

theorem seal_open_round_trip:
  assumes "encrypt K fill joint_pk epoch pt aad bid = Ok env" and "seal_law K"
    and "strict_capsule K (capsule env) = Ok cap"
    and "quorum_opens K shared_a i (ucast epoch) (binding_id env) cap partials"
    and "partials \<noteq> [] \<and> 0 \<notin> point ` set partials \<and> distinct (map point partials)"
  shows "open_secret K shared_a (capsule env) i epoch (binding_id env) aad (ct env) partials =
    Ok (Plaintext pt)"
  using assms by (rule sealed_opens)

theorem seal_open_round_trip_witness:
  "\<exists>env. encrypt kgc_ref (\<lambda>n. replicate n 5) [1, 2] 3 [7, 8] [9] None = Ok env \<and>
     open_secret kgc_ref [] (capsule env) 7 3 (binding_id env) [9] (ct env)
       [ref_partial 1, ref_partial 2] = Ok (Plaintext [7, 8])"
proof -
  let ?env = "\<lparr>binding_id = replicate 32 5, capsule = [1, 2], proof_blob = 0 # replicate 32 5,
    ct = replicate 12 0 @ [3] @ [7, 8] @ [9]\<rparr>"
  have e: "encrypt kgc_ref (\<lambda>n. replicate n 5) [1, 2] 3 [7, 8] [9] None = Ok ?env"
    by (simp add: encrypt_def kgc_ref_def bound_def DEFAULT_BINDING_ID_LEN_def Let_def)
  have law: "seal_law kgc_ref" by (auto simp: seal_law_def kgc_ref_def)
  have q: "quorum_opens kgc_ref [] 7 (ucast (3 :: u32)) (binding_id ?env) [1, 2] [ref_partial 1, ref_partial 2]"
    unfolding quorum_opens_def
    by (simp add: decode_partial_def de_def bound_def ref_partial_def kgc_ref_def MAX_DECODE_BYTES_def
        list_all2_Cons1)
  have c: "strict_capsule kgc_ref (capsule ?env) = Ok [1, 2]" by (simp add: kgc_ref_def)
  from seal_open_round_trip [OF e law c q] e show ?thesis
    by (auto simp: ref_partial_def)
qed

end
