(* ===== verification/Signer.thy ===== *)
theory Signer
  imports Sdk_Error Seal
begin

text \<open>
  \<open>crates/matter-sdk/src/signer.rs\<close>: authorization of one \<open>/partial-decrypt\<close> request. A
  \<open>Signer\<close> returns the finished auth fields; \<open>partial_decrypt_auth\<close> frames a \<open>KeySigner\<close>'s raw
  signature as Substrate fields. What its framing promises is proved once for every key signer,
  in the locale of the key crate.
\<close>

section \<open>Requests and authorization\<close>

datatype auth_scheme = AuthSubstrate | AuthEthereum

record signing_request =
  sr_secret_id :: u128
  sr_subset :: "u64 list"
  sr_recipient_index :: u64
  sr_block_hash :: bytes
  sr_valid_until :: "u64 option"

definition payload :: "'o kgc \<Rightarrow> signing_request \<Rightarrow> bytes" where
  "payload K req =
     signing_payload K (sr_secret_id req) (sr_subset req) (sr_block_hash req) (sr_recipient_index req)"

record request_auth =
  ra_auth :: auth_scheme
  ra_requester :: str
  ra_signature :: str
  ra_eth_address :: "str option"
  ra_valid_until :: "u64 option"
  ra_eth_signature :: "str option"

text \<open>A \<open>Signer\<close> may use randomness or do I/O, so it acts on the environment \<open>'w\<close>.\<close>

type_synonym 'w signer = "signing_request \<Rightarrow> 'w \<Rightarrow> (sdk_error + request_auth) \<times> 'w"

definition MULTISIGNATURE_SR25519 :: u8 where
  "MULTISIGNATURE_SR25519 = 1"

definition frame_auth :: "hex_lib \<Rightarrow> account_id \<Rightarrow> bytes \<Rightarrow> request_auth" where
  "frame_auth H acct signature =
     \<lparr>ra_auth = AuthSubstrate, ra_requester = to_0x H (as_bytes acct),
      ra_signature = to_0x H (MULTISIGNATURE_SR25519 # signature),
      ra_eth_address = None, ra_valid_until = None, ra_eth_signature = None\<rparr>"

definition partial_decrypt_auth ::
  "'o kgc \<Rightarrow> hex_lib \<Rightarrow> ('k \<Rightarrow> account_id) \<Rightarrow> ('k \<Rightarrow> bytes \<Rightarrow> key_error + bytes) \<Rightarrow> 'k
     \<Rightarrow> signing_request \<Rightarrow> sdk_error + request_auth" where
  "partial_decrypt_auth K H account_of sign_with signer req =
     rbind (map_err Key (sign_with signer (payload K req))) (\<lambda>signature.
     Ok (frame_auth H (account_of signer) signature))"

text \<open>\<open>Signer for ApiKey\<close>, and \<open>Sr25519Signer\<close>, which holds an \<open>ApiKey\<close>.\<close>

definition api_key_authorize ::
  "'o kgc \<Rightarrow> hex_lib \<Rightarrow> ('kp, 'm, 'j) signer_lib \<Rightarrow> 'kp api_key \<Rightarrow> signing_request
     \<Rightarrow> sdk_error + request_auth" where
  "api_key_authorize K H L k req = partial_decrypt_auth K H account (api_key_sign L) k req"

definition dev_signer_from_seed ::
  "('kp, 'm, 'j) signer_lib \<Rightarrow> bytes \<Rightarrow> sdk_error + 'kp api_key" where
  "dev_signer_from_seed L seed = map_err Key (from_seed L seed)"

definition dev_signer_from_uri ::
  "hex_lib \<Rightarrow> ('kp, 'm, 'j) signer_lib \<Rightarrow> (str \<Rightarrow> bool) \<Rightarrow> str \<Rightarrow> sdk_error + 'kp api_key" where
  "dev_signer_from_uri H L uni uri = map_err Key (api_key_parse H L uni uri)"

text \<open>\<open>Signer for Sr25519Signer\<close>: the framing of the key's signature, with no other effect.\<close>

definition dev_signer ::
  "'o kgc \<Rightarrow> hex_lib \<Rightarrow> ('kp, 'm, 'j) signer_lib \<Rightarrow> 'kp api_key \<Rightarrow> 'w signer" where
  "dev_signer K H L key req w = (api_key_authorize K H L key req, w)"

definition dev_account_id :: "'kp api_key \<Rightarrow> bytes" where
  "dev_account_id key = as_bytes (account key)"

section \<open>The framing, for every key signer\<close>

context key_signer
begin

lemma auth_ok:
  assumes "wf k" "hex_crate H" "partial_decrypt_auth K H account_of sign_with k req = Ok auth"
  shows "ra_auth auth = AuthSubstrate \<and>
    from_0x H ''requester'' (ra_requester auth) = Ok (as_bytes (account_of k)) \<and>
    length (as_bytes (account_of k)) = 32 \<and>
    (\<exists>sig. sign_with k (payload K req) = Ok sig \<and> length sig = 64 \<and>
       from_0x H ''signature'' (ra_signature auth) = Ok (1 # sig)) \<and>
    ra_eth_address auth = None \<and> ra_valid_until auth = None \<and> ra_eth_signature auth = None"
  using assms(3) account_bytes [OF assms(1)] signature_bytes [OF assms(1)]
    hex_crate.from_0x_to_0x [OF assms(2)]
  by (auto simp: partial_decrypt_auth_def frame_auth_def MULTISIGNATURE_SR25519_def res_simps)

lemma auth_error_is_the_signers:
  "partial_decrypt_auth K H account_of sign_with k req = Err e \<Longrightarrow>
     \<exists>e'. e = Key e' \<and> sign_with k (payload K req) = Err e'"
  by (auto simp: partial_decrypt_auth_def res_simps)

end

section \<open>Properties\<close>

text \<open>
  C32. A parsed API key authorizes every request, and the fields decode to the account of the
  key and to the sr25519 variant byte followed by a 64-byte signature over the canonical
  payload of that request; no Ethereum field is set.
\<close>

theorem api_key_authorizes:
  assumes "subxt_keys L" and "hex_crate H" and "api_key_parse H L uni uri = Ok k"
  shows "\<exists>auth. api_key_authorize K H L k req = Ok auth \<and> ra_auth auth = AuthSubstrate \<and>
    from_0x H ''requester'' (ra_requester auth) = Ok (as_bytes (account k)) \<and>
    length (as_bytes (account k)) = 32 \<and>
    (\<exists>sig. api_key_sign L k (payload K req) = Ok sig \<and> length sig = 64 \<and>
       from_0x H ''signature'' (ra_signature auth) = Ok (1 # sig)) \<and>
    ra_eth_address auth = None \<and> ra_valid_until auth = None \<and> ra_eth_signature auth = None"
proof -
  obtain auth where ok: "partial_decrypt_auth K H account (api_key_sign L) k req = Ok auth"
    by (simp add: partial_decrypt_auth_def api_key_sign_def)
  have ks: "key_signer (api_key_wf L) account (api_key_sign L)"
    by (rule subxt_keys.api_key_signer [OF assms(1)])
  from key_signer.auth_ok [OF ks subxt_keys.parsed_key_wf [OF assms(1,3)] assms(2) ok] ok
  show ?thesis unfolding api_key_authorize_def by blast
qed

theorem api_key_authorizes_witness:
  "\<exists>k auth. api_key_parse hex_ref keys_ref (\<lambda>_. False) (''0x'' @ concat (replicate 32 ''2a'')) = Ok k \<and>
     api_key_authorize kgc_ref hex_ref keys_ref k
       \<lparr>sr_secret_id = 9, sr_subset = [2, 4, 6], sr_recipient_index = 4,
        sr_block_hash = replicate 32 0xab, sr_valid_until = None\<rparr> = Ok auth \<and>
     from_0x hex_ref ''requester'' (ra_requester auth) = Ok (as_bytes (account k))"
proof -
  have e: "api_key_parse hex_ref keys_ref (\<lambda>_. False) (''0x'' @ concat (replicate 32 ''2a'')) =
     Ok (from_keypair keys_ref (replicate 32 42))"
    by code_simp
  from api_key_authorizes [OF keysr.subxt_keys_axioms hexr.hex_crate_axioms e] e
  show ?thesis by blast
qed

end
