(* ===== verification/Transport.thy ===== *)
theory Transport
  imports Signer
begin

text \<open>
  \<open>crates/matter-sdk/src/transport.rs\<close>: how the SDK reaches committee nodes. The \<open>Transport\<close>
  trait is a record of two operations on the environment \<open>'w\<close>; \<open>reqwest_transport\<close> is the
  production one, over a \<open>reqwest\<close> client and JSON codecs that are parameters. Bodies arrive as
  chunks and are capped before they are decoded.
\<close>

section \<open>The wire records\<close>

record pd_request =
  q_secret_id :: str
  q_subset :: "u64 list"
  q_lagrange_coeff :: str
  q_requester :: str
  q_block_hash :: str
  q_signature :: str
  q_auth :: auth_scheme
  q_eth_address :: "str option"
  q_valid_until :: "u64 option"
  q_eth_signature :: "str option"

record pd_response =
  r_partial :: str
  r_proof :: str
  r_served_epoch :: u32

record health =
  h_status :: str
  h_epoch :: u32
  h_protocol :: u16

definition is_active :: "health \<Rightarrow> bool" where
  "is_active h \<longleftrightarrow> h_status h = ''active''"

record 'w transport =
  t_health :: "str \<Rightarrow> 'w \<Rightarrow> (sdk_error + health) \<times> 'w"
  t_partial_decrypt :: "str \<Rightarrow> pd_request \<Rightarrow> 'w \<Rightarrow> (sdk_error + pd_response) \<times> 'w"

section \<open>The production transport\<close>

definition REQUEST_TIMEOUT :: duration where
  "REQUEST_TIMEOUT = from_secs 30"

definition CONNECT_TIMEOUT :: duration where
  "CONNECT_TIMEOUT = from_secs 10"

definition MAX_RESPONSE_BYTES :: nat where
  "MAX_RESPONSE_BYTES = MAX_COMMITTEE_RESPONSE_BYTES"

text \<open>
  A \<open>reqwest::Response\<close>: a failing status (rendered), the announced length, and what each call
  of \<open>chunk\<close> yields before the end of the body.
\<close>

record http_response =
  status_error :: "str option"
  content_length :: "nat option"
  chunks :: "(str + bytes) list"

datatype http_method = Get | Post

text \<open>
  The client: \<open>http_send\<close> with the timeouts of the builder, the JSON writer for the request
  and the two readers.
\<close>

record 'w http_client =
  http_send :: "http_method \<Rightarrow> str \<Rightarrow> bytes \<Rightarrow> 'w \<Rightarrow> (str + http_response) \<times> 'w"
  json_request :: "pd_request \<Rightarrow> bytes"
  json_health :: "bytes \<Rightarrow> str + health"
  json_response :: "bytes \<Rightarrow> str + pd_response"

fun read_chunks :: "str \<Rightarrow> bytes \<Rightarrow> (str + bytes) list \<Rightarrow> sdk_error + bytes" where
  "read_chunks endpoint buf [] = Ok buf"
| "read_chunks endpoint buf (Inl e # cs) = Err (Transport endpoint e)"
| "read_chunks endpoint buf (Inr chunk # cs) =
     (if MAX_RESPONSE_BYTES < length buf + length chunk
      then Err (Transport endpoint ''response body exceeded size cap'')
      else read_chunks endpoint (buf @ chunk) cs)"

definition read_json :: "(bytes \<Rightarrow> str + 't) \<Rightarrow> str \<Rightarrow> http_response \<Rightarrow> sdk_error + 't" where
  "read_json decode endpoint resp =
     (case content_length resp of
        Some len \<Rightarrow>
          if MAX_RESPONSE_BYTES < len
          then Err (Transport endpoint (''response body too large ('' @ show_nat len @ '' bytes)''))
          else rbind (read_chunks endpoint [] (chunks resp))
                 (\<lambda>buf. map_err (Transport endpoint) (decode buf))
      | None \<Rightarrow> rbind (read_chunks endpoint [] (chunks resp))
                 (\<lambda>buf. map_err (Transport endpoint) (decode buf)))"

definition http_call ::
  "'w http_client \<Rightarrow> (bytes \<Rightarrow> str + 't) \<Rightarrow> http_method \<Rightarrow> str \<Rightarrow> str \<Rightarrow> bytes \<Rightarrow> 'w
     \<Rightarrow> (sdk_error + 't) \<times> 'w" where
  "http_call C decode m path endpoint body w =
     (case http_send C m (trim_end_matches (CHR ''/'') endpoint @ path) body w of
        (Inl e, w') \<Rightarrow> (Err (Transport endpoint e), w')
      | (Inr resp, w') \<Rightarrow>
          (case status_error resp of
             Some e \<Rightarrow> (Err (Transport endpoint e), w')
           | None \<Rightarrow> (read_json decode endpoint resp, w')))"

definition reqwest_transport :: "'w http_client \<Rightarrow> 'w transport" where
  "reqwest_transport C =
     \<lparr>t_health = (\<lambda>endpoint. http_call C (json_health C) Get ''/health'' endpoint []),
      t_partial_decrypt = (\<lambda>endpoint req.
        http_call C (json_response C) Post ''/partial-decrypt'' endpoint (json_request C req))\<rparr>"

section \<open>What is read\<close>

lemma read_chunks_Ok:
  "length buf \<le> MAX_RESPONSE_BYTES \<Longrightarrow> read_chunks endpoint buf cs = Ok body \<longleftrightarrow>
     list_all (\<lambda>c. \<exists>b. c = Inr b) cs \<and> body = buf @ concat (map projr cs) \<and>
     length body \<le> MAX_RESPONSE_BYTES"
proof (induction endpoint buf cs rule: read_chunks.induct)
  case (3 endpoint buf chunk cs)
  then show ?case by (cases "MAX_RESPONSE_BYTES < length buf + length chunk") auto
qed auto

lemma read_chunks_Err: "read_chunks endpoint buf cs = Err e \<Longrightarrow> \<exists>d. e = Transport endpoint d"
  by (induction endpoint buf cs rule: read_chunks.induct) (auto split: if_splits)

text \<open>Once the cap is exceeded nothing of the rest of the body matters.\<close>

lemma read_chunks_stops:
  "read_chunks endpoint buf (Inr chunk # cs) = Err (Transport endpoint ''response body exceeded size cap'')"
  if "MAX_RESPONSE_BYTES < length buf + length chunk"
  using that by simp

section \<open>Properties\<close>

text \<open>
  C40. The transport decodes at most the capped number of bytes: a call succeeds only when the
  whole body, the concatenation of its chunks, is within the cap, and then the decoder saw
  exactly that body; a longer announced length or a longer body is a transport error naming
  the endpoint, as is every other failure of the call.
\<close>

theorem http_call_is_capped:
  assumes "http_call C decode m path endpoint body w = (r, w')"
  shows "(\<forall>x. r = Ok x \<longrightarrow>
      (\<exists>resp. http_send C m (trim_end_matches (CHR ''/'') endpoint @ path) body w = (Ok resp, w') \<and>
         status_error resp = None \<and> list_all (\<lambda>c. \<exists>b. c = Inr b) (chunks resp) \<and>
         length (concat (map projr (chunks resp))) \<le> MAX_RESPONSE_BYTES \<and>
         (\<forall>n. content_length resp = Some n \<longrightarrow> n \<le> MAX_RESPONSE_BYTES) \<and>
         decode (concat (map projr (chunks resp))) = Ok x)) \<and>
    (\<forall>e. r = Err e \<longrightarrow> (\<exists>d. e = Transport endpoint d))"
proof -
  have read_ok: "read_json decode endpoint resp = Ok x \<Longrightarrow>
      list_all (\<lambda>c. \<exists>b. c = Inr b) (chunks resp) \<and>
      length (concat (map projr (chunks resp))) \<le> MAX_RESPONSE_BYTES \<and>
      (\<forall>n. content_length resp = Some n \<longrightarrow> n \<le> MAX_RESPONSE_BYTES) \<and>
      decode (concat (map projr (chunks resp))) = Ok x" for resp x
    using read_chunks_Ok [of "[]" endpoint "chunks resp"]
    by (auto simp: read_json_def res_simps split: option.splits if_splits)
  have read_err: "read_json decode endpoint resp = Err e \<Longrightarrow> \<exists>d. e = Transport endpoint d" for resp e
    by (auto simp: read_json_def res_simps split: option.splits if_splits dest: read_chunks_Err)
  show ?thesis
    using assms read_ok read_err
    by (auto simp: http_call_def split: prod.splits sum.splits option.splits)
qed

theorem http_call_is_capped_witness:
  "\<exists>r w'. http_call
     \<lparr>http_send = (\<lambda>m u b w. (Ok \<lparr>status_error = None, content_length = None,
          chunks = [Inr [1], Inr [2]]\<rparr>, w + (1 :: nat))),
      json_request = (\<lambda>_. []), json_health = (\<lambda>_. Err ''''), json_response = (\<lambda>_. Err '''')\<rparr>
     Ok Get ''/health'' ''http://n/'' [] 0 = (Ok r, w') \<and> r = [1, 2 :: u8]"
proof -
  let ?C = "\<lparr>http_send = (\<lambda>m u b w. (Ok \<lparr>status_error = None, content_length = None,
          chunks = [Inr [1], Inr [2]]\<rparr>, w + (1 :: nat))),
      json_request = (\<lambda>_. []), json_health = (\<lambda>_. Err ''''), json_response = (\<lambda>_. Err '''')\<rparr>"
  obtain r w' where c: "http_call ?C Ok Get ''/health'' ''http://n/'' [] 0 = (r, w')"
    by fastforce
  moreover have "r = Ok [1, 2]"
    using c by (auto simp: http_call_def read_json_def MAX_RESPONSE_BYTES_def
        MAX_COMMITTEE_RESPONSE_BYTES_def)
  ultimately show ?thesis using http_call_is_capped [OF c] by auto
qed

end
