(* ===== verification/Committee.thy ===== *)
theory Committee
  imports Transport
begin

text \<open>
  \<open>crates/matter-sdk/src/committee.rs\<close>: threshold-decrypt orchestration. \<open>decrypt\<close> probes the
  nodes, draws a random quorum of the active ones, authorizes and collects a partial from each,
  drops a failing node and re-forms the quorum, and opens the secret. The network, the signer
  and the random generator act on the environment \<open>'w\<close>, threaded through every call in the
  order the code makes them. The loop is total: every round that continues drops a node.
\<close>

section \<open>Nodes and requests\<close>

record node =
  n_index :: u64
  n_endpoint :: str
  share_commitment :: bytes

record decrypt_request =
  d_secret_id :: u128
  d_epoch :: u32
  d_binding_id :: bytes
  d_aad :: bytes
  d_capsule :: bytes
  d_ct :: bytes
  d_shared_a :: bytes
  d_block_hash :: bytes
  d_threshold :: nat
  d_nodes :: "node list"

definition speaks_our_protocol :: "'o kgc \<Rightarrow> u16 \<Rightarrow> bool" where
  "speaks_our_protocol K reported \<longleftrightarrow> reported = 0 \<or> reported = CRYPTO_PROTOCOL_VERSION K"

section \<open>Choosing a quorum\<close>

text \<open>
  \<open>choose_multiple\<close> draws positions of the slice: \<open>pick len amount\<close> on the environment. Only
  elements of the slice can be returned, so positions outside it count for nothing.
\<close>

type_synonym 'w picker = "nat \<Rightarrow> nat \<Rightarrow> 'w \<Rightarrow> nat list \<times> 'w"

definition choose_quorum :: "'w picker \<Rightarrow> node list \<Rightarrow> nat \<Rightarrow> 'w \<Rightarrow> node list \<times> 'w" where
  "choose_quorum pick available threshold w =
     (let (is, w') = pick (length available) threshold w in
      (sort_key (\<lambda>n. unat (n_index n))
         (map (nth available) (filter (\<lambda>i. i < length available) is)), w'))"

text \<open>The promise of the random generator: that many distinct positions of the slice.\<close>

definition picker_law :: "'w picker \<Rightarrow> bool" where
  "picker_law pick \<longleftrightarrow>
     (\<forall>n k w. let is = fst (pick n k w) in
        distinct is \<and> set is \<subseteq> {..<n} \<and> length is = min k n)"

section \<open>Probing\<close>

definition fault :: "node \<Rightarrow> fault_stage \<Rightarrow> str \<Rightarrow> node_fault" where
  "fault n st d = \<lparr>f_index = n_index n, f_endpoint = n_endpoint n, f_stage = st, f_detail = d\<rparr>"

definition probe_verdict ::
  "'o kgc \<Rightarrow> hex_lib \<Rightarrow> node \<Rightarrow> sdk_error + health \<Rightarrow> node_fault option" where
  "probe_verdict K H n r =
     (case r of
        Inr h \<Rightarrow>
          if \<not> speaks_our_protocol K (h_protocol h) then
            Some (fault n StageProtocolVersion
              (''speaks crypto protocol v'' @ show_nat (unat (h_protocol h)) @
               '', this SDK speaks v'' @ show_nat (unat (CRYPTO_PROTOCOL_VERSION K))))
          else if is_active h then None
          else Some (fault n StageInactive
              (''status '' @ debug_str (h_status h) @ '', epoch '' @ show_nat (unat (h_epoch h)) @
               '', crypto protocol v'' @ show_nat (unat (h_protocol h))))
      | Inl e \<Rightarrow> Some (fault n StageHealth (sdk_error_display H e)))"

fun probe ::
  "'o kgc \<Rightarrow> hex_lib \<Rightarrow> 'w transport \<Rightarrow> node list \<Rightarrow> 'w \<Rightarrow> node list \<times> node_fault list \<times> 'w" where
  "probe K H T [] w = ([], [], w)"
| "probe K H T (n # ns) w =
     (let (r, w1) = t_health T (n_endpoint n) w;
          (act, fs, w2) = probe K H T ns w1 in
      (case probe_verdict K H n r of
         None \<Rightarrow> (n # act, fs, w2)
       | Some f \<Rightarrow> (act, f # fs, w2)))"

section \<open>One round\<close>

text \<open>The \<open>BTreeMap\<close> of votes, in key order: count a vote, and the last key with most votes.\<close>

type_synonym votes = "(u32 \<times> nat) list"

fun add_vote :: "u32 \<Rightarrow> votes \<Rightarrow> nat \<times> votes" where
  "add_vote e [] = (1, [(e, 1)])"
| "add_vote e ((k, v) # vs) =
     (if e = k then (v + 1, (k, v + 1) # vs)
      else if e < k then (1, (e, 1) # (k, v) # vs)
      else (let (c, vs') = add_vote e vs in (c, (k, v) # vs')))"

fun most_voted :: "votes \<Rightarrow> (u32 \<times> nat) option" where
  "most_voted [] = None"
| "most_voted ((k, v) # vs) =
     (case most_voted vs of None \<Rightarrow> Some (k, v)
      | Some (k', v') \<Rightarrow> if v \<le> v' then Some (k', v') else Some (k, v))"

record 'w round_state =
  rs_faults :: "node_fault list"
  rs_votes :: votes
  rs_world :: 'w

datatype round_end =
    Aborted sdk_error
  | Faulty u64
  | Collected "partial_input list"

text \<open>The request for one node, from the auth fields the signer returned for it.\<close>

definition node_request ::
  "hex_lib \<Rightarrow> decrypt_request \<Rightarrow> u64 list \<Rightarrow> bytes \<Rightarrow> request_auth \<Rightarrow> pd_request" where
  "node_request H req subs lambda au =
     \<lparr>q_secret_id = secret_id_to_hex H (d_secret_id req), q_subset = subs,
      q_lagrange_coeff = to_0x H lambda, q_requester = ra_requester au,
      q_block_hash = to_0x H (d_block_hash req), q_signature = ra_signature au, q_auth = ra_auth au,
      q_eth_address = ra_eth_address au, q_valid_until = ra_valid_until au,
      q_eth_signature = ra_eth_signature au\<rparr>"

definition signing_request_for :: "decrypt_request \<Rightarrow> u64 list \<Rightarrow> node \<Rightarrow> signing_request" where
  "signing_request_for req subs n =
     \<lparr>sr_secret_id = d_secret_id req, sr_subset = subs, sr_recipient_index = n_index n,
      sr_block_hash = d_block_hash req, sr_valid_until = None\<rparr>"

definition epoch_fault :: "decrypt_request \<Rightarrow> node \<Rightarrow> u32 \<Rightarrow> node_fault" where
  "epoch_fault req n ep =
     fault n StageEpochMismatch
       (''served epoch '' @ show_nat (unat ep) @ '', state supplied for '' @ show_nat (unat (d_epoch req)))"

text \<open>What the answer of a node does to the round: go on with a partial, or end the round.\<close>

definition take_response ::
  "hex_lib \<Rightarrow> decrypt_request \<Rightarrow> node \<Rightarrow> sdk_error + pd_response \<Rightarrow> 'w round_state
     \<Rightarrow> (round_end + partial_input) \<times> 'w round_state" where
  "take_response H req n r st =
     (case r of
        Inl e \<Rightarrow>
          (Inl (Faulty (n_index n)),
           st\<lparr>rs_faults := rs_faults st @ [fault n StagePartialDecrypt (sdk_error_display H e)]\<rparr>)
      | Inr resp \<Rightarrow>
          if r_served_epoch resp \<noteq> 0 \<and> r_served_epoch resp \<noteq> d_epoch req then
            (let (count, vs) = add_vote (r_served_epoch resp) (rs_votes st) in
             if d_threshold req \<le> count then
               (Inl (Aborted (EpochRotated (r_served_epoch resp) (d_epoch req))), st\<lparr>rs_votes := vs\<rparr>)
             else
               (Inl (Faulty (n_index n)),
                st\<lparr>rs_votes := vs,
                   rs_faults := rs_faults st @ [epoch_fault req n (r_served_epoch resp)]\<rparr>))
          else
            (case from_0x H ''partial'' (r_partial resp) of
               Inl e \<Rightarrow> (Inl (Aborted (Core e)), st)
             | Inr pb \<Rightarrow>
                 (case from_0x H ''proof'' (r_proof resp) of
                    Inl e \<Rightarrow> (Inl (Aborted (Core e)), st)
                  | Inr fb \<Rightarrow>
                      (Inr \<lparr>point = n_index n, partial = pb, p_proof = fb,
                            commitment = share_commitment n\<rparr>, st))))"

definition ask_node ::
  "'o kgc \<Rightarrow> hex_lib \<Rightarrow> 'w transport \<Rightarrow> 'w signer \<Rightarrow> decrypt_request \<Rightarrow> u64 list \<Rightarrow> node
     \<Rightarrow> 'w round_state \<Rightarrow> (round_end + partial_input) \<times> 'w round_state" where
  "ask_node K H T S req subs n st =
     (case lagrange_for K (n_index n) subs of
        Inl e \<Rightarrow> (Inl (Aborted (Core e)), st)
      | Inr lambda \<Rightarrow>
          (let (a, w1) = S (signing_request_for req subs n) (rs_world st) in
           case a of
             Inl e \<Rightarrow> (Inl (Aborted e), st\<lparr>rs_world := w1\<rparr>)
           | Inr au \<Rightarrow>
               (let (r, w2) = t_partial_decrypt T (n_endpoint n) (node_request H req subs lambda au) w1
                in take_response H req n r (st\<lparr>rs_world := w2\<rparr>))))"

fun collect ::
  "'o kgc \<Rightarrow> hex_lib \<Rightarrow> 'w transport \<Rightarrow> 'w signer \<Rightarrow> decrypt_request \<Rightarrow> u64 list \<Rightarrow> node list
     \<Rightarrow> partial_input list \<Rightarrow> 'w round_state \<Rightarrow> round_end \<times> 'w round_state" where
  "collect K H T S req subs [] acc st = (Collected acc, st)"
| "collect K H T S req subs (n # ns) acc st =
     (case ask_node K H T S req subs n st of
        (Inl fin, st') \<Rightarrow> (fin, st')
      | (Inr p, st') \<Rightarrow> collect K H T S req subs ns (acc @ [p]) st')"

section \<open>The quorum loop\<close>

definition open_collected ::
  "'o kgc \<Rightarrow> decrypt_request \<Rightarrow> partial_input list \<Rightarrow> sdk_error + plaintext" where
  "open_collected K req partials =
     map_err Core (open_secret K (d_shared_a req) (d_capsule req) (d_secret_id req) (d_epoch req)
       (d_binding_id req) (d_aad req) (d_ct req) partials)"

definition exhausted :: "decrypt_request \<Rightarrow> node list \<Rightarrow> 'w round_state \<Rightarrow> sdk_error" where
  "exhausted req available st =
     (case most_voted (rs_votes st) of
        Some (e, v) \<Rightarrow> EpochRotated e (d_epoch req)
      | None \<Rightarrow> QuorumUnavailable (d_threshold req) (length available) (rs_faults st))"

lemma choose_quorum_nodes: "choose_quorum pick available t w = (chosen, w') \<Longrightarrow> set chosen \<subseteq> set available"
  by (auto simp: choose_quorum_def Let_def split: prod.splits)

lemma take_response_faulty:
  "take_response H req n r st = (Inl (Faulty bad), st') \<Longrightarrow> bad = n_index n"
  by (auto simp: take_response_def Let_def split: sum.splits if_splits prod.splits)

lemma ask_node_faulty:
  "ask_node K H T S req subs n st = (Inl (Faulty bad), st') \<Longrightarrow> bad = n_index n"
  by (auto simp: ask_node_def Let_def split: sum.splits prod.splits dest: take_response_faulty)

lemma collect_faulty:
  "collect K H T S req subs ns acc st = (Faulty bad, st') \<Longrightarrow> bad \<in> n_index ` set ns"
  by (induction ns arbitrary: acc st)
    (auto split: prod.splits sum.splits dest: ask_node_faulty)

lemma drop_faulty:
  assumes "choose_quorum pick available t w = (chosen, w1)"
    and "collect K H T S req subs chosen acc st = (Faulty bad, st')"
  shows "length (filter (\<lambda>n. n_index n \<noteq> bad) available) < length available"
proof -
  from collect_faulty [OF assms(2)] choose_quorum_nodes [OF assms(1)]
  obtain n where "n \<in> set available" "n_index n = bad" by auto
  then show ?thesis by (intro length_filter_less) auto
qed

function quorum_loop ::
  "'o kgc \<Rightarrow> hex_lib \<Rightarrow> 'w transport \<Rightarrow> 'w signer \<Rightarrow> 'w picker \<Rightarrow> decrypt_request \<Rightarrow> node list
     \<Rightarrow> 'w round_state \<Rightarrow> (sdk_error + plaintext) \<times> 'w round_state" where
  "quorum_loop K H T S pick req available st =
     (if length available < d_threshold req then (Err (exhausted req available st), st)
      else
       (case choose_quorum pick available (d_threshold req) (rs_world st) of (chosen, w1) \<Rightarrow>
        (case collect K H T S req (map n_index chosen) chosen [] (st\<lparr>rs_world := w1\<rparr>) of
           (Aborted e, st') \<Rightarrow> (Err e, st')
         | (Faulty bad, st') \<Rightarrow>
             quorum_loop K H T S pick req (filter (\<lambda>n. n_index n \<noteq> bad) available) st'
         | (Collected partials, st') \<Rightarrow> (open_collected K req partials, st'))))"
  by pat_completeness auto
termination
  by (relation "measure (\<lambda>(K, H, T, S, pick, req, available, st). length available)")
    (auto dest: drop_faulty [OF sym sym])

definition decrypt ::
  "'o kgc \<Rightarrow> hex_lib \<Rightarrow> 'w transport \<Rightarrow> 'w signer \<Rightarrow> 'w picker \<Rightarrow> decrypt_request \<Rightarrow> 'w
     \<Rightarrow> (sdk_error + plaintext) \<times> 'w" where
  "decrypt K H T S pick req w =
     (let (act, fs, w1) = probe K H T (d_nodes req) w in
      if length act < d_threshold req
      then (Err (QuorumUnavailable (d_threshold req) (length act) fs), w1)
      else (let (r, st) = quorum_loop K H T S pick req act
                  \<lparr>rs_faults = fs, rs_votes = [], rs_world = w1\<rparr> in
            (r, rs_world st)))"

declare quorum_loop.simps [simp del]

section \<open>Reasoning about rounds\<close>

text \<open>One rule for a round and one for the loop: what every answer and every round keep.\<close>

lemma collect_rule:
  assumes "J acc st"
    and "\<And>n acc st p st'. n \<in> set ns \<Longrightarrow> J acc st \<Longrightarrow>
      ask_node K H T S req subs n st = (Inr p, st') \<Longrightarrow> J (acc @ [p]) st'"
    and "\<And>n acc st fin st'. n \<in> set ns \<Longrightarrow> J acc st \<Longrightarrow>
      ask_node K H T S req subs n st = (Inl fin, st') \<Longrightarrow> Q fin st'"
    and "\<And>acc st. J acc st \<Longrightarrow> Q (Collected acc) st"
    and "collect K H T S req subs ns acc st = (fin, st')"
  shows "Q fin st'"
  using assms
proof (induction ns arbitrary: acc st)
  case Nil
  then show ?case by auto
next
  case (Cons n ns)
  obtain x st1 where a: "ask_node K H T S req subs n st = (x, st1)" by fastforce
  show ?case
  proof (cases x)
    case (Inl f)
    with a Cons.prems(5) have "f = fin" "st1 = st'" by auto
    with a Inl Cons.prems(1) Cons.prems(3) [of n acc st f st1] show ?thesis by auto
  next
    case (Inr p)
    have J1: "J (acc @ [p]) st1" using Cons.prems(1) Cons.prems(2) [of n acc st p st1] a Inr by auto
    have C1: "collect K H T S req subs ns (acc @ [p]) st1 = (fin, st')"
      using Cons.prems(5) a Inr by simp
    show ?thesis
      by (rule Cons.IH [OF J1 _ _ Cons.prems(4) C1]) (auto intro: Cons.prems(2,3))
  qed
qed

lemma quorum_loop_rule:
  assumes "I av st"
    and "\<And>av st. I av st \<Longrightarrow> length av < d_threshold req \<Longrightarrow> Q (Err (exhausted req av st)) st"
    and "\<And>av st chosen w1 fin st'. I av st \<Longrightarrow> d_threshold req \<le> length av \<Longrightarrow>
      choose_quorum pick av (d_threshold req) (rs_world st) = (chosen, w1) \<Longrightarrow>
      collect K H T S req (map n_index chosen) chosen [] (st\<lparr>rs_world := w1\<rparr>) = (fin, st') \<Longrightarrow>
      (case fin of Aborted e \<Rightarrow> Q (Err e) st'
       | Faulty bad \<Rightarrow> I (filter (\<lambda>n. n_index n \<noteq> bad) av) st'
       | Collected ps \<Rightarrow> Q (open_collected K req ps) st')"
    and "quorum_loop K H T S pick req av st = (r, st'')"
  shows "Q r st''"
  using assms
proof (induction K H T S pick req av st rule: quorum_loop.induct)
  case (1 K H T S pick req av st)
  show ?case
  proof (cases "length av < d_threshold req")
    case True
    with "1.prems" show ?thesis by (auto simp: quorum_loop.simps [of K H T S pick req av])
  next
    case False
    obtain chosen w1 where c: "choose_quorum pick av (d_threshold req) (rs_world st) = (chosen, w1)"
      by fastforce
    obtain fin st1 where f:
      "collect K H T S req (map n_index chosen) chosen [] (st\<lparr>rs_world := w1\<rparr>) = (fin, st1)"
      by fastforce
    note step = "1.prems"(3) [OF "1.prems"(1) _ c f]
    show ?thesis
    proof (cases fin)
      case (Faulty bad)
      have "quorum_loop K H T S pick req (filter (\<lambda>n. n_index n \<noteq> bad) av) st1 = (r, st'')"
        using "1.prems"(4) False c f Faulty by (simp add: quorum_loop.simps [of K H T S pick req av])
      moreover have "I (filter (\<lambda>n. n_index n \<noteq> bad) av) st1" using step False Faulty by simp
      ultimately show ?thesis
        using "1.IH" [OF False c [symmetric] f [symmetric] Faulty] "1.prems"(2,3) by blast
    qed (use "1.prems"(4) False c f step in \<open>auto simp: quorum_loop.simps [of K H T S pick req av]\<close>)
  qed
qed

lemma decrypt_rule:
  assumes "\<And>act fs w1. probe K H T (d_nodes req) w = (act, fs, w1) \<Longrightarrow> length act < d_threshold req \<Longrightarrow>
      Q (Err (QuorumUnavailable (d_threshold req) (length act) fs)) w1"
    and "\<And>act fs w1. probe K H T (d_nodes req) w = (act, fs, w1) \<Longrightarrow> d_threshold req \<le> length act \<Longrightarrow>
      I act \<lparr>rs_faults = fs, rs_votes = [], rs_world = w1\<rparr>"
    and "\<And>av st. I av st \<Longrightarrow> length av < d_threshold req \<Longrightarrow> Q (Err (exhausted req av st)) (rs_world st)"
    and "\<And>av st chosen w1 fin st'. I av st \<Longrightarrow> d_threshold req \<le> length av \<Longrightarrow>
      choose_quorum pick av (d_threshold req) (rs_world st) = (chosen, w1) \<Longrightarrow>
      collect K H T S req (map n_index chosen) chosen [] (st\<lparr>rs_world := w1\<rparr>) = (fin, st') \<Longrightarrow>
      (case fin of Aborted e \<Rightarrow> Q (Err e) (rs_world st')
       | Faulty bad \<Rightarrow> I (filter (\<lambda>n. n_index n \<noteq> bad) av) st'
       | Collected ps \<Rightarrow> Q (open_collected K req ps) (rs_world st'))"
    and "decrypt K H T S pick req w = (r, w')"
  shows "Q r w'"
proof -
  obtain act fs w1 where p: "probe K H T (d_nodes req) w = (act, fs, w1)"
    using prod_cases3 by blast
  show ?thesis
  proof (cases "length act < d_threshold req")
    case True
    then show ?thesis using assms(1) [OF p] assms(5) p by (simp add: decrypt_def)
  next
    case False
    then obtain st'' where "quorum_loop K H T S pick req act
        \<lparr>rs_faults = fs, rs_votes = [], rs_world = w1\<rparr> = (r, st'')" "w' = rs_world st''"
      using assms(5) p by (auto simp: decrypt_def split: prod.splits)
    then show ?thesis
      using quorum_loop_rule [where Q = "\<lambda>r st. Q r (rs_world st)" and I = I, OF _ assms(3,4)]
        assms(2) [OF p] False by auto
  qed
qed

section \<open>What one answer does\<close>

text \<open>A vote is only counted for an epoch that a node served.\<close>

definition serves :: "'w transport \<Rightarrow> decrypt_request \<Rightarrow> node \<Rightarrow> u32 \<Rightarrow> bool" where
  "serves T req n ep \<longleftrightarrow> ep \<noteq> 0 \<and> ep \<noteq> d_epoch req \<and>
     (\<exists>rq w w' resp. t_partial_decrypt T (n_endpoint n) rq w = (Ok resp, w') \<and> r_served_epoch resp = ep)"

lemma ask_node_partial:
  "ask_node K H T S req subs n st = (Inr p, st') \<Longrightarrow>
     point p = n_index n \<and> commitment p = share_commitment n \<and>
     rs_faults st' = rs_faults st \<and> rs_votes st' = rs_votes st"
  by (auto simp: ask_node_def take_response_def Let_def split: sum.splits if_splits prod.splits)

lemma ask_node_drops:
  "ask_node K H T S req subs n st = (Inl (Faulty b), st') \<Longrightarrow>
     b = n_index n \<and> (\<exists>f. f_index f = n_index n \<and> rs_faults st' = rs_faults st @ [f])"
  by (auto simp: ask_node_def take_response_def Let_def fault_def epoch_fault_def
      split: sum.splits if_splits prod.splits)

lemma ask_node_aborts:
  assumes "ask_node K H T S req subs n st = (Inl (Aborted e), st')"
  shows "(\<exists>c. e = Core c) \<or> (\<exists>sr w w'. S sr w = (Err e, w')) \<or>
    (\<exists>ep. serves T req n ep \<and> e = EpochRotated ep (d_epoch req))"
  using assms unfolding serves_def
  by (auto simp: ask_node_def take_response_def Let_def split: sum.splits if_splits prod.splits)
    blast+

lemma ask_node_no_collect: "ask_node K H T S req subs n st \<noteq> (Inl (Collected ps), st')"
  by (auto simp: ask_node_def take_response_def Let_def split: sum.splits if_splits prod.splits)

lemma add_vote_keys: "fst ` set (snd (add_vote e vs)) = insert e (fst ` set vs)"
  by (induction e vs rule: add_vote.induct) (simp_all add: Let_def insert_commute case_prod_beta)

lemma most_voted_mem: "most_voted vs = Some (k, v) \<Longrightarrow> (k, v) \<in> set vs"
  by (induction vs arbitrary: k v rule: most_voted.induct) (auto split: option.splits if_splits)

lemma most_voted_None: "most_voted vs = None \<longleftrightarrow> vs = []"
  by (induction vs rule: most_voted.induct) (auto split: option.splits if_splits)

lemma take_response_votes:
  "take_response H req n r st = (Inl (Faulty b), st') \<Longrightarrow>
     rs_votes st' = rs_votes st \<or>
     (\<exists>resp. r = Ok resp \<and> r_served_epoch resp \<noteq> 0 \<and> r_served_epoch resp \<noteq> d_epoch req \<and>
        fst (add_vote (r_served_epoch resp) (rs_votes st)) < d_threshold req \<and>
        rs_votes st' = snd (add_vote (r_served_epoch resp) (rs_votes st)))"
  by (auto simp: take_response_def Let_def case_prod_beta split: sum.splits if_splits)

lemma ask_node_votes:
  "ask_node K H T S req subs n st = (Inl (Faulty b), st') \<Longrightarrow>
     rs_votes st' = rs_votes st \<or>
     (\<exists>ep. serves T req n ep \<and> fst (add_vote ep (rs_votes st)) < d_threshold req \<and>
        rs_votes st' = snd (add_vote ep (rs_votes st)))"
  unfolding serves_def
  by (auto simp: ask_node_def Let_def split: sum.splits prod.splits dest!: take_response_votes)
    blast

lemma collect_partials:
  "collect K H T S req subs ns acc st = (Collected ps, st') \<Longrightarrow>
     map point ps = map point acc @ map n_index ns \<and>
     map commitment ps = map commitment acc @ map share_commitment ns"
  by (induction ns arbitrary: acc st)
    (auto split: prod.splits sum.splits dest: ask_node_partial simp: ask_node_no_collect)

lemma collect_aborts:
  assumes "collect K H T S req subs ns acc st = (Aborted e, st')"
  shows "\<exists>n \<in> set ns. (\<exists>c. e = Core c) \<or> (\<exists>sr w w'. S sr w = (Err e, w')) \<or>
     (\<exists>ep. serves T req n ep \<and> e = EpochRotated ep (d_epoch req))"
proof -
  have "case Aborted e of Aborted e \<Rightarrow> (\<exists>n \<in> set ns. (\<exists>c. e = Core c) \<or> (\<exists>sr w w'. S sr w = (Err e, w')) \<or>
     (\<exists>ep. serves T req n ep \<and> e = EpochRotated ep (d_epoch req))) | _ \<Rightarrow> True"
    by (rule collect_rule [where J = "\<lambda>_ _. True", OF _ _ _ _ assms])
      (auto split: round_end.splits dest!: ask_node_aborts)
  then show ?thesis by simp
qed

lemma collect_drops:
  assumes "collect K H T S req subs ns acc st = (Faulty b, st')"
  shows "\<exists>n \<in> set ns. b = n_index n \<and> (\<exists>f. f_index f = b \<and> rs_faults st' = rs_faults st @ [f]) \<and>
    (rs_votes st' = rs_votes st \<or>
     (\<exists>ep. serves T req n ep \<and> fst (add_vote ep (rs_votes st)) < d_threshold req \<and>
        rs_votes st' = snd (add_vote ep (rs_votes st))))"
proof -
  let ?J = "\<lambda>_ s. rs_faults s = rs_faults st \<and> rs_votes s = rs_votes st"
  let ?Q = "\<lambda>fin st'. case fin of Faulty b \<Rightarrow> (\<exists>n \<in> set ns. b = n_index n \<and>
      (\<exists>f. f_index f = b \<and> rs_faults st' = rs_faults st @ [f]) \<and>
      (rs_votes st' = rs_votes st \<or>
       (\<exists>ep. serves T req n ep \<and> fst (add_vote ep (rs_votes st)) < d_threshold req \<and>
          rs_votes st' = snd (add_vote ep (rs_votes st))))) | _ \<Rightarrow> True"
  have "?Q (Faulty b) st'"
  proof (rule collect_rule [where J = ?J and Q = ?Q, OF _ _ _ _ assms])
    fix n acc s fin s'
    assume n: "n \<in> set ns" and J: "?J acc s"
      and a: "ask_node K H T S req subs n s = (Inl fin, s')"
    show "?Q fin s'"
    proof (cases fin)
      case (Faulty b)
      with ask_node_drops [of K H T S req subs n s b s'] ask_node_votes [of K H T S req subs n s b s'] a J n
      show ?thesis by simp blast
    qed simp_all
  qed (auto dest: ask_node_partial)
  then show ?thesis by simp
qed

lemma choose_quorum_sorted:
  assumes "picker_law pick" "choose_quorum pick av t w = (chosen, w')" "t \<le> length av"
  shows "length chosen = t \<and> sorted (map (\<lambda>n. unat (n_index n)) chosen) \<and>
    (distinct (map n_index av) \<longrightarrow> distinct (map n_index chosen))"
proof -
  obtain ix w'' where ix: "pick (length av) t w = (ix, w'')" by fastforce
  have p: "distinct ix" "set ix \<subseteq> {..<length av}" "length ix = t"
    using assms(1,3) ix unfolding picker_law_def by (metis Let_def fst_conv min.absorb1)+
  then have f: "filter (\<lambda>i. i < length av) ix = ix" by (auto simp: filter_id_conv)
  have c: "chosen = sort_key (\<lambda>n. unat (n_index n)) (map (nth av) ix)"
    using assms(2) ix by (simp add: choose_quorum_def f)
  have "distinct (map n_index chosen)" if d: "distinct (map n_index av)"
  proof -
    have "distinct (map (nth (map n_index av)) ix)"
      using p(1,2) inj_on_nth [OF d, of "set ix"] by (auto simp: distinct_map)
    moreover have "map (nth (map n_index av)) ix = map n_index (map (nth av) ix)"
      using p(2) by auto
    ultimately have "distinct (map n_index (map (nth av) ix))" by simp
    moreover have "mset (map n_index chosen) = mset (map n_index (map (nth av) ix))"
      by (simp add: c multiset.map_comp)
    ultimately show ?thesis by (metis mset_eq_imp_distinct_iff)
  qed
  with c p show ?thesis by simp
qed

lemma probe_nodes:
  "probe K H T ns w = (act, fs, w') \<Longrightarrow> set act \<subseteq> set ns"
  by (induction ns arbitrary: w act fs w')
    (auto simp: Let_def split: prod.splits option.splits, blast+)

lemma probe_verdict_index: "probe_verdict K H n r = Some f \<Longrightarrow> f_index f = n_index n"
  by (auto simp: probe_verdict_def fault_def split: sum.splits if_splits)

lemma probe_accounts:
  "probe K H T ns w = (act, fs, w') \<Longrightarrow>
     mset (map n_index act) + mset (map f_index fs) = mset (map n_index ns)"
proof (induction ns arbitrary: w act fs w')
  case (Cons n ns)
  then show ?case
    by (fastforce simp: Let_def split: prod.splits option.splits dest: probe_verdict_index)
qed simp

lemma open_collected_Ok:
  "open_collected K req ps = Ok pt \<longleftrightarrow>
     open_secret K (d_shared_a req) (d_capsule req) (d_secret_id req) (d_epoch req)
       (d_binding_id req) (d_aad req) (d_ct req) ps = Ok pt"
  by (simp add: open_collected_def res_simps)

lemma open_collected_Err: "open_collected K req ps = Err e \<Longrightarrow> \<exists>c. e = Core c"
  by (auto simp: open_collected_def res_simps)

lemma drop_index:
  "distinct (map n_index av) \<Longrightarrow> n \<in> set av \<Longrightarrow>
     filter (\<lambda>m. n_index m \<noteq> n_index n) av = remove1 n av"
proof (induction av)
  case (Cons a av)
  show ?case
  proof (cases "a = n")
    case True
    with Cons.prems have "\<forall>m \<in> set av. n_index m \<noteq> n_index n" by (auto simp: image_iff)
    with True show ?thesis by (simp add: filter_id_conv)
  next
    case False
    with Cons show ?thesis by auto
  qed
qed simp

lemma remove_index:
  assumes "distinct (map n_index av)" "n \<in> set av"
  shows "mset (map n_index av) =
       add_mset (n_index n) (mset (map n_index (filter (\<lambda>m. n_index m \<noteq> n_index n) av)))"
proof -
  have "mset av = add_mset n (mset (remove1 n av))" using assms(2) by simp
  then have "mset (map n_index av) = add_mset (n_index n) (mset (map n_index (remove1 n av)))"
    by (metis image_mset_add_mset mset_map)
  then show ?thesis by (simp only: drop_index [OF assms])
qed

text \<open>A signer fails with its own errors: a key error or the signer variant.\<close>

definition signer_law :: "'w signer \<Rightarrow> bool" where
  "signer_law S \<longleftrightarrow>
     (\<forall>sr w e w'. S sr w = (Err e, w') \<longrightarrow> (\<exists>k. e = Key k) \<or> (\<exists>d. e = SignerError d))"

lemma collect_abort_kinds:
  assumes "signer_law S" "collect K H T S req subs ns acc st = (Aborted e, st')"
  shows "(\<exists>c. e = Core c) \<or> (\<exists>k. e = Key k) \<or> (\<exists>d. e = SignerError d) \<or>
    (\<exists>n \<in> set ns. \<exists>ep. serves T req n ep \<and> e = EpochRotated ep (d_epoch req))"
  using collect_aborts [OF assms(2)] assms(1) unfolding signer_law_def by blast

lemma probe_ignores_partial_decrypt:
  "probe K H (T\<lparr>t_partial_decrypt := g\<rparr>) ns w = probe K H T ns w"
  by (induction ns arbitrary: w) (simp_all add: Let_def)

section \<open>Availability\<close>

text \<open>
  A node that is always active and always answers with hex for the right epoch; and what the
  rest of the environment must do: the signer signs, Lagrange coefficients serialize, and no
  answer carries a partial that is not hex.
\<close>

definition honest :: "'o kgc \<Rightarrow> hex_lib \<Rightarrow> 'w transport \<Rightarrow> decrypt_request \<Rightarrow> node \<Rightarrow> bool" where
  "honest K H T req n \<longleftrightarrow>
     (\<forall>w. \<exists>h w'. t_health T (n_endpoint n) w = (Ok h, w') \<and>
        speaks_our_protocol K (h_protocol h) \<and> is_active h) \<and>
     (\<forall>rq w. \<exists>resp w'. t_partial_decrypt T (n_endpoint n) rq w = (Ok resp, w') \<and>
        (r_served_epoch resp = 0 \<or> r_served_epoch resp = d_epoch req))"

definition working :: "'o kgc \<Rightarrow> hex_lib \<Rightarrow> 'w transport \<Rightarrow> 'w signer \<Rightarrow> bool" where
  "working K H T S \<longleftrightarrow>
     (\<forall>sr w. \<exists>a w'. S sr w = (Ok a, w')) \<and> (\<forall>p ps. \<exists>l. lagrange_for K p ps = Ok l) \<and>
     (\<forall>ep rq w resp w'. t_partial_decrypt T ep rq w = (Ok resp, w') \<longrightarrow>
        (\<exists>b. from_0x H ''partial'' (r_partial resp) = Ok b) \<and>
        (\<exists>b. from_0x H ''proof'' (r_proof resp) = Ok b))"

text \<open>
  The same for one request: only an answer for its epoch is ever decoded, and only a node that
  some probe saw active is ever asked.
\<close>

definition seen_active :: "'o kgc \<Rightarrow> 'w transport \<Rightarrow> node \<Rightarrow> bool" where
  "seen_active K T n \<longleftrightarrow>
     (\<exists>w h w'. t_health T (n_endpoint n) w = (Ok h, w') \<and>
        speaks_our_protocol K (h_protocol h) \<and> is_active h)"

definition working_for ::
  "'o kgc \<Rightarrow> hex_lib \<Rightarrow> 'w transport \<Rightarrow> 'w signer \<Rightarrow> decrypt_request \<Rightarrow> bool" where
  "working_for K H T S req \<longleftrightarrow>
     (\<forall>sr w. \<exists>a w'. S sr w = (Ok a, w')) \<and> (\<forall>p ps. \<exists>l. lagrange_for K p ps = Ok l) \<and>
     (\<forall>n \<in> set (d_nodes req). seen_active K T n \<longrightarrow> (\<forall>rq w resp w'.
        t_partial_decrypt T (n_endpoint n) rq w = (Ok resp, w') \<longrightarrow>
        r_served_epoch resp \<in> {0, d_epoch req} \<longrightarrow>
        (\<exists>b. from_0x H ''partial'' (r_partial resp) = Ok b) \<and>
        (\<exists>b. from_0x H ''proof'' (r_proof resp) = Ok b)))"

lemma working_for: "working K H T S \<Longrightarrow> working_for K H T S req"
  unfolding working_def working_for_def by blast

lemma probe_seen_active: "probe K H T ns w = (act, fs, w') \<Longrightarrow> n \<in> set act \<Longrightarrow> seen_active K T n"
proof (induction ns arbitrary: w act fs w')
  case (Cons m ns)
  obtain r w1 where r: "t_health T (n_endpoint m) w = (r, w1)" by fastforce
  obtain act1 fs1 w2 where p: "probe K H T ns w1 = (act1, fs1, w2)" using prod_cases3 by blast
  have "seen_active K T m" if "probe_verdict K H m r = None"
    using that r by (auto simp: probe_verdict_def seen_active_def split: sum.splits if_splits)
  with Cons.prems Cons.IH [OF p] r p show ?case by (auto split: option.splits)
qed simp

definition total_votes :: "votes \<Rightarrow> nat" where
  "total_votes vs = sum_list (map snd vs)"

lemma add_vote_total:
  "total_votes (snd (add_vote e vs)) = Suc (total_votes vs) \<and> fst (add_vote e vs) \<le> Suc (total_votes vs)"
  by (induction e vs rule: add_vote.induct) (auto simp: total_votes_def Let_def split: prod.splits)

lemma ask_node_working:
  assumes "working_for K H T S req" "n \<in> set (d_nodes req) \<and> seen_active K T n"
    and "ask_node K H T S req subs n st = (Inl fin, st')"
  shows "\<not> honest K H T req n \<and>
    (case fin of Aborted e \<Rightarrow> d_threshold req \<le> Suc (total_votes (rs_votes st))
     | Faulty b \<Rightarrow> b = n_index n \<and> total_votes (rs_votes st') \<le> Suc (total_votes (rs_votes st))
     | Collected ps \<Rightarrow> False)"
proof -
  from assms(1) obtain lambda where l: "lagrange_for K (n_index n) subs = Ok lambda"
    unfolding working_for_def by blast
  from assms(1) obtain au w1 where a: "S (signing_request_for req subs n) (rs_world st) = (Ok au, w1)"
    unfolding working_for_def by blast
  obtain r w2 where r: "t_partial_decrypt T (n_endpoint n) (node_request H req subs lambda au) w1 = (r, w2)"
    by fastforce
  have t: "take_response H req n r (st\<lparr>rs_world := w2\<rparr>) = (Inl fin, st')"
    using assms(3) l a r by (simp add: ask_node_def)
  show ?thesis
  proof (cases r)
    case (Inl e)
    then have "\<not> honest K H T req n" using r unfolding honest_def by (metis Pair_inject sum.distinct(1))
    with t Inl show ?thesis by (auto simp: take_response_def)
  next
    case (Inr resp)
    have hex: "\<exists>pb fb. from_0x H ''partial'' (r_partial resp) = Ok pb \<and> from_0x H ''proof'' (r_proof resp) = Ok fb"
      if "r_served_epoch resp \<in> {0, d_epoch req}"
      using assms(1,2) r Inr that unfolding working_for_def by blast
    have ep: "r_served_epoch resp \<noteq> 0 \<and> r_served_epoch resp \<noteq> d_epoch req"
    proof (rule ccontr)
      assume "\<not> ?thesis"
      then have "r_served_epoch resp \<in> {0, d_epoch req}" by blast
      with hex t Inr show False by (auto simp: take_response_def)
    qed
    then have "\<not> honest K H T req n" using r Inr unfolding honest_def by (metis Pair_inject sum.inject(2))
    with t Inr ep add_vote_total [of "r_served_epoch resp" "rs_votes st"] show ?thesis
      by (auto simp: take_response_def Let_def case_prod_beta split: if_splits)
  qed
qed

lemma collect_working:
  assumes "working_for K H T S req" "\<forall>n \<in> set ns. n \<in> set (d_nodes req) \<and> seen_active K T n"
    and "collect K H T S req subs ns acc st = (fin, st')"
  shows "case fin of Aborted e \<Rightarrow> (\<exists>n \<in> set ns. \<not> honest K H T req n) \<and>
       d_threshold req \<le> Suc (total_votes (rs_votes st))
     | Faulty b \<Rightarrow> (\<exists>n \<in> set ns. \<not> honest K H T req n \<and> b = n_index n) \<and>
       total_votes (rs_votes st') \<le> Suc (total_votes (rs_votes st))
     | Collected ps \<Rightarrow> length ps = length acc + length ns"
  using assms(2,3)
proof (induction ns arbitrary: acc st)
  case (Cons n ns)
  obtain x st1 where a: "ask_node K H T S req subs n st = (x, st1)" by fastforce
  show ?case
  proof (cases x)
    case (Inl f)
    with Cons.prems a have "f = fin" "st1 = st'" "n \<in> set (d_nodes req) \<and> seen_active K T n" by auto
    with ask_node_working [OF assms(1), of n subs st f st1] a Inl show ?thesis
      by (auto split: round_end.splits)
  next
    case (Inr p)
    have v: "rs_votes st1 = rs_votes st" using ask_node_partial a Inr by blast
    from Cons.prems a Inr have "collect K H T S req subs ns (acc @ [p]) st1 = (fin, st')" by simp
    from Cons.IH [OF _ this] Cons.prems(1) v show ?thesis by (auto split: round_end.splits)
  qed
qed auto

lemma probe_honest:
  "probe K H T ns w = (act, fs, w') \<Longrightarrow>
     filter (honest K H T req) act = filter (honest K H T req) ns \<and>
     length (filter (\<lambda>n. \<not> honest K H T req n) act) \<le> length (filter (\<lambda>n. \<not> honest K H T req n) ns)"
proof (induction ns arbitrary: w act fs w')
  case (Cons n ns)
  obtain r w1 where r: "t_health T (n_endpoint n) w = (r, w1)" by fastforce
  obtain act1 fs1 w2 where p: "probe K H T ns w1 = (act1, fs1, w2)" using prod_cases3 by blast
  note IH = Cons.IH [OF p]
  show ?case
  proof (cases "probe_verdict K H n r")
    case None
    with Cons.prems r p have "act = n # act1" by simp
    with IH show ?thesis by auto
  next
    case (Some f)
    with Cons.prems r p have a: "act = act1" by simp
    have "\<not> honest K H T req n"
    proof
      assume "honest K H T req n"
      then obtain h w' where "t_health T (n_endpoint n) w = (Ok h, w')"
        "speaks_our_protocol K (h_protocol h)" "is_active h"
        unfolding honest_def by blast
      with r Some show False by (auto simp: probe_verdict_def)
    qed
    with IH a show ?thesis by auto
  qed
qed simp

lemma probe_distinct:
  assumes "probe K H T ns w = (act, fs, w')" "distinct (map n_index ns)"
  shows "distinct (map n_index act) \<and> distinct (map f_index fs)"
proof -
  have "mset (map n_index act @ map f_index fs) = mset (map n_index ns)"
    using probe_accounts [OF assms(1)] by simp
  then have "distinct (map n_index act @ map f_index fs)"
    using assms(2) mset_eq_imp_distinct_iff by metis
  then show ?thesis by simp
qed

section \<open>Invariants of the loop\<close>

text \<open>Every node of the request is available or has a fault.\<close>

definition accounted :: "decrypt_request \<Rightarrow> node list \<Rightarrow> node_fault list \<Rightarrow> bool" where
  "accounted req av fs \<longleftrightarrow>
     mset (map n_index av) + mset (map f_index fs) = mset (map n_index (d_nodes req))"

definition accounted_end :: "decrypt_request \<Rightarrow> sdk_error + plaintext \<Rightarrow> bool" where
  "accounted_end req r \<longleftrightarrow>
     (\<forall>k a fs. r = Err (QuorumUnavailable k a fs) \<longrightarrow>
        (\<exists>av. accounted req av fs \<and> k = d_threshold req \<and> a = length av \<and> length av < d_threshold req))"

lemma accounted_distinct:
  assumes "distinct (map n_index (d_nodes req))" "accounted req av fs"
  shows "distinct (map n_index av)" "distinct (map f_index fs)"
proof -
  from assms(2) have "mset (map n_index av @ map f_index fs) = mset (map n_index (d_nodes req))"
    by (simp add: accounted_def)
  then have "distinct (map n_index av @ map f_index fs)"
    using assms(1) mset_eq_imp_distinct_iff by metis
  then show "distinct (map n_index av)" "distinct (map f_index fs)" by simp_all
qed

lemma accounted_sizes:
  assumes "accounted req av fs"
  shows "length av + length fs = length (d_nodes req) \<and> f_index ` set fs \<subseteq> n_index ` set (d_nodes req)"
  using arg_cong [OF assms [unfolded accounted_def], of size]
    arg_cong [OF assms [unfolded accounted_def], of set_mset] by auto

lemma accounted_round:
  assumes "signer_law S" "distinct (map n_index (d_nodes req))"
    and A: "accounted req av (rs_faults st)" and t: "d_threshold req \<le> length av"
    and ch: "choose_quorum pick av (d_threshold req) (rs_world st) = (chosen, w1)"
    and co: "collect K H T S req (map n_index chosen) chosen [] (st\<lparr>rs_world := w1\<rparr>) = (fin, st')"
  shows "case fin of Aborted e \<Rightarrow> accounted_end req (Err e)
     | Faulty bad \<Rightarrow> accounted req (filter (\<lambda>n. n_index n \<noteq> bad) av) (rs_faults st')
     | Collected ps \<Rightarrow> accounted_end req (open_collected K req ps)"
proof (cases fin)
  case (Aborted e)
  then show ?thesis
    using collect_abort_kinds [OF assms(1) co [unfolded Aborted]] by (auto simp: accounted_end_def)
next
  case (Faulty bad)
  from collect_drops [OF co [unfolded Faulty]] obtain n f where n: "n \<in> set chosen" "bad = n_index n"
    "f_index f = bad" "rs_faults st' = rs_faults st @ [f]" by auto
  then have "n \<in> set av" using choose_quorum_nodes [OF ch] by auto
  from remove_index [OF accounted_distinct(1) [OF assms(2) A] this] A n show ?thesis
    using Faulty by (simp add: accounted_def)
next
  case (Collected ps)
  then show ?thesis using open_collected_Err by (fastforce simp: accounted_end_def)
qed

text \<open>
  A full quorum is still within reach: enough honest nodes are left, and the votes for other
  epochs together with the nodes that could still vote stay below the threshold.
\<close>

definition within_reach ::
  "'o kgc \<Rightarrow> hex_lib \<Rightarrow> 'w transport \<Rightarrow> decrypt_request \<Rightarrow> node list \<Rightarrow> 'w round_state \<Rightarrow> bool" where
  "within_reach K H T req av st \<longleftrightarrow>
     set av \<subseteq> set (d_nodes req) \<and> (\<forall>n \<in> set av. seen_active K T n) \<and> distinct (map n_index av) \<and>
     d_threshold req \<le> length (filter (honest K H T req) av) \<and>
     total_votes (rs_votes st) + length (filter (\<lambda>n. \<not> honest K H T req n) av) < d_threshold req"

text \<open>
  Where a collected partial comes from: the node answered a request made for this subset, with
  its own Lagrange coefficient, for the epoch of the request or without naming one, and the
  answer decodes to the partial and its proof.
\<close>

definition answered ::
  "'o kgc \<Rightarrow> hex_lib \<Rightarrow> 'w transport \<Rightarrow> decrypt_request \<Rightarrow> u64 list \<Rightarrow> node \<Rightarrow> partial_input \<Rightarrow> bool" where
  "answered K H T req subs n p \<longleftrightarrow>
     point p = n_index n \<and> commitment p = share_commitment n \<and>
     (\<exists>lambda au w resp w'. lagrange_for K (n_index n) subs = Ok lambda \<and>
        t_partial_decrypt T (n_endpoint n) (node_request H req subs lambda au) w = (Ok resp, w') \<and>
        r_served_epoch resp \<in> {0, d_epoch req} \<and>
        from_0x H ''partial'' (r_partial resp) = Ok (partial p) \<and>
        from_0x H ''proof'' (r_proof resp) = Ok (p_proof p))"

lemma ask_node_answered:
  assumes "ask_node K H T S req subs n st = (Inr p, st')"
  shows "answered K H T req subs n p"
proof -
  from assms obtain lambda au w1 r w2 where
    "lagrange_for K (n_index n) subs = Ok lambda"
    "t_partial_decrypt T (n_endpoint n) (node_request H req subs lambda au) w1 = (r, w2)"
    "take_response H req n r (st\<lparr>rs_world := w2\<rparr>) = (Inr p, st')"
    by (auto simp: ask_node_def Let_def split: sum.splits prod.splits)
  then show ?thesis
    unfolding answered_def
    by (auto simp: take_response_def Let_def split: sum.splits if_splits prod.splits) blast+
qed

lemma collect_answered:
  assumes "collect K H T S req subs ns [] st = (Collected ps, st')"
  shows "\<forall>p \<in> set ps. \<exists>n \<in> set ns. answered K H T req subs n p"
proof -
  let ?J = "\<lambda>acc _. \<forall>p \<in> set acc. \<exists>n \<in> set ns. answered K H T req subs n p"
  let ?Q = "\<lambda>fin _. \<forall>ps. fin = Collected ps \<longrightarrow> (\<forall>p \<in> set ps. \<exists>n \<in> set ns. answered K H T req subs n p)"
  have "?Q (Collected ps) st'"
    by (rule collect_rule [where J = ?J and Q = ?Q, OF _ _ _ _ assms])
      (auto simp: ask_node_no_collect dest: ask_node_answered)
  then show ?thesis by simp
qed

text \<open>A quorum of answers of nodes of the request, in index order, and a run that ended by opening one.\<close>

definition quorum_of ::
  "'o kgc \<Rightarrow> hex_lib \<Rightarrow> 'w transport \<Rightarrow> decrypt_request \<Rightarrow> partial_input list \<Rightarrow> bool" where
  "quorum_of K H T req ps \<longleftrightarrow>
     length ps = d_threshold req \<and> sorted (map (\<lambda>p. unat (point p)) ps) \<and>
     (\<forall>p \<in> set ps. \<exists>n \<in> set (d_nodes req). answered K H T req (map point ps) n p)"

definition opened ::
  "'o kgc \<Rightarrow> hex_lib \<Rightarrow> 'w transport \<Rightarrow> decrypt_request \<Rightarrow> sdk_error + plaintext \<Rightarrow> bool" where
  "opened K H T req r \<longleftrightarrow>
     (\<exists>ps. r = open_collected K req ps \<and> quorum_of K H T req ps \<and> distinct (map point ps) \<and>
        (\<forall>p \<in> set ps. \<exists>n \<in> set (d_nodes req). seen_active K T n \<and> answered K H T req (map point ps) n p))"

lemma collected_from:
  assumes ch: "choose_quorum pick av t w = (chosen, w1)"
    and co: "collect K H T S req (map n_index chosen) chosen [] st = (Collected ps, st')"
  shows "\<forall>p \<in> set ps. \<exists>n \<in> set av. answered K H T req (map point ps) n p"
proof -
  have m: "map point ps = map n_index chosen" using collect_partials [OF co] by simp
  show ?thesis using collect_answered [OF co] choose_quorum_nodes [OF ch] unfolding m by blast
qed

lemma collected_quorum:
  assumes "picker_law pick" and "set av \<subseteq> set (d_nodes req)" and "d_threshold req \<le> length av"
    and ch: "choose_quorum pick av (d_threshold req) (rs_world st) = (chosen, w1)"
    and co: "collect K H T S req (map n_index chosen) chosen [] (st\<lparr>rs_world := w1\<rparr>) = (Collected ps, st')"
  shows "quorum_of K H T req ps \<and> (distinct (map n_index av) \<longrightarrow> distinct (map point ps))"
proof -
  from choose_quorum_sorted [OF assms(1) ch assms(3)] have c: "length chosen = d_threshold req"
    "sorted (map (\<lambda>n. unat (n_index n)) chosen)"
    "distinct (map n_index av) \<longrightarrow> distinct (map n_index chosen)" by simp_all
  from collect_partials [OF co] have m: "map point ps = map n_index chosen" by simp
  then have "map (\<lambda>p. unat (point p)) ps = map (\<lambda>n. unat (n_index n)) chosen"
    using map_map [of unat point ps] map_map [of unat n_index chosen] by (simp add: comp_def)
  moreover have "length ps = length chosen" using m map_eq_imp_length_eq by metis
  moreover have "\<forall>p \<in> set ps. \<exists>n \<in> set (d_nodes req). answered K H T req (map point ps) n p"
    using collect_answered [OF co] choose_quorum_nodes [OF ch] assms(2) unfolding m by blast
  ultimately show ?thesis using c m by (simp add: quorum_of_def)
qed

lemma within_reach_drop:
  assumes I: "within_reach K H T req av st" and n: "n \<in> set av" "\<not> honest K H T req n"
    and v: "total_votes (rs_votes st') \<le> Suc (total_votes (rs_votes st))"
  shows "within_reach K H T req (filter (\<lambda>m. n_index m \<noteq> n_index n) av) st'"
proof -
  let ?h = "honest K H T req"
  have f: "filter (\<lambda>m. n_index m \<noteq> n_index n) av = remove1 n av"
    using drop_index [OF _ n(1)] I by (simp add: within_reach_def)
  have "filter ?h (remove1 n av) = filter ?h av" using n(2) by (simp add: filter_remove1)
  moreover have "n \<in> set (filter (\<lambda>n. \<not> ?h n) av)" using n by simp
  then have "length (filter (\<lambda>n. \<not> ?h n) (remove1 n av)) < length (filter (\<lambda>n. \<not> ?h n) av)"
    by (metis filter_remove1 length_remove1 diff_less length_pos_if_in_set zero_less_one)
  moreover have "distinct (map n_index (remove1 n av))"
    using I f unfolding within_reach_def by (metis distinct_map_filter)
  moreover have "set (remove1 n av) \<subseteq> set (d_nodes req)" "\<forall>m \<in> set (remove1 n av). seen_active K T m"
    using I set_remove1_subset unfolding within_reach_def by fast+
  ultimately show ?thesis using I v by (simp add: f within_reach_def)
qed

lemma within_reach_round:
  assumes "working_for K H T S req" "picker_law pick"
    and I: "within_reach K H T req av st" and t: "d_threshold req \<le> length av"
    and ch: "choose_quorum pick av (d_threshold req) (rs_world st) = (chosen, w1)"
    and co: "collect K H T S req (map n_index chosen) chosen [] (st\<lparr>rs_world := w1\<rparr>) = (fin, st')"
  shows "case fin of Aborted e \<Rightarrow> opened K H T req (Err e)
     | Faulty bad \<Rightarrow> within_reach K H T req (filter (\<lambda>n. n_index n \<noteq> bad) av) st'
     | Collected ps \<Rightarrow> opened K H T req (open_collected K req ps)"
proof (cases fin)
  note sub = choose_quorum_nodes [OF ch]
  have "\<forall>n \<in> set chosen. n \<in> set (d_nodes req) \<and> seen_active K T n"
    using sub I unfolding within_reach_def by blast
  note cw = collect_working [OF assms(1) this co]
  {
    case (Aborted e)
    with cw sub obtain n where "n \<in> set av" "\<not> honest K H T req n" by auto
    then have "filter (\<lambda>n. \<not> honest K H T req n) av \<noteq> []" by (auto simp: filter_empty_conv)
    then have "1 \<le> length (filter (\<lambda>n. \<not> honest K H T req n) av)"
      by (cases "filter (\<lambda>n. \<not> honest K H T req n) av") simp_all
    with I cw Aborted show ?thesis by (simp add: within_reach_def)
  next
    case (Faulty bad)
    with cw sub obtain n where "n \<in> set av" "\<not> honest K H T req n" "bad = n_index n"
      "total_votes (rs_votes st') \<le> Suc (total_votes (rs_votes st))" by auto
    then show ?thesis using within_reach_drop [OF I] Faulty by simp
  next
    case (Collected ps)
    with collected_quorum [OF assms(2) _ t ch, of K H T S ps st'] co I
    have q: "quorum_of K H T req ps" "distinct (map point ps)" by (auto simp: within_reach_def)
    have "\<forall>p \<in> set ps. \<exists>n \<in> set (d_nodes req). seen_active K T n \<and> answered K H T req (map point ps) n p"
      using collected_from [OF ch co [unfolded Collected]] I unfolding within_reach_def by blast
    with q show ?thesis using Collected by (auto simp: opened_def)
  }
qed

text \<open>Every epoch that got a vote was served by a node of the request.\<close>

definition served_votes :: "'w transport \<Rightarrow> decrypt_request \<Rightarrow> node list \<Rightarrow> 'w round_state \<Rightarrow> bool" where
  "served_votes T req av st \<longleftrightarrow>
     set av \<subseteq> set (d_nodes req) \<and>
     fst ` set (rs_votes st) \<subseteq> {ep. \<exists>n \<in> set (d_nodes req). serves T req n ep}"

definition served_end :: "'w transport \<Rightarrow> decrypt_request \<Rightarrow> sdk_error + plaintext \<Rightarrow> bool" where
  "served_end T req r \<longleftrightarrow>
     (\<forall>ep pr. r = Err (EpochRotated ep pr) \<longrightarrow>
        pr = d_epoch req \<and> (\<exists>n \<in> set (d_nodes req). serves T req n ep))"

lemma served_round:
  assumes "signer_law S" and I: "served_votes T req av st" and t: "d_threshold req \<le> length av"
    and ch: "choose_quorum pick av (d_threshold req) (rs_world st) = (chosen, w1)"
    and co: "collect K H T S req (map n_index chosen) chosen [] (st\<lparr>rs_world := w1\<rparr>) = (fin, st')"
  shows "case fin of Aborted e \<Rightarrow> served_end T req (Err e)
     | Faulty bad \<Rightarrow> served_votes T req (filter (\<lambda>n. n_index n \<noteq> bad) av) st'
     | Collected ps \<Rightarrow> served_end T req (open_collected K req ps)"
proof (cases fin)
  case (Aborted e)
  then show ?thesis
    using collect_abort_kinds [OF assms(1) co [unfolded Aborted]] choose_quorum_nodes [OF ch] I
    by (auto simp: served_votes_def served_end_def)
next
  case (Faulty bad)
  have sub: "set chosen \<subseteq> set (d_nodes req)"
    using choose_quorum_nodes [OF ch] I unfolding served_votes_def by blast
  from collect_drops [OF co [unfolded Faulty]] obtain n where "n \<in> set chosen"
    and v: "rs_votes st' = rs_votes st \<or>
      (\<exists>ep. serves T req n ep \<and> rs_votes st' = snd (add_vote ep (rs_votes st)))" by auto
  then have n: "n \<in> set (d_nodes req)" using sub by blast
  from v have "fst ` set (rs_votes st') \<subseteq> {ep. \<exists>n \<in> set (d_nodes req). serves T req n ep}"
  proof (elim disjE exE conjE)
    fix ep assume "serves T req n ep" "rs_votes st' = snd (add_vote ep (rs_votes st))"
    with I n show ?thesis by (simp add: add_vote_keys served_votes_def) blast
  qed (use I in \<open>simp add: served_votes_def\<close>)
  with I show ?thesis using Faulty by (auto simp: served_votes_def)
next
  case (Collected ps)
  then show ?thesis using open_collected_Err by (fastforce simp: served_end_def)
qed

end
