(* ===== verification/Quorum.thy ===== *)
theory Quorum
  imports Committee
begin

text \<open>
  What the threshold decrypt of \<open>Committee\<close> guarantees: the properties of its result and of its
  errors, and a reference committee on which each of them is exercised.
\<close>

section \<open>Properties\<close>

text \<open>
  C1. A decrypt that succeeds opened a full quorum: exactly \<open>threshold\<close> partials, in index
  order and with distinct points, each of them the answer of a node of the request to a request
  made for this very subset, with that node's on-chain commitment, and the plaintext is what the
  core opens from them.
\<close>

theorem decrypt_opens_a_quorum:
  fixes w :: 'w
  assumes "picker_law pick" and "decrypt K H T S pick req w = (Ok pt, w')"
  shows "\<exists>ps. length ps = d_threshold req \<and> 0 < d_threshold req \<and>
    sorted (map (\<lambda>p. unat (point p)) ps) \<and> distinct (map point ps) \<and>
    (\<forall>p \<in> set ps. \<exists>n \<in> set (d_nodes req). answered K H T req (map point ps) n p) \<and>
    open_secret K (d_shared_a req) (d_capsule req) (d_secret_id req) (d_epoch req)
      (d_binding_id req) (d_aad req) (d_ct req) ps = Ok pt"
proof -
  let ?Q = "\<lambda>(r :: sdk_error + plaintext) (w :: 'w).
    \<forall>pt. r = Ok pt \<longrightarrow> (\<exists>ps. quorum_of K H T req ps \<and> open_collected K req ps = Ok pt)"
  have "?Q (Ok pt) w'"
  proof (rule decrypt_rule [where Q = ?Q and I = "\<lambda>av _. set av \<subseteq> set (d_nodes req)", OF _ _ _ _ assms(2)])
    fix av and st :: "'w round_state" and chosen w1 fin st'
    assume av: "set av \<subseteq> set (d_nodes req)" and t: "d_threshold req \<le> length av"
      and ch: "choose_quorum pick av (d_threshold req) (rs_world st) = (chosen, w1)"
      and co: "collect K H T S req (map n_index chosen) chosen [] (st\<lparr>rs_world := w1\<rparr>) = (fin, st')"
    show "case fin of Aborted e \<Rightarrow> ?Q (Err e) (rs_world st')
       | Faulty bad \<Rightarrow> set (filter (\<lambda>n. n_index n \<noteq> bad) av) \<subseteq> set (d_nodes req)
       | Collected ps \<Rightarrow> ?Q (open_collected K req ps) (rs_world st')"
    proof (cases fin)
      case (Collected ps)
      with collected_quorum [OF assms(1) av t ch] co have "quorum_of K H T req ps" by blast
      then show ?thesis using Collected by auto
    qed (use av in auto)
  qed (auto dest: probe_nodes)
  then obtain ps where ps: "quorum_of K H T req ps" "open_collected K req ps = Ok pt" by blast
  then have "open_secret K (d_shared_a req) (d_capsule req) (d_secret_id req) (d_epoch req)
      (d_binding_id req) (d_aad req) (d_ct req) ps = Ok pt"
    by (simp add: open_collected_Ok)
  moreover from this have "0 < length ps \<and> distinct (map point ps)" by (simp add: open_secret_Ok)
  moreover have "length ps = d_threshold req" using ps(1) by (simp add: quorum_of_def)
  ultimately show ?thesis using ps(1) unfolding quorum_of_def by metis
qed

text \<open>
  C13. The quorum error accounts for every node: when the nodes have distinct indices and the
  signer reports only its own errors, \<open>QuorumUnavailable\<close> names the threshold, fewer usable
  nodes than that, and exactly one fault for each of the other nodes.
\<close>

theorem quorum_error_accounts_for_every_node:
  fixes w :: 'w
  assumes "signer_law S" and "distinct (map n_index (d_nodes req))"
    and "decrypt K H T S pick req w = (Err (QuorumUnavailable k a fs), w')"
  shows "k = d_threshold req \<and> a < k \<and> a + length fs = length (d_nodes req) \<and>
    distinct (map f_index fs) \<and> f_index ` set fs \<subseteq> n_index ` set (d_nodes req)"
proof -
  let ?Q = "\<lambda>(r :: sdk_error + plaintext) (w :: 'w). accounted_end req r"
  have "?Q (Err (QuorumUnavailable k a fs)) w'"
  proof (rule decrypt_rule [where Q = ?Q and I = "\<lambda>av st. accounted req av (rs_faults st)",
        OF _ _ _ accounted_round [OF assms(1,2)] assms(3)])
    show "?Q (Err (QuorumUnavailable (d_threshold req) (length act) fs)) w1"
      if "probe K H T (d_nodes req) w = (act, fs, w1)" "length act < d_threshold req" for act fs w1
      using probe_accounts [OF that(1)] that(2) by (auto simp: accounted_end_def accounted_def)
    show "accounted req act (rs_faults \<lparr>rs_faults = fs, rs_votes = [], rs_world = w1\<rparr>)"
      if "probe K H T (d_nodes req) w = (act, fs, w1)" for act fs w1
      using probe_accounts [OF that] by (simp add: accounted_def)
    show "?Q (Err (exhausted req av st)) (rs_world st)"
      if "accounted req av (rs_faults st)" "length av < d_threshold req" for av and st :: "'w round_state"
      using that by (auto simp: accounted_end_def exhausted_def split: option.splits)
  qed
  then obtain av where av: "accounted req av fs" "k = d_threshold req" "a = length av" "length av < d_threshold req"
    by (auto simp: accounted_end_def)
  with accounted_sizes [OF av(1)] accounted_distinct [OF assms(2) av(1)] show ?thesis by auto
qed

text \<open>
  C15. A rotation is never invented: \<open>EpochRotated\<close> names the epoch of the request as the
  provided one, and the served one is a different, nonzero epoch that some node of the
  request really served.
\<close>

theorem epoch_rotation_was_served:
  fixes w :: 'w
  assumes "signer_law S" and "decrypt K H T S pick req w = (Err (EpochRotated ep pr), w')"
  shows "pr = d_epoch req \<and> (\<exists>n \<in> set (d_nodes req). serves T req n ep)"
proof -
  let ?Q = "\<lambda>(r :: sdk_error + plaintext) (w :: 'w). served_end T req r"
  have "?Q (Err (EpochRotated ep pr)) w'"
  proof (rule decrypt_rule [where Q = ?Q and I = "served_votes T req",
        OF _ _ _ served_round [OF assms(1)] assms(2)])
    show "served_votes T req act \<lparr>rs_faults = fs, rs_votes = [], rs_world = w1\<rparr>"
      if "probe K H T (d_nodes req) w = (act, fs, w1)" for act fs w1
      using probe_nodes [OF that] by (simp add: served_votes_def)
    show "?Q (Err (exhausted req av st)) (rs_world st)" if "served_votes T req av st" for av and st :: "'w round_state"
      using that most_voted_mem
      by (force simp: served_votes_def served_end_def exhausted_def split: option.splits)
  qed (simp add: served_end_def)
  then show ?thesis by (simp add: served_end_def)
qed

text \<open>
  Nothing is asked of a committee that is too small: when fewer than \<open>threshold\<close> nodes probe
  as active, the result is the quorum error of the probe, and neither the signer, the random
  generator nor any partial-decrypt endpoint has a part in it.
\<close>

theorem too_few_active_asks_nobody:
  assumes "probe K H T (d_nodes req) w = (act, fs, w1)" and "length act < d_threshold req"
  shows "decrypt K H (T\<lparr>t_partial_decrypt := g\<rparr>) S' pick' req w =
    (Err (QuorumUnavailable (d_threshold req) (length act) fs), w1)"
  using assms by (simp add: decrypt_def probe_ignores_partial_decrypt)

text \<open>
  Enough honest nodes make every run end by opening a quorum of answers, whatever the others do
  short of sending a partial that is not hex.
\<close>

lemma honest_run_opens:
  fixes w :: 'w
  assumes "working_for K H T S req" and "picker_law pick" and "distinct (map n_index (d_nodes req))"
    and "d_threshold req \<le> length (filter (honest K H T req) (d_nodes req))"
    and "length (filter (\<lambda>n. \<not> honest K H T req n) (d_nodes req)) < d_threshold req"
    and d: "decrypt K H T S pick req w = (r, w')"
  shows "opened K H T req r"
proof -
  let ?Q = "\<lambda>(r :: sdk_error + plaintext) (w :: 'w). opened K H T req r"
  have "?Q r w'"
  proof (rule decrypt_rule [where Q = ?Q and I = "within_reach K H T req",
        OF _ _ _ within_reach_round [OF assms(1,2)] d])
    fix act fs w1
    assume p: "probe K H T (d_nodes req) w = (act, fs, w1)"
    note h = probe_honest [OF p, of req]
    have "length (filter (honest K H T req) act) \<le> length act" by simp
    then show "?Q (Err (QuorumUnavailable (d_threshold req) (length act) fs)) w1"
      if "length act < d_threshold req" using that h assms(4) by simp
    show "within_reach K H T req act \<lparr>rs_faults = fs, rs_votes = [], rs_world = w1\<rparr>"
      using probe_nodes [OF p] probe_distinct [OF p assms(3)] probe_seen_active [OF p] h assms(4,5)
      by (simp add: total_votes_def within_reach_def)
  next
    fix av and st :: "'w round_state"
    assume "within_reach K H T req av st" "length av < d_threshold req"
    moreover have "length (filter (honest K H T req) av) \<le> length av" by simp
    ultimately show "?Q (Err (exhausted req av st)) (rs_world st)"
      unfolding within_reach_def by linarith
  qed
  then show ?thesis .
qed

text \<open>
  C2. A failing minority cannot deny a decrypt: with distinct indices, at least \<open>threshold\<close>
  honest nodes and fewer than \<open>threshold\<close> others, every run ends by opening a collected quorum
  of exactly \<open>threshold\<close> answers of distinct nodes of the request, whatever the others do short
  of sending a partial that is not hex.
\<close>

theorem honest_quorum_suffices:
  assumes "working K H T S" and "picker_law pick" and "distinct (map n_index (d_nodes req))"
    and "d_threshold req \<le> length (filter (honest K H T req) (d_nodes req))"
    and "length (filter (\<lambda>n. \<not> honest K H T req n) (d_nodes req)) < d_threshold req"
  shows "\<exists>ps w'. decrypt K H T S pick req w = (open_collected K req ps, w') \<and>
    length ps = d_threshold req \<and> distinct (map point ps) \<and>
    (\<forall>p \<in> set ps. \<exists>n \<in> set (d_nodes req). answered K H T req (map point ps) n p)"
proof -
  obtain r w' where d: "decrypt K H T S pick req w = (r, w')" by fastforce
  from honest_run_opens [OF working_for [OF assms(1)] assms(2-5) d] d show ?thesis
    by (auto simp: opened_def quorum_of_def)
qed

section \<open>A reference committee\<close>

text \<open>
  Nodes named by one-letter endpoints; \<open>hf\<close> and \<open>pf\<close> answer their probes and requests, the
  environment counts the calls, and the quorum is the first nodes available.
\<close>

definition ref_transport ::
  "(str \<Rightarrow> sdk_error + health) \<Rightarrow> (str \<Rightarrow> sdk_error + pd_response) \<Rightarrow> nat transport" where
  "ref_transport hf pf =
     \<lparr>t_health = (\<lambda>ep w. (hf ep, w + 1)), t_partial_decrypt = (\<lambda>ep rq w. (pf ep, w + 1))\<rparr>"

definition ref_auth :: request_auth where
  "ref_auth = \<lparr>ra_auth = AuthSubstrate, ra_requester = ''0x'', ra_signature = ''0x'',
     ra_eth_address = None, ra_valid_until = None, ra_eth_signature = None\<rparr>"

definition ref_signer :: "nat signer" where
  "ref_signer sr w = (Ok ref_auth, w + 1)"

definition ref_pick :: "nat picker" where
  "ref_pick n k w = ([0..<min k n], w)"

definition ref_node :: "u64 \<Rightarrow> str \<Rightarrow> node" where
  "ref_node i ep = \<lparr>n_index = i, n_endpoint = ep, share_commitment = []\<rparr>"

definition ref_request :: "nat \<Rightarrow> node list \<Rightarrow> decrypt_request" where
  "ref_request t nodes =
     \<lparr>d_secret_id = 7, d_epoch = 3, d_binding_id = [], d_aad = [9], d_capsule = [],
      d_ct = replicate 12 0 @ [3, 7, 8, 9], d_shared_a = [], d_block_hash = replicate 32 1,
      d_threshold = t, d_nodes = nodes\<rparr>"

definition ref_active :: "sdk_error + health" where
  "ref_active = Ok \<lparr>h_status = ''active'', h_epoch = 3, h_protocol = 1\<rparr>"

definition ref_answer :: "str \<Rightarrow> u32 \<Rightarrow> sdk_error + pd_response" where
  "ref_answer p ep = Ok \<lparr>r_partial = p, r_proof = ''0x04'', r_served_epoch = ep\<rparr>"

definition ref_nodes :: "node list" where
  "ref_nodes = [ref_node 1 ''a'', ref_node 2 ''b'', ref_node 3 ''c'']"

text \<open>The second node answers its probe and then nothing: one round is lost.\<close>

definition ref_flaky :: "nat transport" where
  "ref_flaky = ref_transport (\<lambda>_. ref_active)
     (\<lambda>ep. if ep = ''b'' then Err (Transport ''b'' ''timeout'') else ref_answer ''0x04'' 3)"

lemmas ref_simps = ref_transport_def ref_signer_def ref_pick_def ref_node_def ref_request_def
  ref_active_def ref_answer_def ref_nodes_def ref_flaky_def ref_auth_def

lemmas run_simps = decrypt_def quorum_loop.simps choose_quorum_def probe_verdict_def is_active_def
  speaks_our_protocol_def ask_node_def take_response_def lagrange_for_def Let_def

lemma ref_picker_law: "picker_law ref_pick"
  by (auto simp: picker_law_def ref_pick_def)

lemma ref_signer_law: "signer_law ref_signer"
  by (simp add: signer_law_def ref_signer_def)

lemma ref_hex: "from_0x hex_ref f ''0x04'' = Ok [4]"
  by code_simp

lemma ref_library: "bincode_ser kgc_ref = Ok" "CRYPTO_PROTOCOL_VERSION kgc_ref = 1"
  by (simp_all add: kgc_ref_def)

lemma ref_open:
  "i \<noteq> j \<Longrightarrow> i \<noteq> 0 \<Longrightarrow> j \<noteq> 0 \<Longrightarrow>
     open_collected kgc_ref (ref_request t ns)
       [\<lparr>point = i, partial = [4], p_proof = [4], commitment = []\<rparr>,
        \<lparr>point = j, partial = [4], p_proof = [4], commitment = []\<rparr>] = Ok (Plaintext [7, 8])"
  by (simp add: open_collected_def open_secret_def subset_points_def de_def bound_def decode_partial_def
      ref_request_def kgc_ref_def MAX_DECODE_BYTES_def Let_def)

lemma ref_flaky_run:
  "decrypt kgc_ref hex_ref ref_flaky ref_signer ref_pick (ref_request 2 ref_nodes) 0 =
     (Ok (Plaintext [7, 8]), 11)"
proof -
  have "open_collected kgc_ref (ref_request 2 ns)
       [\<lparr>point = 1, partial = [4], p_proof = [4], commitment = []\<rparr>,
        \<lparr>point = 3, partial = [4], p_proof = [4], commitment = []\<rparr>] = Ok (Plaintext [7, 8])" for ns
    by (rule ref_open) simp_all
  then show ?thesis
    by (simp add: run_simps ref_simps ref_hex ref_library)
qed
section \<open>Witnesses\<close>

definition ref_failing :: "str list \<Rightarrow> nat transport" where
  "ref_failing bad = ref_transport (\<lambda>_. ref_active)
     (\<lambda>ep. if ep \<in> set bad then Err (Transport ep ''timeout'') else ref_answer ''0x04'' 3)"

definition ref_rotated :: "nat transport" where
  "ref_rotated = ref_transport (\<lambda>_. ref_active)
     (\<lambda>ep. ref_answer ''0x04'' (if ep = ''a'' then 3 else 4))"

lemma ref_request_simps:
  "d_nodes (ref_request t ns) = ns" "d_threshold (ref_request t ns) = t" "d_epoch (ref_request t ns) = 3"
  by (simp_all add: ref_request_def)

lemma ref_indices: "distinct (map n_index ref_nodes)"
  by (simp add: ref_nodes_def ref_node_def)

theorem decrypt_opens_a_quorum_witness:
  "\<exists>ps. length ps = 2 \<and> distinct (map point ps) \<and>
     open_secret kgc_ref [] [] 7 3 [] [9] (replicate 12 0 @ [3, 7, 8, 9]) ps = Ok (Plaintext [7, 8])"
proof -
  from decrypt_opens_a_quorum [OF ref_picker_law ref_flaky_run] obtain ps where
    "length ps = 2" "distinct (map point ps)"
    "open_secret kgc_ref [] [] 7 3 [] [9] (replicate 12 0 @ [3, 7, 8, 9]) ps = Ok (Plaintext [7, 8])"
    by (auto simp: ref_request_def)
  then show ?thesis by blast
qed

theorem quorum_error_accounts_for_every_node_witness:
  "\<exists>fs w'. decrypt kgc_ref hex_ref (ref_failing [''b'', ''c'']) ref_signer ref_pick (ref_request 2 ref_nodes) 0 =
     (Err (QuorumUnavailable 2 1 fs), w') \<and> length fs = 2 \<and> distinct (map f_index fs)"
proof -
  have "\<exists>fs w'. decrypt kgc_ref hex_ref (ref_failing [''b'', ''c'']) ref_signer ref_pick
      (ref_request 2 ref_nodes) 0 = (Err (QuorumUnavailable 2 1 fs), w')"
    by (simp add: run_simps ref_simps ref_failing_def ref_hex ref_library exhausted_def)
  then obtain fs w' where run: "decrypt kgc_ref hex_ref (ref_failing [''b'', ''c'']) ref_signer ref_pick
      (ref_request 2 ref_nodes) 0 = (Err (QuorumUnavailable 2 1 fs), w')" by blast
  have "distinct (map n_index (d_nodes (ref_request 2 ref_nodes)))"
    by (simp add: ref_request_simps ref_indices)
  from quorum_error_accounts_for_every_node [OF ref_signer_law this run] run show ?thesis
    by (auto simp: ref_request_simps ref_nodes_def)
qed

theorem epoch_rotation_was_served_witness:
  "\<exists>w'. decrypt kgc_ref hex_ref ref_rotated ref_signer ref_pick (ref_request 2 ref_nodes) 0 =
     (Err (EpochRotated 4 3), w') \<and> (\<exists>n \<in> set ref_nodes. serves ref_rotated (ref_request 2 ref_nodes) n 4)"
proof -
  have "\<exists>w'. decrypt kgc_ref hex_ref ref_rotated ref_signer ref_pick (ref_request 2 ref_nodes) 0 =
     (Err (EpochRotated 4 3), w')"
    by (simp add: run_simps ref_simps ref_rotated_def ref_hex ref_library)
  then obtain w' where run: "decrypt kgc_ref hex_ref ref_rotated ref_signer ref_pick
      (ref_request 2 ref_nodes) 0 = (Err (EpochRotated 4 3), w')" by blast
  from epoch_rotation_was_served [OF ref_signer_law run] run show ?thesis
    by (auto simp: ref_request_simps)
qed

theorem too_few_active_asks_nobody_witness:
  "\<exists>fs w'. decrypt kgc_ref hex_ref
     (ref_transport (\<lambda>ep. if ep = ''a'' then ref_active else Err (Transport ep ''refused'')) (\<lambda>_. Err ReadOnly)
        \<lparr>t_partial_decrypt := (\<lambda>ep rq w. (Err KeyRevoked, w + 7))\<rparr>)
     (\<lambda>sr w. (Err ReadOnly, w + 9)) (\<lambda>n k w. ([], w + 5)) (ref_request 2 ref_nodes) 0 =
   (Err (QuorumUnavailable 2 1 fs), w')"
proof -
  let ?T = "ref_transport (\<lambda>ep. if ep = ''a'' then ref_active else Err (Transport ep ''refused'')) (\<lambda>_. Err ReadOnly)"
  obtain act fs w1 where p: "probe kgc_ref hex_ref ?T (d_nodes (ref_request 2 ref_nodes)) 0 = (act, fs, w1)"
    using prod_cases3 by blast
  then have act: "act = [ref_node 1 ''a'']"
    by (auto simp: ref_simps probe_verdict_def speaks_our_protocol_def is_active_def ref_library Let_def)
  then have "length act < d_threshold (ref_request 2 ref_nodes)" by (simp add: ref_request_simps)
  from too_few_active_asks_nobody [OF p this] act show ?thesis by (auto simp: ref_request_simps)
qed

lemma ref_flaky_honest: "honest kgc_ref hex_ref ref_flaky (ref_request t ns) n \<longleftrightarrow> n_endpoint n \<noteq> ''b''"
  by (simp add: honest_def ref_flaky_def ref_transport_def ref_active_def ref_answer_def ref_library
      speaks_our_protocol_def is_active_def ref_request_simps)

lemma ref_flaky_working: "working kgc_ref hex_ref ref_flaky ref_signer"
  by (auto simp: working_def ref_signer_def ref_flaky_def ref_transport_def ref_answer_def ref_library
      lagrange_for_def ref_hex split: if_splits)

theorem honest_quorum_suffices_witness:
  "\<exists>ps w'. decrypt kgc_ref hex_ref ref_flaky ref_signer ref_pick (ref_request 2 ref_nodes) 0 =
     (open_collected kgc_ref (ref_request 2 ref_nodes) ps, w') \<and> length ps = 2"
proof -
  let ?req = "ref_request 2 ref_nodes"
  have "distinct (map n_index (d_nodes ?req))" by (simp add: ref_request_simps ref_indices)
  moreover have "d_threshold ?req \<le> length (filter (honest kgc_ref hex_ref ref_flaky ?req) (d_nodes ?req))"
    by (simp add: ref_flaky_honest ref_request_simps ref_nodes_def ref_node_def)
  moreover have "length (filter (\<lambda>n. \<not> honest kgc_ref hex_ref ref_flaky ?req n) (d_nodes ?req)) < d_threshold ?req"
    by (simp add: ref_flaky_honest ref_request_simps ref_nodes_def ref_node_def)
  ultimately show ?thesis
    using honest_quorum_suffices [OF ref_flaky_working ref_picker_law, of ?req 0]
    by (auto simp: ref_request_simps)
qed

end
