(* ===== verification/Traffic.thy ===== *)
theory Traffic
  imports Quorum
begin

text \<open>
  What the threshold decrypt of \<open>Committee\<close> sends: the transport, the signer and the picker are
  wrapped so that they log every authorization, every request and its answer; what the log can
  be, how long it is, and what an answer that does not decode does to the run.
\<close>

section \<open>What is signed and sent\<close>

text \<open>
  A run in which the environment also keeps the sequence of authorizations, each with what the
  signer returned, and of requests, each with where it was sent and what was answered.
\<close>

datatype event = Authorized signing_request "sdk_error + request_auth" | Posted str pd_request "sdk_error + pd_response"

definition log_signer :: "'w signer \<Rightarrow> ('w \<times> event list) signer" where
  "log_signer S sr w = (case S sr (fst w) of (a, w') \<Rightarrow> (a, (w', snd w @ [Authorized sr a])))"

definition log_transport :: "'w transport \<Rightarrow> ('w \<times> event list) transport" where
  "log_transport T =
     \<lparr>t_health = (\<lambda>ep w. case t_health T ep (fst w) of (r, w') \<Rightarrow> (r, (w', snd w))),
      t_partial_decrypt = (\<lambda>ep rq w.
        case t_partial_decrypt T ep rq (fst w) of (r, w') \<Rightarrow> (r, (w', snd w @ [Posted ep rq r])))\<rparr>"

definition log_picker :: "'w picker \<Rightarrow> ('w \<times> event list) picker" where
  "log_picker pick n k w = (case pick n k (fst w) of (is, w') \<Rightarrow> (is, (w', snd w)))"

text \<open>
  What has to be signed for one node: the request's secret and block, the subset, and its index;
  and what came back from the signer.
\<close>

definition authorization ::
  "decrypt_request \<Rightarrow> u64 list \<Rightarrow> node \<Rightarrow> sdk_error + request_auth \<Rightarrow> event" where
  "authorization req subs n a =
     Authorized \<lparr>sr_secret_id = d_secret_id req, sr_subset = subs, sr_recipient_index = n_index n,
       sr_block_hash = d_block_hash req, sr_valid_until = None\<rparr> a"

text \<open>
  One granted authorization: the request goes to the node it was made for, and every auth field
  of it is the one the signer just returned.
\<close>

type_synonym asking = "node \<times> u64 list \<times> bytes \<times> request_auth \<times> (sdk_error + pd_response)"

fun asked :: "hex_lib \<Rightarrow> decrypt_request \<Rightarrow> asking \<Rightarrow> event list" where
  "asked H req (n, subs, lambda, au, r) =
     [authorization req subs n (Ok au),
      Posted (n_endpoint n)
        \<lparr>q_secret_id = secret_id_to_hex H (d_secret_id req), q_subset = subs,
         q_lagrange_coeff = to_0x H lambda, q_requester = ra_requester au,
         q_block_hash = to_0x H (d_block_hash req), q_signature = ra_signature au, q_auth = ra_auth au,
         q_eth_address = ra_eth_address au, q_valid_until = ra_valid_until au,
         q_eth_signature = ra_eth_signature au\<rparr> r]"

text \<open>
  The rest of a pair is determined too: the coefficient is the recipient's own for this subset,
  and the subset is \<open>threshold\<close> indices of nodes of the request, in order, the recipient's among
  them.
\<close>

fun sanctioned :: "'o kgc \<Rightarrow> decrypt_request \<Rightarrow> asking \<Rightarrow> bool" where
  "sanctioned K req (n, subs, lambda, au, r) \<longleftrightarrow>
     n \<in> set (d_nodes req) \<and> lagrange_for K (n_index n) subs = Ok lambda \<and>
     n_index n \<in> set subs \<and> set subs \<subseteq> n_index ` set (d_nodes req) \<and>
     length subs = d_threshold req \<and> sorted (map unat subs)"

lemma authorization_made: "Authorized (signing_request_for req subs n) a = authorization req subs n a"
  by (simp add: authorization_def signing_request_for_def)

lemma asked_made:
  "asked H req (n, subs, lambda, au, r) =
     [authorization req subs n (Ok au), Posted (n_endpoint n) (node_request H req subs lambda au) r]"
  by (simp add: node_request_def)

lemma take_response_world: "take_response H req n r st = (x, st') \<Longrightarrow> rs_world st' = rs_world st"
  by (auto simp: take_response_def Let_def split: sum.splits if_splits prod.splits)

lemma ask_node_logged:
  assumes "ask_node K H (log_transport T) (log_signer S) req subs n st = (x, st')"
  shows "(\<exists>la au r st1. snd (rs_world st') = snd (rs_world st) @ asked H req (n, subs, la, au, r) \<and>
      lagrange_for K (n_index n) subs = Ok la \<and> take_response H req n r st1 = (x, st')) \<or>
    (\<exists>e tl. x = Inl (Aborted e) \<and> snd (rs_world st') = snd (rs_world st) @ tl \<and>
       (tl = [] \<or> tl = [authorization req subs n (Err e)]))"
proof -
  have "(\<exists>e tl. x = Inl (Aborted e) \<and> snd (rs_world st') = snd (rs_world st) @ tl \<and>
       (tl = [] \<or> tl = [authorization req subs n (Err e)])) \<or>
    (\<exists>la au r w2. lagrange_for K (n_index n) subs = Ok la \<and>
       take_response H req n r (st\<lparr>rs_world := (w2, snd (rs_world st) @ asked H req (n, subs, la, au, r))\<rparr>) =
         (x, st'))"
    using assms
    by (auto simp: ask_node_def log_signer_def log_transport_def Let_def authorization_made asked_made
        simp del: asked.simps split: sum.splits prod.splits)
  then show ?thesis
  proof (elim disjE exE conjE)
    fix la au r w2
    assume l: "lagrange_for K (n_index n) subs = Ok la"
      and t: "take_response H req n r
        (st\<lparr>rs_world := (w2, snd (rs_world st) @ asked H req (n, subs, la, au, r))\<rparr>) = (x, st')"
    from take_response_world [OF t]
    have "snd (rs_world st') = snd (rs_world st) @ asked H req (n, subs, la, au, r)"
      by (simp del: asked.simps)
    with l t show ?thesis by blast
  qed blast+
qed

lemma collect_logged:
  "collect K H (log_transport T) (log_signer S) req subs ns acc st = (fin, st') \<Longrightarrow>
     \<exists>bs tl. snd (rs_world st') = snd (rs_world st) @ concat (map (asked H req) bs) @ tl \<and>
       (\<forall>(n, subs', la, au, r) \<in> set bs.
          n \<in> set ns \<and> subs' = subs \<and> lagrange_for K (n_index n) subs = Ok la) \<and>
       length bs \<le> length ns \<and>
       (tl = [] \<or> (\<exists>e n. fin = Aborted e \<and> n \<in> set ns \<and> tl = [authorization req subs n (Err e)]))"
proof (induction ns arbitrary: acc st)
  case Nil
  then show ?case by (intro exI [of _ "[]"]) simp
next
  case (Cons n ns)
  obtain x st1 where a: "ask_node K H (log_transport T) (log_signer S) req subs n st = (x, st1)"
    by fastforce
  show ?case
  proof (cases x)
    case (Inl f)
    with Cons.prems a have f: "f = fin" "st1 = st'" by auto
    from ask_node_logged [OF a] show ?thesis
    proof (elim disjE exE conjE)
      fix la au r assume "snd (rs_world st1) = snd (rs_world st) @ asked H req (n, subs, la, au, r)"
        "lagrange_for K (n_index n) subs = Ok la"
      then show ?thesis using f by (intro exI [of _ "[(n, subs, la, au, r)]"] exI [of _ "[]"]) simp
    next
      fix e tl assume "x = Inl (Aborted e)" "snd (rs_world st1) = snd (rs_world st) @ tl" "tl = []"
      then show ?thesis using f by (intro exI [of _ "[]"] exI [of _ "[]"]) simp
    next
      fix e tl assume "x = Inl (Aborted e)" "snd (rs_world st1) = snd (rs_world st) @ tl"
        "tl = [authorization req subs n (Err e)]"
      then show ?thesis using f Inl by (intro exI [of _ "[]"] exI [of _ tl]) auto
    qed
  next
    case (Inr p)
    with ask_node_logged [OF a] obtain la au r where
      l: "snd (rs_world st1) = snd (rs_world st) @ asked H req (n, subs, la, au, r)"
        "lagrange_for K (n_index n) subs = Ok la" by auto
    from Cons.prems a Inr have
      "collect K H (log_transport T) (log_signer S) req subs ns (acc @ [p]) st1 = (fin, st')" by simp
    from Cons.IH [OF this] obtain bs tl where
      "snd (rs_world st') = snd (rs_world st1) @ concat (map (asked H req) bs) @ tl"
      "\<forall>(n, subs', la, au, r) \<in> set bs.
          n \<in> set ns \<and> subs' = subs \<and> lagrange_for K (n_index n) subs = Ok la" "length bs \<le> length ns"
      "tl = [] \<or> (\<exists>e n. fin = Aborted e \<and> n \<in> set ns \<and> tl = [authorization req subs n (Err e)])"
      by blast
    then show ?thesis
      using l by (intro exI [of _ "(n, subs, la, au, r) # bs"] exI [of _ tl]) auto
  qed
qed

lemma probe_world_logged: "snd (snd (snd (probe K H (log_transport T) ns w))) = snd w"
  by (induction ns arbitrary: w) (simp_all add: Let_def log_transport_def case_prod_beta split: option.split)

lemma probe_logged: "probe K H (log_transport T) ns w = (act, fs, w') \<Longrightarrow> snd w' = snd w"
  using probe_world_logged [of K H T ns w] by simp

lemma probe_length: "probe K H T ns w = (act, fs, w') \<Longrightarrow> length act \<le> length ns"
  using arg_cong [OF probe_accounts, of K H T ns w act fs w' size] by simp

lemma log_picker_law: "picker_law pick \<Longrightarrow> picker_law (log_picker pick)"
  by (simp add: picker_law_def log_picker_def Let_def case_prod_beta)

lemma choose_quorum_logged: "choose_quorum (log_picker pick) av t w = (chosen, w') \<Longrightarrow> snd w' = snd w"
  by (auto simp: choose_quorum_def log_picker_def Let_def split: prod.splits)

text \<open>A log of complete pairs, at most \<open>m\<close> of them, every one sanctioned.\<close>

definition round_log :: "'o kgc \<Rightarrow> hex_lib \<Rightarrow> decrypt_request \<Rightarrow> nat \<Rightarrow> event list \<Rightarrow> bool" where
  "round_log K H req m es \<longleftrightarrow>
     (\<exists>bs. es = concat (map (asked H req) bs) \<and> length bs \<le> m \<and> (\<forall>b \<in> set bs. sanctioned K req b))"

lemma round_log_Nil: "round_log K H req m []"
  by (auto simp: round_log_def intro: exI [of _ "[]"])

lemma round_log_mono: "round_log K H req m es \<Longrightarrow> m \<le> m' \<Longrightarrow> round_log K H req m' es"
  by (auto simp: round_log_def intro: le_trans)

lemma round_log_append:
  assumes "round_log K H req m es" "length bs \<le> k" "\<forall>b \<in> set bs. sanctioned K req b"
  shows "round_log K H req (m + k) (es @ concat (map (asked H req) bs))"
proof -
  from assms(1) obtain cs where "es = concat (map (asked H req) cs)" "length cs \<le> m"
    "\<forall>b \<in> set cs. sanctioned K req b"
    unfolding round_log_def by blast
  then show ?thesis
    using assms(2,3) unfolding round_log_def by (intro exI [of _ "cs @ bs"]) auto
qed

lemma quorum_sanctioned:
  assumes "picker_law pick" "set av \<subseteq> set (d_nodes req)" "d_threshold req \<le> length av"
    and ch: "choose_quorum pick av (d_threshold req) w = (chosen, w1)"
    and "n \<in> set chosen" "lagrange_for K (n_index n) (map n_index chosen) = Ok la"
  shows "sanctioned K req (n, map n_index chosen, la, au, r)"
  using choose_quorum_sorted [OF assms(1) ch assms(3)] choose_quorum_nodes [OF ch] assms(2,5,6)
  by (auto simp: comp_def)

text \<open>A last authorization that no request followed: the signer refused with \<open>e\<close>.\<close>

definition lone :: "decrypt_request \<Rightarrow> u64 list \<Rightarrow> node \<Rightarrow> sdk_error \<Rightarrow> event list \<Rightarrow> bool" where
  "lone req subs n e es \<longleftrightarrow>
     n \<in> set (d_nodes req) \<and> n_index n \<in> set subs \<and> es = [authorization req subs n (Err e)]"

lemma lone_made:
  "n \<in> set ns \<Longrightarrow> set ns \<subseteq> set (d_nodes req) \<Longrightarrow>
     lone req (map n_index ns) n e [authorization req (map n_index ns) n (Err e)]"
  by (auto simp: lone_def)

lemma round_logged:
  fixes st :: "('w \<times> event list) round_state"
  assumes "picker_law pick" "set av \<subseteq> set (d_nodes req)" "d_threshold req \<le> length av"
    and ch: "choose_quorum (log_picker pick) av (d_threshold req) (rs_world st) = (chosen, w1)"
    and co: "collect K H (log_transport T) (log_signer S) req (map n_index chosen) chosen []
      (st\<lparr>rs_world := w1\<rparr>) = (fin, st')"
    and log: "round_log K H req m (snd (rs_world st))"
  shows "\<exists>es tl. snd (rs_world st') = es @ tl \<and> round_log K H req (m + d_threshold req) es \<and>
    (tl = [] \<or> (\<exists>e n subs. fin = Aborted e \<and> lone req subs n e tl))"
proof -
  note law = log_picker_law [OF assms(1)]
  have len: "length chosen = d_threshold req"
    using choose_quorum_sorted [OF law ch assms(3)] by simp
  have sub: "set chosen \<subseteq> set (d_nodes req)"
    using choose_quorum_nodes [OF ch] assms(2) by blast
  from collect_logged [OF co] obtain bs tl where c:
    "snd (rs_world st') = snd w1 @ concat (map (asked H req) bs) @ tl"
    "\<forall>(n, subs, la, au, r) \<in> set bs. n \<in> set chosen \<and> subs = map n_index chosen \<and>
       lagrange_for K (n_index n) (map n_index chosen) = Ok la"
    "length bs \<le> length chosen"
    "tl = [] \<or> (\<exists>e n. fin = Aborted e \<and> n \<in> set chosen \<and>
       tl = [authorization req (map n_index chosen) n (Err e)])"
    by auto
  have "\<forall>b \<in> set bs. sanctioned K req b"
    using c(2) quorum_sanctioned [OF law assms(2,3) ch] by fastforce
  then have "round_log K H req (m + d_threshold req)
      (snd (rs_world st) @ concat (map (asked H req) bs))"
    using round_log_append [OF log] c(3) len by simp
  moreover have "tl = [] \<or> (\<exists>e n subs. fin = Aborted e \<and> lone req subs n e tl)"
    using c(4) lone_made [OF _ sub] by blast
  moreover have "snd (rs_world st') = (snd (rs_world st) @ concat (map (asked H req) bs)) @ tl"
    using c(1) choose_quorum_logged [OF ch] by simp
  ultimately show ?thesis by blast
qed

lemma round_bound:
  "(t :: nat) \<le> a \<Longrightarrow> t * (n - a) + t \<le> t * (n - t + 1)"
  by (metis Suc_eq_plus1 Suc_le_mono add.commute diff_le_mono2 mult_Suc_right mult_le_mono2)

lemma drop_bound: "b < a \<Longrightarrow> a \<le> n \<Longrightarrow> t * (n - a) + t \<le> t * (n - b :: nat)"
  by (metis Suc_diff_Suc Suc_leI diff_less_mono2 le_less_trans mult_Suc_right add.commute mult_le_mono2 nat_neq_iff less_le_trans)

text \<open>The budget of requests, and the invariant that every round stays inside it.\<close>

definition budget :: "decrypt_request \<Rightarrow> nat" where
  "budget req = d_threshold req * (length (d_nodes req) - d_threshold req + 1)"

definition within_budget ::
  "'o kgc \<Rightarrow> hex_lib \<Rightarrow> decrypt_request \<Rightarrow> node list \<Rightarrow> ('w \<times> event list) round_state \<Rightarrow> bool" where
  "within_budget K H req av st \<longleftrightarrow>
     set av \<subseteq> set (d_nodes req) \<and> length av \<le> length (d_nodes req) \<and>
     round_log K H req (min (budget req) (d_threshold req * (length (d_nodes req) - length av)))
       (snd (rs_world st))"

definition traffic_end ::
  "'o kgc \<Rightarrow> hex_lib \<Rightarrow> decrypt_request \<Rightarrow> sdk_error + plaintext \<Rightarrow> event list \<Rightarrow> bool" where
  "traffic_end K H req r es \<longleftrightarrow>
     (\<exists>es0 tl. es = es0 @ tl \<and> round_log K H req (budget req) es0 \<and>
        (tl = [] \<or> (\<exists>n subs e. lone req subs n e tl \<and> r = Err e)))"

lemma traffic_end_log: "round_log K H req (budget req) es \<Longrightarrow> traffic_end K H req r es"
  unfolding traffic_end_def by (intro exI [of _ es] exI [of _ "[]"]) simp

lemma budget_round:
  fixes st :: "('w \<times> event list) round_state"
  assumes "picker_law pick" and I: "within_budget K H req av st" and t: "d_threshold req \<le> length av"
    and ch: "choose_quorum (log_picker pick) av (d_threshold req) (rs_world st) = (chosen, w1)"
    and co: "collect K H (log_transport T) (log_signer S) req (map n_index chosen) chosen []
      (st\<lparr>rs_world := w1\<rparr>) = (fin, st')"
  shows "case fin of Aborted e \<Rightarrow> traffic_end K H req (Err e) (snd (rs_world st'))
     | Faulty bad \<Rightarrow> within_budget K H req (filter (\<lambda>n. n_index n \<noteq> bad) av) st'
     | Collected ps \<Rightarrow> traffic_end K H req (open_collected K req ps) (snd (rs_world st'))"
proof -
  let ?t = "d_threshold req" and ?n = "length (d_nodes req)"
  from I have "round_log K H req (?t * (?n - length av)) (snd (rs_world st))"
    unfolding within_budget_def by (auto intro: round_log_mono)
  from round_logged [OF assms(1) _ t ch co this] I obtain es1 tl where l:
    "snd (rs_world st') = es1 @ tl" "round_log K H req (?t * (?n - length av) + ?t) es1"
    "tl = [] \<or> (\<exists>e n subs. fin = Aborted e \<and> lone req subs n e tl)"
    unfolding within_budget_def by blast
  have n: "length av \<le> ?n" using I by (simp add: within_budget_def)
  have m: "round_log K H req (budget req) es1"
    using l(2) round_log_mono round_bound [OF t, of ?n] unfolding budget_def by blast
  show ?thesis
  proof (cases fin)
    case (Faulty bad)
    have d: "length (filter (\<lambda>n. n_index n \<noteq> bad) av) < length av"
      by (rule drop_faulty [OF ch co [unfolded Faulty]])
    then have "round_log K H req (?t * (?n - length (filter (\<lambda>n. n_index n \<noteq> bad) av))) es1"
      using l(2) round_log_mono drop_bound n by blast
    with m l(1,3) I d show ?thesis
      using Faulty by (auto simp: min_def within_budget_def)
  qed (use l m in \<open>auto simp: traffic_end_def\<close>)
qed

section \<open>Answers that do not decode\<close>

text \<open>
  What makes an answer for the epoch of the request unusable: the error of its partial, or of its
  proof when the partial decodes.
\<close>

definition undecodable :: "hex_lib \<Rightarrow> decrypt_request \<Rightarrow> pd_response \<Rightarrow> core_error \<Rightarrow> bool" where
  "undecodable H req resp e \<longleftrightarrow>
     r_served_epoch resp \<in> {0, d_epoch req} \<and>
     (from_0x H ''partial'' (r_partial resp) = Err e \<or>
      (\<exists>b. from_0x H ''partial'' (r_partial resp) = Ok b) \<and>
      from_0x H ''proof'' (r_proof resp) = Err e)"

definition usable_log :: "hex_lib \<Rightarrow> decrypt_request \<Rightarrow> event list \<Rightarrow> bool" where
  "usable_log H req es \<longleftrightarrow>
     (\<forall>ep rq resp e. Posted ep rq (Ok resp) \<in> set es \<longrightarrow> \<not> undecodable H req resp e)"

text \<open>A log without such an answer, or one cut off by the first of them.\<close>

definition cut_log ::
  "hex_lib \<Rightarrow> decrypt_request \<Rightarrow> sdk_error + plaintext \<Rightarrow> event list \<Rightarrow> bool" where
  "cut_log H req res es \<longleftrightarrow>
     usable_log H req es \<or>
     (\<exists>es0 ep rq resp e. es = es0 @ [Posted ep rq (Ok resp)] \<and> usable_log H req es0 \<and>
        undecodable H req resp e \<and> res = Err (Core e))"

lemma usable_log_simps:
  "usable_log H req []"
  "usable_log H req (es @ [Authorized sr a]) = usable_log H req es"
  "usable_log H req (es @ [Authorized sr a, ev]) = usable_log H req (es @ [ev])"
  "usable_log H req (es @ [Posted ep rq r]) \<longleftrightarrow>
     usable_log H req es \<and> (\<forall>resp e. r = Ok resp \<longrightarrow> \<not> undecodable H req resp e)"
  by (auto simp: usable_log_def)

lemma usable_cut: "usable_log H req es \<Longrightarrow> cut_log H req res es"
  by (simp add: cut_log_def)

lemma take_response_undecodable:
  "take_response H req n r st = (x, st') \<Longrightarrow> r = Ok resp \<Longrightarrow> undecodable H req resp e \<Longrightarrow>
     x = Inl (Aborted (Core e))"
  by (auto simp: take_response_def undecodable_def)

lemma undecodable_hex: "undecodable H req resp e \<Longrightarrow> \<exists>d. e = Hex ''partial'' d \<or> e = Hex ''proof'' d"
  by (auto simp: undecodable_def from_0x_def res_simps)

lemma ask_node_cut:
  assumes a: "ask_node K H (log_transport T) (log_signer S) req subs n st = (x, st')"
    and u: "usable_log H req (snd (rs_world st))"
  shows "case x of Inl (Aborted e) \<Rightarrow> cut_log H req (Err e) (snd (rs_world st'))
     | _ \<Rightarrow> usable_log H req (snd (rs_world st'))"
proof (cases "usable_log H req (snd (rs_world st'))")
  case True
  then show ?thesis by (auto split: sum.splits round_end.splits intro: usable_cut)
next
  case False
  with ask_node_logged [OF a] u obtain la au r st1 where r:
    "snd (rs_world st') =
       (snd (rs_world st) @ [authorization req subs n (Ok au)]) @
         [Posted (n_endpoint n) (node_request H req subs la au) r]"
    "take_response H req n r st1 = (x, st')"
    by (auto simp: asked_made authorization_def usable_log_simps simp del: asked.simps)
  have u1: "usable_log H req (snd (rs_world st) @ [authorization req subs n (Ok au)])"
    using u by (simp add: usable_log_simps authorization_def)
  with False r(1) obtain resp e where e: "r = Ok resp" "undecodable H req resp e"
    by (auto simp: usable_log_simps simp del: append_assoc)
  with r(1) u1 have "cut_log H req (Err (Core e)) (snd (rs_world st'))"
    unfolding cut_log_def by blast
  with take_response_undecodable [OF r(2) e] show ?thesis by simp
qed

lemma collect_cut:
  assumes "collect K H (log_transport T) (log_signer S) req subs ns [] st = (fin, st')"
    and "usable_log H req (snd (rs_world st))"
  shows "case fin of Aborted e \<Rightarrow> cut_log H req (Err e) (snd (rs_world st'))
     | _ \<Rightarrow> usable_log H req (snd (rs_world st'))"
  by (rule collect_rule [where J = "\<lambda>_ st. usable_log H req (snd (rs_world st))", OF assms(2) _ _ _ assms(1)])
    (auto dest: ask_node_cut split: round_end.splits)

section \<open>Properties of the traffic\<close>

text \<open>
  C3. Every request is authorized for its recipient, and the traffic is bounded: a run is a
  sequence of pairs, an authorization directly followed by the request it was made for. The
  signer was asked about the secret id and the block hash of the request, a subset and the index
  of one node; the request goes to that node's endpoint and carries the secret id, the block
  hash and that subset, every auth field exactly as the signer returned it, and as Lagrange
  coefficient the node's own for that subset; the subset is \<open>threshold\<close> indices of nodes of the
  request, in order, the recipient's among them. Only when the signer refuses is there a last
  authorization without a request, and then the decrypt returns that refusal. There are at most
  \<open>threshold\<close> requests per round and one round more than nodes that can be dropped.
\<close>

theorem requests_are_authorized_per_node:
  fixes w :: 'w
  assumes "picker_law pick"
    and "decrypt K H (log_transport T) (log_signer S) (log_picker pick) req (w, []) = (r, (w', es))"
  shows "\<exists>bs tl. es = concat (map (asked H req) bs) @ tl \<and> (\<forall>b \<in> set bs. sanctioned K req b) \<and>
    length bs \<le> d_threshold req * (length (d_nodes req) - d_threshold req + 1) \<and>
    (tl = [] \<or> (\<exists>n subs e. lone req subs n e tl \<and> r = Err e))"
proof -
  let ?Q = "\<lambda>(r :: sdk_error + plaintext) w :: 'w \<times> event list. traffic_end K H req r (snd w)"
  have "?Q r (w', es)"
  proof (rule decrypt_rule [where Q = ?Q and I = "within_budget K H req",
        OF _ _ _ budget_round [OF assms(1)] assms(2)])
    fix act fs w1 assume p: "probe K H (log_transport T) (d_nodes req) (w, []) = (act, fs, w1)"
    show "?Q (Err (QuorumUnavailable (d_threshold req) (length act) fs)) w1"
      using probe_logged [OF p] round_log_Nil by (intro traffic_end_log) simp
    show "within_budget K H req act \<lparr>rs_faults = fs, rs_votes = [], rs_world = w1\<rparr>"
      using probe_logged [OF p] probe_nodes [OF p] probe_length [OF p] round_log_Nil
      by (simp add: within_budget_def)
  next
    fix av and st :: "('w \<times> event list) round_state"
    assume "within_budget K H req av st"
    then show "?Q (Err (exhausted req av st)) (rs_world st)"
      by (intro traffic_end_log) (auto simp: within_budget_def intro: round_log_mono)
  qed
  then obtain es0 tl where "es = es0 @ tl" "round_log K H req (budget req) es0"
    "tl = [] \<or> (\<exists>n subs e. lone req subs n e tl \<and> r = Err e)"
    unfolding traffic_end_def snd_conv by blast
  then show ?thesis unfolding round_log_def budget_def by blast
qed

text \<open>
  Four requests in two rounds, the second node failing: each with the reference signer's
  fields and the coefficient of its recipient.
\<close>

theorem requests_are_authorized_per_node_witness:
  "\<exists>bs. snd (snd (decrypt kgc_ref hex_ref (log_transport ref_flaky) (log_signer ref_signer)
       (log_picker ref_pick) (ref_request 2 ref_nodes) (0, []))) =
       concat (map (asked hex_ref (ref_request 2 ref_nodes)) bs) \<and>
     bs \<noteq> [] \<and> (\<forall>b \<in> set bs. sanctioned kgc_ref (ref_request 2 ref_nodes) b)"
proof -
  let ?run = "decrypt kgc_ref hex_ref (log_transport ref_flaky) (log_signer ref_signer)
       (log_picker ref_pick) (ref_request 2 ref_nodes) (0, [])"
  have "?run = (fst ?run, (fst (snd ?run), snd (snd ?run)))" by simp
  note C = requests_are_authorized_per_node [OF ref_picker_law this]
  have "open_collected kgc_ref (ref_request 2 ns)
       [\<lparr>point = 1, partial = [4], p_proof = [4], commitment = []\<rparr>,
        \<lparr>point = 3, partial = [4], p_proof = [4], commitment = []\<rparr>] = Ok (Plaintext [7, 8])" for ns
    by (rule ref_open) simp_all
  then have "fst ?run = Ok (Plaintext [7, 8]) \<and> snd (snd ?run) \<noteq> []"
    by (simp add: run_simps ref_simps ref_hex ref_library log_transport_def log_signer_def log_picker_def)
  with C show ?thesis by auto
qed

text \<open>
  C18. An answer that is not hex ends the decrypt: in every run, whichever node sent it, in
  whichever round and place, and whether its partial or its proof does not decode, the result is
  that decode error, and the request it answers is the last thing the run does, the only answer
  of its kind. The node is not dropped and the quorum not re-formed, however many nodes are left:
  one node that answers for the epoch can so deny every decrypt it is drawn into, although the
  documentation of \<open>decrypt\<close> has a failing node dropped.
\<close>

theorem malformed_answer_aborts:
  fixes w :: 'w
  assumes "decrypt K H (log_transport T) (log_signer S) (log_picker pick) req (w, []) = (r, (w', es))"
    and "Posted ep rq (Ok resp) \<in> set es"
    and "r_served_epoch resp \<in> {0, d_epoch req}"
    and "from_0x H ''partial'' (r_partial resp) = Err e \<or>
      (\<exists>b. from_0x H ''partial'' (r_partial resp) = Ok b) \<and> from_0x H ''proof'' (r_proof resp) = Err e"
  shows "r = Err (Core e) \<and> (\<exists>d. e = Hex ''partial'' d \<or> e = Hex ''proof'' d) \<and>
    (\<exists>es0. es = es0 @ [Posted ep rq (Ok resp)] \<and> usable_log H req es0)"
proof -
  let ?Q = "\<lambda>r w :: 'w \<times> event list. cut_log H req r (snd w)"
  let ?I = "\<lambda>(av :: node list) st :: ('w \<times> event list) round_state. usable_log H req (snd (rs_world st))"
  have "?Q r (w', es)"
  proof (rule decrypt_rule [where Q = ?Q and I = ?I, OF _ _ _ _ assms(1)])
    fix act fs w1 assume p: "probe K H (log_transport T) (d_nodes req) (w, []) = (act, fs, w1)"
    then have "snd w1 = []" using probe_logged [OF p] by simp
    then show "?Q (Err (QuorumUnavailable (d_threshold req) (length act) fs)) w1"
      "?I act \<lparr>rs_faults = fs, rs_votes = [], rs_world = w1\<rparr>"
      by (simp_all add: usable_log_simps usable_cut)
  next
    fix av and st :: "('w \<times> event list) round_state" and chosen w1 fin st'
    assume I: "?I av st" and ch: "choose_quorum (log_picker pick) av (d_threshold req) (rs_world st) = (chosen, w1)"
      and co: "collect K H (log_transport T) (log_signer S) req (map n_index chosen) chosen []
        (st\<lparr>rs_world := w1\<rparr>) = (fin, st')"
    show "case fin of Aborted e \<Rightarrow> ?Q (Err e) (rs_world st')
       | Faulty bad \<Rightarrow> ?I (filter (\<lambda>n. n_index n \<noteq> bad) av) st'
       | Collected ps \<Rightarrow> ?Q (open_collected K req ps) (rs_world st')"
      using collect_cut [OF co] I choose_quorum_logged [OF ch]
      by (auto intro: usable_cut split: round_end.splits)
  qed (simp add: usable_cut)
  moreover have u: "undecodable H req resp e" using assms(3,4) by (simp add: undecodable_def)
  moreover from this have "\<not> usable_log H req es" using assms(2) unfolding usable_log_def by blast
  ultimately obtain es0 ep' rq' resp' e' where c: "es = es0 @ [Posted ep' rq' (Ok resp')]"
    "usable_log H req es0" "undecodable H req resp' e'" "r = Err (Core e')"
    by (auto simp: cut_log_def)
  with assms(2) u have "Posted ep rq (Ok resp) = Posted ep' rq' (Ok resp')"
    unfolding usable_log_def by auto
  moreover from this have "e' = e" using c(3) u by (auto simp: undecodable_def)
  ultimately show ?thesis using c u undecodable_hex by blast
qed

text \<open>
  The second node of the first quorum sends a proof that is not hex; the third, which would have
  completed a quorum, is never asked.
\<close>

definition ref_garbled :: "nat transport" where
  "ref_garbled = ref_transport (\<lambda>_. ref_active)
     (\<lambda>ep. if ep = ''b'' then Ok \<lparr>r_partial = ''0x04'', r_proof = ''zz'', r_served_epoch = 3\<rparr>
            else ref_answer ''0x04'' 3)"

theorem malformed_answer_aborts_witness:
  "\<exists>w' es0 rq. decrypt kgc_ref hex_ref (log_transport ref_garbled) (log_signer ref_signer)
       (log_picker ref_pick) (ref_request 2 ref_nodes) (0, []) =
     (Err (Core (Hex ''proof'' (InvalidHexCharacter (CHR ''z'') 0))), (w',
        es0 @ [Posted ''b'' rq (Ok \<lparr>r_partial = ''0x04'', r_proof = ''zz'', r_served_epoch = 3\<rparr>)]))"
proof -
  let ?run = "decrypt kgc_ref hex_ref (log_transport ref_garbled) (log_signer ref_signer)
       (log_picker ref_pick) (ref_request 2 ref_nodes) (0, [])"
  let ?resp = "\<lparr>r_partial = ''0x04'', r_proof = ''zz'', r_served_epoch = 3\<rparr> :: pd_response"
  have run: "?run = (fst ?run, (fst (snd ?run), snd (snd ?run)))" by simp
  have zz: "from_0x hex_ref ''proof'' ''zz'' = Err (Hex ''proof'' (InvalidHexCharacter (CHR ''z'') 0))"
    by code_simp
  have "\<exists>rq. Posted ''b'' rq (Ok ?resp) \<in> set (snd (snd ?run))"
    by (simp add: run_simps ref_simps ref_hex zz ref_garbled_def ref_library log_transport_def
        log_signer_def log_picker_def)
  then obtain rq where p: "Posted ''b'' rq (Ok ?resp) \<in> set (snd (snd ?run))" by blast
  have "r_served_epoch ?resp \<in> {0, d_epoch (ref_request 2 ref_nodes)}"
    by (simp add: ref_request_simps)
  moreover have "from_0x hex_ref ''partial'' (r_partial ?resp) = Err (Hex ''proof'' (InvalidHexCharacter (CHR ''z'') 0)) \<or>
      (\<exists>b. from_0x hex_ref ''partial'' (r_partial ?resp) = Ok b) \<and>
      from_0x hex_ref ''proof'' (r_proof ?resp) = Err (Hex ''proof'' (InvalidHexCharacter (CHR ''z'') 0))"
    using zz ref_hex by simp
  ultimately show ?thesis using malformed_answer_aborts [OF run p] run by metis
qed

end
