(* ===== verification/Rounds.thy ===== *)
theory Rounds
  imports Committee
begin

text \<open>
  The retry loop of \<open>decrypt\<close> (\<open>crates/matter-sdk/src/committee.rs\<close>) as a relation between rounds,
  and the bound on how many of them it runs.
\<close>

section \<open>Rounds\<close>

text \<open>One pass of the loop body over the nodes that are still available.\<close>

definition one_round ::
  "'o kgc \<Rightarrow> hex_lib \<Rightarrow> 'w transport \<Rightarrow> 'w signer \<Rightarrow> 'w picker \<Rightarrow> decrypt_request \<Rightarrow> node list
     \<Rightarrow> 'w round_state \<Rightarrow> round_end \<times> 'w round_state" where
  "one_round K H T S pick req available st =
     (let (chosen, w1) = choose_quorum pick available (d_threshold req) (rs_world st) in
      collect K H T S req (map n_index chosen) chosen [] (st\<lparr>rs_world := w1\<rparr>))"

text \<open>\<open>k\<close> rounds in a row, each of which found a faulty node and dropped it.\<close>

inductive retries ::
  "'o kgc \<Rightarrow> hex_lib \<Rightarrow> 'w transport \<Rightarrow> 'w signer \<Rightarrow> 'w picker \<Rightarrow> decrypt_request \<Rightarrow> nat
     \<Rightarrow> node list \<Rightarrow> 'w round_state \<Rightarrow> node list \<Rightarrow> 'w round_state \<Rightarrow> bool"
  for K H T S pick req where
  no_retry: "retries K H T S pick req 0 av st av st"
| retry: "d_threshold req \<le> length av \<Longrightarrow> one_round K H T S pick req av st = (Faulty bad, st1) \<Longrightarrow>
     retries K H T S pick req k (filter (\<lambda>n. n_index n \<noteq> bad) av) st1 av' st' \<Longrightarrow>
     retries K H T S pick req (Suc k) av st av' st'"

text \<open>How the loop ends, if the state it is in is one where it does.\<close>

definition final_round ::
  "'o kgc \<Rightarrow> hex_lib \<Rightarrow> 'w transport \<Rightarrow> 'w signer \<Rightarrow> 'w picker \<Rightarrow> decrypt_request \<Rightarrow> node list
     \<Rightarrow> 'w round_state \<Rightarrow> ((sdk_error + plaintext) \<times> 'w round_state) option" where
  "final_round K H T S pick req available st =
     (if length available < d_threshold req then Some (Err (exhausted req available st), st)
      else (case one_round K H T S pick req available st of
              (Aborted e, st') \<Rightarrow> Some (Err e, st')
            | (Faulty bad, st') \<Rightarrow> None
            | (Collected partials, st') \<Rightarrow> Some (open_collected K req partials, st')))"

lemma one_round_drops:
  assumes "one_round K H T S pick req av st = (Faulty bad, st1)"
  shows "length (filter (\<lambda>n. n_index n \<noteq> bad) av) < length av"
  using assms by (auto simp: one_round_def split: prod.splits intro: drop_faulty)

lemma retries_bound:
  "retries K H T S pick req k av st av' st' \<Longrightarrow>
     k + length av' \<le> length av \<and> (k = 0 \<or> k + d_threshold req \<le> Suc (length av))"
proof (induction rule: retries.induct)
  case (retry av st bad st1 k av' st')
  with one_round_drops [OF retry.hyps(2)] show ?case by auto
qed simp

lemma quorum_loop_round:
  "quorum_loop K H T S pick req av st =
     (if length av < d_threshold req then (Err (exhausted req av st), st)
      else (case one_round K H T S pick req av st of
              (Aborted e, st') \<Rightarrow> (Err e, st')
            | (Faulty bad, st') \<Rightarrow>
                quorum_loop K H T S pick req (filter (\<lambda>n. n_index n \<noteq> bad) av) st'
            | (Collected partials, st') \<Rightarrow> (open_collected K req partials, st')))"
  by (subst quorum_loop.simps) (simp add: one_round_def split: prod.splits)

lemma quorum_loop_final:
  "final_round K H T S pick req av st = Some r \<Longrightarrow> quorum_loop K H T S pick req av st = r"
  by (subst quorum_loop_round)
    (auto simp: final_round_def split: if_splits prod.splits round_end.splits)

section \<open>Properties\<close>

text \<open>
  C14. The retry loop always ends: whatever the nodes, the signer and the picker do, it runs
  \<open>k\<close> rounds that each drop a faulty node and then a last one that gives the answer; a round
  only starts with \<open>threshold\<close> nodes left, so \<open>k\<close> is at most the number of nodes above the
  threshold, plus one.
\<close>

theorem retry_loop_terminates:
  "\<exists>k av' st'. retries K H T S pick req k av st av' st' \<and>
     final_round K H T S pick req av' st' = Some (quorum_loop K H T S pick req av st) \<and>
     k + length av' \<le> length av \<and> k \<le> length av + 1 - d_threshold req"
proof (induction "length av" arbitrary: av st rule: less_induct)
  case less
  show ?case
  proof (cases "final_round K H T S pick req av st")
    case (Some r)
    with quorum_loop_final [OF Some] show ?thesis
      by (intro exI [of _ 0] exI [of _ av] exI [of _ st]) (simp add: no_retry)
  next
    case None
    then obtain bad st1 where r: "d_threshold req \<le> length av"
      "one_round K H T S pick req av st = (Faulty bad, st1)"
      by (auto simp: final_round_def split: if_splits prod.splits round_end.splits)
    let ?rest = "filter (\<lambda>n. n_index n \<noteq> bad) av"
    from less [OF one_round_drops [OF r(2)], of st1] obtain k av' st' where
      k: "retries K H T S pick req k ?rest st1 av' st'"
      "final_round K H T S pick req av' st' = Some (quorum_loop K H T S pick req ?rest st1)"
      by blast
    have s: "retries K H T S pick req (Suc k) av st av' st'" by (rule retry [OF r k(1)])
    have "quorum_loop K H T S pick req av st = quorum_loop K H T S pick req ?rest st1"
      using r by (subst quorum_loop_round) simp
    with s k(2) retries_bound [OF s] show ?thesis
      by (intro exI [of _ "Suc k"] exI [of _ av'] exI [of _ st']) auto
  qed
qed

end
