(* ===== verification/Calls.thy ===== *)
theory Calls
  imports Seal
begin

text \<open>
  Call arguments: the typed builders of \<open>crates/matter-sdk/src/calls.rs\<close> and the conversions to
  dynamic values of \<open>chain/facade.rs\<close>. The dynamic \<open>Value\<close> of subxt's \<open>scale_value\<close> is
  third-party: it is a type \<open>'v\<close> with the record \<open>scale_lib\<close> of constructors and the view that
  pattern matching uses; what the sources rely on is the locale \<open>scale_values\<close>, and \<open>value\<close>
  is a tree type that has it.
\<close>

section \<open>Dynamic values\<close>

datatype 'v value_def = VariantDef str | NamedDef "(str \<times> 'v) list" | OtherDef

record 'v scale_lib =
  v_u128 :: "u128 \<Rightarrow> 'v"
  v_bool :: "bool \<Rightarrow> 'v"
  from_bytes :: "bytes \<Rightarrow> 'v"
  unnamed_variant :: "str \<Rightarrow> 'v list \<Rightarrow> 'v"
  named_composite :: "(str \<times> 'v) list \<Rightarrow> 'v"
  unnamed_composite :: "'v list \<Rightarrow> 'v"
  view :: "'v \<Rightarrow> 'v value_def"
  call_into_value :: "str \<Rightarrow> str \<Rightarrow> 'v list \<Rightarrow> 'v"

locale scale_values =
  fixes V :: "'v scale_lib"
  assumes view_variant: "view V (unnamed_variant V n vs) = VariantDef n"
    and view_named: "view V (named_composite V fs) = NamedDef fs"
    and view_other: "view V (v_u128 V i) = OtherDef" "view V (from_bytes V bs) = OtherDef"
      "view V (v_bool V b) = OtherDef" "view V (unnamed_composite V vs) = OtherDef"
    and u128_inj: "v_u128 V i = v_u128 V j \<longleftrightarrow> i = j"
    and bytes_inj: "from_bytes V bs = from_bytes V cs \<longleftrightarrow> bs = cs"
    and variant_inj: "unnamed_variant V n vs = unnamed_variant V m ws \<longleftrightarrow> n = m \<and> vs = ws"
    and call_inj: "call_into_value V p c a = call_into_value V p' c' a' \<longleftrightarrow> p = p' \<and> c = c' \<and> a = a'"

text \<open>A call as \<open>subxt::dynamic::tx\<close> names it.\<close>

record 'v call_payload =
  cp_pallet :: str
  cp_call :: str
  cp_args :: "'v list"

definition dynamic_tx :: "str \<Rightarrow> str \<Rightarrow> 'v list \<Rightarrow> 'v call_payload" where
  "dynamic_tx pallet call args = \<lparr>cp_pallet = pallet, cp_call = call, cp_args = args\<rparr>"

section \<open>Typed arguments\<close>

record store_secret =
  ss_payload :: encrypted_secret
  ss_epoch :: u32
  ss_label :: bytes
  ss_aad :: bytes

definition store_secret_new :: "encrypted_secret \<Rightarrow> u32 \<Rightarrow> bytes \<Rightarrow> aad \<Rightarrow> store_secret" where
  "store_secret_new env epoch label a =
     \<lparr>ss_payload = env, ss_epoch = epoch, ss_label = label, ss_aad = aad_as_bytes a\<rparr>"

record rotate_secret =
  rs_secret_id :: u128
  rs_payload :: encrypted_secret
  rs_epoch :: u32
  rs_aad :: bytes

definition rotate_secret_new :: "u128 \<Rightarrow> encrypted_secret \<Rightarrow> u32 \<Rightarrow> aad \<Rightarrow> rotate_secret" where
  "rotate_secret_new i env epoch a =
     \<lparr>rs_secret_id = i, rs_payload = env, rs_epoch = epoch, rs_aad = aad_as_bytes a\<rparr>"

datatype grant_target = User bytes | Deployment u128

fun variant_index :: "grant_target \<Rightarrow> u8" where
  "variant_index (User _) = 0"
| "variant_index (Deployment _) = 1"

fun variant_name :: "grant_target \<Rightarrow> str" where
  "variant_name (User _) = ''User''"
| "variant_name (Deployment _) = ''Deployment''"

record grant_access =
  ga_secret_id :: u128
  ga_target :: grant_target

definition grant_to_user :: "u128 \<Rightarrow> bytes \<Rightarrow> grant_access" where
  "grant_to_user i acct = \<lparr>ga_secret_id = i, ga_target = User acct\<rparr>"

definition grant_to_deployment :: "u128 \<Rightarrow> u128 \<Rightarrow> grant_access" where
  "grant_to_deployment i d = \<lparr>ga_secret_id = i, ga_target = Deployment d\<rparr>"

record revoke_access =
  ra_secret_id :: u128
  ra_target :: grant_target

definition revoke_from_user :: "u128 \<Rightarrow> bytes \<Rightarrow> revoke_access" where
  "revoke_from_user i acct = \<lparr>ra_secret_id = i, ra_target = User acct\<rparr>"

definition revoke_from_deployment :: "u128 \<Rightarrow> u128 \<Rightarrow> revoke_access" where
  "revoke_from_deployment i d = \<lparr>ra_secret_id = i, ra_target = Deployment d\<rparr>"

datatype delete_secret = DeleteSecret u128

section \<open>As dynamic values\<close>

fun grant_target_value :: "'v scale_lib \<Rightarrow> grant_target \<Rightarrow> 'v" where
  "grant_target_value V (User acct) = unnamed_variant V ''User'' [from_bytes V acct]"
| "grant_target_value V (Deployment i) = unnamed_variant V ''Deployment'' [v_u128 V i]"

definition envelope_value :: "'v scale_lib \<Rightarrow> encrypted_secret \<Rightarrow> 'v" where
  "envelope_value V env =
     named_composite V
       [(''binding_id'', from_bytes V (binding_id env)), (''capsule'', from_bytes V (capsule env)),
        (''proof'', from_bytes V (proof_blob env)), (''ct'', from_bytes V (ct env))]"

definition store_secret_to_values :: "'v scale_lib \<Rightarrow> store_secret \<Rightarrow> 'v list" where
  "store_secret_to_values V s =
     [envelope_value V (ss_payload s), v_u128 V (ucast (ss_epoch s)), from_bytes V (ss_label s),
      from_bytes V (ss_aad s)]"

fun option_u128 :: "'v scale_lib \<Rightarrow> u128 option \<Rightarrow> 'v" where
  "option_u128 V (Some v) = unnamed_variant V ''Some'' [v_u128 V v]"
| "option_u128 V None = unnamed_variant V ''None'' []"

fun option_value :: "'v scale_lib \<Rightarrow> 'v option \<Rightarrow> 'v" where
  "option_value V (Some v) = unnamed_variant V ''Some'' [v]"
| "option_value V None = unnamed_variant V ''None'' []"

text \<open>\<open>Proxy.proxy(MultiAddress::Id(principal), None, call)\<close> (\<open>chain/mod.rs\<close>).\<close>

definition proxy_payload ::
  "'v scale_lib \<Rightarrow> bytes \<Rightarrow> str \<Rightarrow> str \<Rightarrow> 'v list \<Rightarrow> 'v call_payload" where
  "proxy_payload V who pallet call args =
     dynamic_tx ''Proxy'' ''proxy''
       [unnamed_variant V ''Id'' [from_bytes V who], unnamed_variant V ''None'' [],
        call_into_value V pallet call args]"

section \<open>Encodings keep what they encode\<close>

lemma ucast_u32_u128: "(ucast (a :: u32) :: u128) = ucast b \<longleftrightarrow> a = b"
  by transfer (auto simp: take_bit_eq_mod)

context scale_values
begin

lemma grant_target_value_inj: "grant_target_value V a = grant_target_value V b \<longleftrightarrow> a = b"
  by (cases a; cases b) (auto simp: variant_inj u128_inj bytes_inj)

lemma grant_target_view: "view V (grant_target_value V t) = VariantDef (variant_name t)"
  by (cases t) (simp_all add: view_variant)

lemma envelope_value_inj: "envelope_value V a = envelope_value V b \<longleftrightarrow> a = b"
proof
  assume "envelope_value V a = envelope_value V b"
  then have "view V (envelope_value V a) = view V (envelope_value V b)" by simp
  then show "a = b" by (simp add: envelope_value_def view_named bytes_inj)
qed simp

lemma store_secret_to_values_inj:
  assumes "store_secret_to_values V a = store_secret_to_values V b"
  shows "a = b"
proof -
  have "ss_epoch a = ss_epoch b"
    using assms by (simp add: store_secret_to_values_def u128_inj ucast_u32_u128)
  with assms show ?thesis
    by (simp add: store_secret_to_values_def envelope_value_inj bytes_inj)
qed

lemma proxy_payload_inj:
  "proxy_payload V w p c a = proxy_payload V w' p' c' a' \<longleftrightarrow> w = w' \<and> p = p' \<and> c = c' \<and> a = a'"
  by (auto simp: proxy_payload_def dynamic_tx_def variant_inj bytes_inj call_inj)

end

section \<open>A tree of values\<close>

datatype tval = U128 u128 | Bool bool | Bytes bytes | Variant str "tval list"
  | Named "(str \<times> tval) list" | Unnamed "tval list" | Call str str "tval list"


definition scale_ref :: "tval scale_lib" where
  "scale_ref =
     \<lparr>v_u128 = U128, v_bool = Bool, from_bytes = Bytes, unnamed_variant = Variant,
      named_composite = Named, unnamed_composite = Unnamed,
      view = (\<lambda>v. case v of Variant n _ \<Rightarrow> VariantDef n | Named fs \<Rightarrow> NamedDef fs | _ \<Rightarrow> OtherDef),
      call_into_value = Call\<rparr>"

interpretation scaler: scale_values scale_ref
  by unfold_locales (simp_all add: scale_ref_def)

end
