(* ===== verification/Subxt.thy ===== *)
theory Subxt
  imports Calls Signer
begin

text \<open>
  The chain library as the client of \<open>crates/matter-sdk/src/chain/\<close> uses it. \<open>subxt\<close> is
  third-party: a client handle is the record \<open>subxt\<close> of the calls the sources make on it, acting
  on the environment \<open>'w\<close> (the node, the chain, the clock). Its errors are a type \<open>'e\<close> with the
  two observations the sources make: the text, and the module error of a failed dispatch. The
  asynchronous calls are functions of the environment that return the new one; the timer of
  tokio is a parameter of the operations that use it.
\<close>

section \<open>Parameters\<close>

record event_details =
  ev_pallet :: str
  ev_variant :: str
  ev_field_bytes :: bytes

text \<open>
  The error type \<open>'e\<close>, the partial extrinsic \<open>'p\<close>, the submitted extrinsic \<open>'h\<close> and the block it
  was included in \<open>'b\<close> are subxt's own. An event that does not decode is \<open>None\<close>.
\<close>

record ('w, 'v, 'e, 'p, 'h, 'b) subxt =
  x_error_text :: "'e \<Rightarrow> str"
  x_module_error :: "'e \<Rightarrow> (str \<times> str) option"
  x_runtime_traits :: "(str \<times> str list) list"
  x_agent_key_latest :: "'w \<Rightarrow> ('e + unit) \<times> 'w"
  x_agent_key_call :: "'v call_payload \<Rightarrow> 'w \<Rightarrow> ('e + bytes) \<times> 'w"
  x_agent_key_decode :: "bytes \<Rightarrow> str + (bytes \<times> u32) option"
  x_create_partial :: "'v call_payload \<Rightarrow> bytes \<Rightarrow> 'w \<Rightarrow> ('e + 'p) \<times> 'w"
  x_signer_payload :: "'p \<Rightarrow> bytes"
  x_submit :: "'p \<Rightarrow> bytes \<Rightarrow> bytes \<Rightarrow> 'w \<Rightarrow> ('e + 'h) \<times> 'w"
  x_wait_finalized :: "'h \<Rightarrow> 'w \<Rightarrow> ('e + 'b) \<times> 'w"
  x_block_hash :: "'b \<Rightarrow> bytes"
  x_extrinsic_hash :: "'b \<Rightarrow> bytes"
  x_wait_success :: "'b \<Rightarrow> 'w \<Rightarrow> ('e + event_details option list) \<times> 'w"
  x_decode_dispatch :: "bytes \<Rightarrow> str + str"
  x_ss58 :: "bytes \<Rightarrow> str"

section \<open>Errors of the seam\<close>

definition rpc_error :: "str \<Rightarrow> str \<Rightarrow> sdk_error" where
  "rpc_error target text = Chain target text"

definition chain_error :: "str \<Rightarrow> str \<Rightarrow> str \<Rightarrow> sdk_error" where
  "chain_error pallet item text = Chain (pallet @ ''.'' @ item) text"

section \<open>Asynchronous steps\<close>

text \<open>\<open>let x = step.await?; k(x)\<close>.\<close>

definition abind :: "('w \<Rightarrow> ('e + 'a) \<times> 'w) \<Rightarrow> ('a \<Rightarrow> 'w \<Rightarrow> ('e + 'c) \<times> 'w) \<Rightarrow> 'w \<Rightarrow> ('e + 'c) \<times> 'w" where
  "abind m k w = (case m w of (Inl e, w1) \<Rightarrow> (Inl e, w1) | (Inr x, w1) \<Rightarrow> k x w1)"

definition amap_err :: "('e \<Rightarrow> 'f) \<Rightarrow> ('w \<Rightarrow> ('e + 'a) \<times> 'w) \<Rightarrow> 'w \<Rightarrow> ('f + 'a) \<times> 'w" where
  "amap_err f m w = (let (r, w1) = m w in (map_err f r, w1))"

definition apure :: "'e + 'a \<Rightarrow> 'w \<Rightarrow> ('e + 'a) \<times> 'w" where
  "apure r w = (r, w)"

lemma abind_Ok [res_simps]:
  "abind m k w = (Inr y, w') \<longleftrightarrow> (\<exists>x w1. m w = (Inr x, w1) \<and> k x w1 = (Inr y, w'))"
  by (auto simp: abind_def split: prod.splits sum.splits)

lemma abind_OkE:
  assumes "abind m k w = (Inr y, w')"
  obtains x w1 where "m w = (Inr x, w1)" "k x w1 = (Inr y, w')"
  using assms by (auto simp: abind_Ok)

lemma abind_Err [res_simps]:
  "abind m k w = (Inl e, w') \<longleftrightarrow>
     m w = (Inl e, w') \<or> (\<exists>x w1. m w = (Inr x, w1) \<and> k x w1 = (Inl e, w'))"
  by (auto simp: abind_def split: prod.splits sum.splits)

lemma amap_err_Ok [res_simps]: "amap_err f m w = (Inr y, w') \<longleftrightarrow> m w = (Inr y, w')"
  by (auto simp: amap_err_def map_err_Ok split: prod.splits)

lemma amap_err_Err [res_simps]:
  "amap_err f m w = (Inl e, w') \<longleftrightarrow> (\<exists>e'. m w = (Inl e', w') \<and> e = f e')"
  by (auto simp: amap_err_def map_err_Err split: prod.splits)

lemma apure_eq [res_simps]: "apure r w = (s, w') \<longleftrightarrow> r = s \<and> w = w'"
  by (auto simp: apure_def)

section \<open>A reference instance\<close>

text \<open>
  A chain on a clock: the grant it reports, and what it says to a submission, may change with
  the time; every submission and every grant read takes one tick.
\<close>

definition subxt_ref ::
  "(nat \<Rightarrow> (bytes \<times> u32) option) \<Rightarrow> (nat \<Rightarrow> (str \<times> (str \<times> str) option) option) \<Rightarrow>
   (str \<times> (str \<times> str) option) + event_details option list \<Rightarrow>
   (nat, tval, str \<times> (str \<times> str) option, tval call_payload, tval call_payload, tval call_payload) subxt" where
  "subxt_ref grant refusal success =
     \<lparr>x_error_text = fst, x_module_error = snd,
      x_runtime_traits = [(''Core'', [''version'']), (''BudgetsApi'', [''agent_key''])],
      x_agent_key_latest = (\<lambda>w. (Ok (), w)),
      x_agent_key_call = (\<lambda>_ w. (Ok [word_of_nat w], w + 1)),
      x_agent_key_decode = (\<lambda>bs. Ok (grant (unat (hd bs)))),
      x_create_partial = (\<lambda>payload _ w. (Ok payload, w)),
      x_signer_payload = (\<lambda>_. []),
      x_submit = (\<lambda>p _ _ w. (case refusal w of Some e \<Rightarrow> Err e | None \<Rightarrow> Ok p, w + 1)),
      x_wait_finalized = (\<lambda>h w. (Ok h, w)),
      x_block_hash = (\<lambda>_. [1]), x_extrinsic_hash = (\<lambda>_. [2]),
      x_wait_success = (\<lambda>_ w. (success, w)),
      x_decode_dispatch = (\<lambda>_. Ok ''BadOrigin''),
      x_ss58 = (\<lambda>_. ''5'')\<rparr>"

end
