(* ===== verification/Scopes_Table.thy ===== *)
theory Scopes_Table
  imports Scopes Calls
begin

text \<open>
  \<open>crates/matter-sdk/src/chain/scopes_table.rs\<close>: what \<open>pallet.call(args)\<close> requires of a
  delegated key's scopes, or that no key may make it. The arms are in the order of the source;
  the arguments matter only for the two calls that can ship a secret.
\<close>

section \<open>The table\<close>

definition write_scope :: "scope \<Rightarrow> scope_set" where
  "write_scope s = single s Write"

definition DEPLOY_WITH_SECRET :: scope_set where
  "DEPLOY_WITH_SECRET = with_grant (write_scope Deployments) Secrets Read"

definition SCOPED_PALLETS :: "str list" where
  "SCOPED_PALLETS = [''Jobs'', ''Collaborations'', ''Secrets'', ''Volumes'', ''Datasets'',
     ''OverlayNetworks'', ''Resources'', ''Organizations'', ''Budgets'', ''Communities'']"

definition NEVER_ADMITTED :: "(str \<times> str list) list" where
  "NEVER_ADMITTED =
    [(''Jobs'', [''update_deployment_status'', ''set_deployment_network'', ''report_tls_status'']),
     (''Resources'',
       [''report_consumption'', ''request_consumption_report'', ''report_capacity'', ''update_sku'',
        ''remove_sku'', ''set_provider_min_stake'']),
     (''Collaborations'', [''set_compute_node_image'', ''set_compute_node_sku_id'']),
     (''OverlayNetworks'', []), (''Volumes'', []), (''Secrets'', []),
     (''Datasets'', [''force_delist_dataset'', ''force_restore_dataset'', ''force_delete_dataset'']),
     (''Organizations'', [''create_org'', ''delete_org'']),
     (''Budgets'',
       [''fund_org_treasury'', ''withdraw_org_treasury'', ''authorize_project_deployer'',
        ''revoke_project_deployer'', ''claim_sponsorship'', ''transfer_sponsorship'',
        ''authorize_project_secrets_agent'', ''revoke_project_secrets_agent'',
        ''authorize_org_resource_operator'', ''revoke_org_resource_operator'', ''bond_org_stake'',
        ''unbond_org_stake'', ''withdraw_org_stake'', ''approve_sponsor'', ''authorize_agent_key'',
        ''revoke_agent_key'', ''fund_non_revolving_treasury'', ''withdraw_non_revolving_treasury'']),
     (''Communities'',
       [''force_delist_community'', ''force_restore_community'', ''force_delete_community''])]"

definition is_none :: "'v scale_lib \<Rightarrow> 'v option \<Rightarrow> bool" where
  "is_none V value \<longleftrightarrow>
     (case value of None \<Rightarrow> False
      | Some v \<Rightarrow> (case view V v of VariantDef name \<Rightarrow> name = ''None'' | _ \<Rightarrow> False))"

definition request_references_secret :: "'v scale_lib \<Rightarrow> 'v option \<Rightarrow> bool" where
  "request_references_secret V request =
     (case request of None \<Rightarrow> True
      | Some r \<Rightarrow>
          (case view V r of
             NamedDef fs \<Rightarrow>
               list_ex (\<lambda>name.
                 (case find (\<lambda>(field, _). field = name) fs of
                    Some (_, value) \<Rightarrow> \<not> is_none V (Some value)
                  | None \<Rightarrow> True)) [''secret_ref'', ''tls_secret_ref'']
           | _ \<Rightarrow> True))"

definition DEPLOYMENT_WRITES :: "str list" where
  "DEPLOYMENT_WRITES = [''cancel_deployment'', ''set_deployment_env'', ''set_deployment_image'',
     ''set_deployment_launch'', ''set_deployment_policy_root'', ''set_deployment_volumes'',
     ''set_deployment_restart_policy'']"

definition RESOURCE_WRITES :: "str list" where
  "RESOURCE_WRITES = [''register_resource'', ''register_private_resource'', ''register_org_resource'',
     ''reactivate_resource'', ''suspend_resource'', ''set_resource_privacy'', ''add_to_whitelist'',
     ''remove_from_whitelist'', ''update_resource_name'', ''remove_resource'']"

definition ORGANIZATION_WRITES :: "str list" where
  "ORGANIZATION_WRITES = [''add_member'', ''set_member_role'', ''remove_member'', ''create_project'',
     ''assign_to_project'', ''unassign_from_project'', ''delete_project'', ''add_project_deployment_peer'']"

definition BILLING_WRITES :: "str list" where
  "BILLING_WRITES = [''allot'', ''defund_project'', ''set_plan_allotment'', ''add_purchased_allotment'',
     ''set_purchased_allotment'', ''set_member_billing'', ''clear_member_billing'', ''set_member_gas_limit'',
     ''set_project_spend_cap'']"

definition required_scopes :: "'v scale_lib \<Rightarrow> str \<Rightarrow> str \<Rightarrow> 'v list \<Rightarrow> scope_set option" where
  "required_scopes V pallet call args =
    (if pallet = ''Jobs'' then
       (if call = ''request_deployment'' then
          Some (if request_references_secret V (case args of [] \<Rightarrow> None | a # _ \<Rightarrow> Some a)
                then DEPLOY_WITH_SECRET else write_scope Deployments)
        else if call = ''set_deployment_secret_ref'' then
          Some (if is_none V (case args of _ # b # _ \<Rightarrow> Some b | _ \<Rightarrow> None)
                then write_scope Deployments else DEPLOY_WITH_SECRET)
        else if call \<in> set DEPLOYMENT_WRITES then Some (write_scope Deployments)
        else if call \<in> set [''register_wg_peer'', ''remove_wg_peer''] then Some (write_scope Networking)
        else None)
     else if pallet = ''Collaborations'' then
       (if call \<in> set [''set_compute_node_image'', ''set_compute_node_sku_id''] then None
        else Some (write_scope Collaborations))
     else if pallet = ''Secrets'' then Some (write_scope Secrets)
     else if pallet = ''Volumes'' then Some (write_scope Volumes)
     else if pallet = ''OverlayNetworks'' then Some (write_scope Networking)
     else if pallet = ''Datasets'' then
       (if call \<in> set [''force_delist_dataset'', ''force_restore_dataset'', ''force_delete_dataset''] then None
        else Some (write_scope Datasets))
     else if pallet = ''Resources'' then
       (if call \<in> set RESOURCE_WRITES then Some (write_scope Resources) else None)
     else if pallet = ''Organizations'' then
       (if call \<in> set ORGANIZATION_WRITES then Some (write_scope Organization) else None)
     else if pallet = ''Budgets'' then
       (if call \<in> set BILLING_WRITES then Some (write_scope Billing) else None)
     else if pallet = ''Communities'' then
       (if call \<in> set [''force_delist_community'', ''force_restore_community'', ''force_delete_community'']
        then None else Some (write_scope Communities))
     else None)"

section \<open>What the table grants\<close>

lemma write_scope_table:
  "list_all (\<lambda>s. is_valid (write_scope s) \<and> contains (write_scope s) s Write \<and>
     is_superset SET_ALL (write_scope s)) scope_ALL"
  by code_simp

lemma write_scope_facts:
  "is_valid (write_scope s) \<and> contains (write_scope s) s Write \<and> is_superset SET_ALL (write_scope s)"
  using write_scope_table by (cases s) (simp_all add: scope_ALL_def)

lemma deploy_with_secret_facts:
  "is_valid DEPLOY_WITH_SECRET \<and> contains DEPLOY_WITH_SECRET Deployments Write \<and>
   contains DEPLOY_WITH_SECRET Secrets Read \<and> is_superset DEPLOY_WITH_SECRET (write_scope Deployments)"
  by code_simp

lemma deployments_without_secrets: "\<not> contains (write_scope Deployments) Secrets Read"
  by code_simp

lemma all_superset: "is_superset SET_ALL DEPLOY_WITH_SECRET"
  by code_simp

text \<open>Every requirement is one write scope, or the deployment that ships a secret.\<close>

lemma required_scopes_unscoped: "p \<notin> set SCOPED_PALLETS \<Longrightarrow> required_scopes V p c args = None"
  by (simp add: required_scopes_def SCOPED_PALLETS_def)

lemma required_scopes_shape:
  "required_scopes V p c args = Some s \<Longrightarrow> s = DEPLOY_WITH_SECRET \<or> (\<exists>sc. s = write_scope sc)"
proof -
  define ok :: "scope_set option \<Rightarrow> bool"
    where "ok = (\<lambda>r. r = None \<or> r = Some DEPLOY_WITH_SECRET \<or> (\<exists>sc. r = Some (write_scope sc)))"
  have leaf: "ok None" "ok (Some (write_scope sc))" "ok (Some (if b then DEPLOY_WITH_SECRET else write_scope sc))"
    "ok (Some (if b then write_scope sc else DEPLOY_WITH_SECRET))" for b sc
    by (auto simp: ok_def)
  have cond: "ok x \<Longrightarrow> ok y \<Longrightarrow> ok (if b then x else y)" for b x y by simp
  have "ok (required_scopes V p c args)"
    unfolding required_scopes_def by (intro cond leaf)
  then show "required_scopes V p c args = Some s \<Longrightarrow> ?thesis"
    by (auto simp: ok_def)
qed

lemma required_scopes_cases:
  "required_scopes V p c args = Some s \<Longrightarrow>
     p \<in> set SCOPED_PALLETS \<and> (s = DEPLOY_WITH_SECRET \<or> (\<exists>sc. s = write_scope sc))"
  using required_scopes_unscoped [of p V c args] required_scopes_shape [of V p c args s] by force

text \<open>The arguments only widen: without any, a call needs at least as much.\<close>

lemma required_scopes_other_pallet:
  "p \<noteq> ''Jobs'' \<Longrightarrow> required_scopes V p c args = required_scopes V p c args'"
  by (simp only: required_scopes_def if_False)

lemma required_scopes_jobs:
  "required_scopes V ''Jobs'' c args =
     (if c = ''request_deployment'' then
        Some (if request_references_secret V (case args of [] \<Rightarrow> None | a # _ \<Rightarrow> Some a)
              then DEPLOY_WITH_SECRET else write_scope Deployments)
      else if c = ''set_deployment_secret_ref'' then
        Some (if is_none V (case args of _ # b # _ \<Rightarrow> Some b | _ \<Rightarrow> None)
              then write_scope Deployments else DEPLOY_WITH_SECRET)
      else required_scopes V ''Jobs'' c [])"
proof -
  have skip: "(if b then x else if d then y else z) =
      (if b then x else if d then y else (if b then x' else if d then y' else z))"
    for b d and x y z x' y' :: "scope_set option"
    by simp
  show ?thesis
    by (simp only: required_scopes_def if_True simp_thms) (rule skip)
qed

lemma required_scopes_secret_calls:
  "required_scopes V ''Jobs'' ''request_deployment'' args =
     Some (if request_references_secret V (case args of [] \<Rightarrow> None | a # _ \<Rightarrow> Some a)
           then DEPLOY_WITH_SECRET else write_scope Deployments)"
  "required_scopes V ''Jobs'' ''set_deployment_secret_ref'' args =
     Some (if is_none V (case args of _ # b # _ \<Rightarrow> Some b | _ \<Rightarrow> None)
           then write_scope Deployments else DEPLOY_WITH_SECRET)"
  by (simp_all add: required_scopes_def)

lemma required_scopes_no_args:
  "required_scopes V p c args = Some s \<Longrightarrow>
     required_scopes V p c [] = Some s \<or>
     p = ''Jobs'' \<and> s = write_scope Deployments \<and> required_scopes V p c [] = Some DEPLOY_WITH_SECRET"
proof (cases "p = ''Jobs''")
  case True
  assume "required_scopes V p c args = Some s"
  moreover have "required_scopes V ''Jobs'' ''request_deployment'' [] = Some DEPLOY_WITH_SECRET"
    "required_scopes V ''Jobs'' ''set_deployment_secret_ref'' [] = Some DEPLOY_WITH_SECRET"
    by (simp_all add: required_scopes_secret_calls request_references_secret_def is_none_def)
  ultimately show ?thesis
    unfolding True required_scopes_jobs [of V c args]
    by (auto simp only: option.inject option.distinct split: if_split_asm)
qed (use required_scopes_other_pallet in metis)

lemma find_field: "find (\<lambda>(field, _). field = name) fs = map_option (\<lambda>v. (name, v)) (map_of fs name)"
  by (induction fs) auto

lemma never_admitted_lists:
  "list_all (\<lambda>(pallet, calls). list_all (\<lambda>c. required_scopes V pallet c args = None) calls) NEVER_ADMITTED"
  by (simp add: NEVER_ADMITTED_def required_scopes_def DEPLOYMENT_WRITES_def RESOURCE_WRITES_def
      ORGANIZATION_WRITES_def BILLING_WRITES_def)

section \<open>Properties\<close>

text \<open>
  C24. The table and the never-admitted list agree: no arguments make a listed call admissible,
  in the pallets admitted wholesale every other call is admitted, the list is per scoped
  pallet, and a pallet outside the scoped ones is never admitted.
\<close>

theorem never_admitted_agrees_with_the_table:
  "list_all (\<lambda>(pallet, calls). list_all (\<lambda>c. required_scopes V pallet c args = None) calls) NEVER_ADMITTED \<and>
   list_all (\<lambda>pallet. (required_scopes V pallet c args = None) =
       (c \<in> set (the (map_of NEVER_ADMITTED pallet))))
     [''Secrets'', ''Volumes'', ''OverlayNetworks'', ''Datasets'', ''Collaborations'', ''Communities''] \<and>
   set (map fst NEVER_ADMITTED) = set SCOPED_PALLETS \<and>
   (p \<in> set SCOPED_PALLETS \<or> required_scopes V p c args = None)"
proof (intro conjI)
  show "list_all (\<lambda>pallet. (required_scopes V pallet c args = None) =
       (c \<in> set (the (map_of NEVER_ADMITTED pallet))))
     [''Secrets'', ''Volumes'', ''OverlayNetworks'', ''Datasets'', ''Collaborations'', ''Communities'']"
    by (simp add: NEVER_ADMITTED_def required_scopes_def)
  show "set (map fst NEVER_ADMITTED) = set SCOPED_PALLETS"
    by (simp only: NEVER_ADMITTED_def SCOPED_PALLETS_def list.map fst_conv list.set insert_commute)
  show "p \<in> set SCOPED_PALLETS \<or> required_scopes V p c args = None"
    using required_scopes_cases [of V p c args] by (cases "required_scopes V p c args") auto
qed (rule never_admitted_lists)

text \<open>
  A requirement is well-formed and conservative: it is a set of defined grants with at least
  one write, every grant of it is in the full set, and a call checked without its arguments
  never needs less.
\<close>

theorem required_scopes_conservative:
  assumes "required_scopes V p c args = Some s"
  shows "is_valid s \<and> (\<exists>sc. contains s sc Write) \<and> is_superset SET_ALL s \<and>
    (\<exists>s'. required_scopes V p c [] = Some s' \<and> is_superset s' s)"
proof -
  from required_scopes_cases [OF assms] have v: "is_valid s" "\<exists>sc. contains s sc Write"
    using write_scope_facts deploy_with_secret_facts by blast+
  have refl: "is_superset s s" by (simp add: is_superset_def)
  have "is_superset SET_ALL s"
    using required_scopes_cases [OF assms] all_superset write_scope_facts by blast
  with v refl required_scopes_no_args [OF assms] deploy_with_secret_facts show ?thesis by auto
qed

theorem required_scopes_conservative_witness:
  "is_valid DEPLOY_WITH_SECRET \<and> required_scopes scale_ref ''Jobs'' ''set_deployment_secret_ref''
     [v_u128 scale_ref 1, option_u128 scale_ref (Some 7)] = Some DEPLOY_WITH_SECRET"
proof -
  have e: "required_scopes scale_ref ''Jobs'' ''set_deployment_secret_ref''
     [v_u128 scale_ref 1, option_u128 scale_ref (Some 7)] = Some DEPLOY_WITH_SECRET"
    by (simp add: required_scopes_def is_none_def scale_ref_def)
  with required_scopes_conservative [OF e] show ?thesis by blast
qed

text \<open>
  C26. Shipping a secret needs to read it: a deployment request is admitted on
  \<open>deployments:w\<close> alone exactly when it is readable and both of its secret references are
  present and \<open>None\<close>, a secret reference exactly when it is cleared; in every other case
  the requirement includes \<open>secrets:r\<close>.
\<close>

theorem secret_reference_needs_secrets_read:
  "(if \<exists>fs a b. view V r = NamedDef fs \<and> map_of fs ''secret_ref'' = Some a \<and>
         map_of fs ''tls_secret_ref'' = Some b \<and>
         view V a = VariantDef ''None'' \<and> view V b = VariantDef ''None''
    then required_scopes V ''Jobs'' ''request_deployment'' (r # rest) = Some (write_scope Deployments)
    else required_scopes V ''Jobs'' ''request_deployment'' (r # rest) = Some DEPLOY_WITH_SECRET) \<and>
   (if view V r = VariantDef ''None''
    then required_scopes V ''Jobs'' ''set_deployment_secret_ref'' (d # r # rest) = Some (write_scope Deployments)
    else required_scopes V ''Jobs'' ''set_deployment_secret_ref'' (d # r # rest) = Some DEPLOY_WITH_SECRET) \<and>
   contains DEPLOY_WITH_SECRET Secrets Read \<and> \<not> contains (write_scope Deployments) Secrets Read"
proof -
  let ?P = "\<exists>fs a b. view V r = NamedDef fs \<and> map_of fs ''secret_ref'' = Some a \<and>
         map_of fs ''tls_secret_ref'' = Some b \<and>
         view V a = VariantDef ''None'' \<and> view V b = VariantDef ''None''"
  have n: "is_none V (Some v) \<longleftrightarrow> view V v = VariantDef ''None''" for v
    by (auto simp: is_none_def split: value_def.splits)
  have "request_references_secret V (Some r) \<longleftrightarrow> \<not> ?P"
    by (auto simp: request_references_secret_def find_field n split: value_def.splits option.splits)
  then have request: "if ?P
      then required_scopes V ''Jobs'' ''request_deployment'' (r # rest) = Some (write_scope Deployments)
      else required_scopes V ''Jobs'' ''request_deployment'' (r # rest) = Some DEPLOY_WITH_SECRET"
    by (cases ?P) (simp_all only: required_scopes_secret_calls list.case if_True if_False simp_thms)
  have reference: "if view V r = VariantDef ''None''
      then required_scopes V ''Jobs'' ''set_deployment_secret_ref'' (d # r # rest) = Some (write_scope Deployments)
      else required_scopes V ''Jobs'' ''set_deployment_secret_ref'' (d # r # rest) = Some DEPLOY_WITH_SECRET"
    by (simp add: required_scopes_secret_calls n)
  show ?thesis
    using deploy_with_secret_facts deployments_without_secrets
    by (intro conjI request reference) (elim conjE, assumption)+
qed

end
