(* ===== verification/Mode.thy ===== *)
theory Mode
  imports Subxt Scopes_Table
begin

text \<open>
  \<open>crates/matter-sdk/src/chain/mode.rs\<close>: whether a client signs for itself or acts for a member.
  The mode is resolved once at connect, from the environment variable \<open>MATTER_PRINCIPAL\<close> or the
  runtime API \<open>BudgetsApi_agent_key\<close>, and compared with a fresh grant after a failure.
\<close>

section \<open>Modes\<close>

definition AGENT_KEY_TRAIT :: str where "AGENT_KEY_TRAIT = ''BudgetsApi''"

definition AGENT_KEY_METHOD :: str where "AGENT_KEY_METHOD = ''agent_key''"

definition PRINCIPAL_ENV :: str where "PRINCIPAL_ENV = ''MATTER_PRINCIPAL''"

datatype mode = Direct | Delegated account_id scope_set

fun mode_principal :: "mode \<Rightarrow> account_id option" where
  "mode_principal Direct = None"
| "mode_principal (Delegated who scopes) = Some who"

fun mode_scopes :: "mode \<Rightarrow> scope_set option" where
  "mode_scopes Direct = None"
| "mode_scopes (Delegated who scopes) = Some scopes"

fun is_delegated :: "mode \<Rightarrow> bool" where
  "is_delegated Direct = False"
| "is_delegated (Delegated who scopes) = True"

definition decide :: "(account_id \<times> scope_set) option \<Rightarrow> account_id option \<Rightarrow> mode" where
  "decide found override =
     (case override of
        Some who \<Rightarrow> Delegated who SET_ALL
      | None \<Rightarrow> (case found of Some (who, scopes) \<Rightarrow> Delegated who scopes | None \<Rightarrow> Direct))"

section \<open>Asking the chain\<close>

definition has_runtime_api :: "(str \<times> str list) list \<Rightarrow> str \<Rightarrow> str \<Rightarrow> bool" where
  "has_runtime_api traits trait_name method_name \<longleftrightarrow>
     (case map_of traits trait_name of None \<Rightarrow> False | Some ms \<Rightarrow> method_name \<in> set ms)"

definition supports_agent_keys :: "(str \<times> str list) list \<Rightarrow> bool" where
  "supports_agent_keys traits = has_runtime_api traits AGENT_KEY_TRAIT AGENT_KEY_METHOD"

definition AGENT_KEY_TARGET :: str where
  "AGENT_KEY_TARGET = AGENT_KEY_TRAIT @ ''_'' @ AGENT_KEY_METHOD"

definition runtime_api_error :: "str \<Rightarrow> sdk_error" where
  "runtime_api_error text = Chain AGENT_KEY_TARGET text"

definition lookup ::
  "'v scale_lib \<Rightarrow> ('w, 'v, 'e, 'p, 'h, 'b) subxt \<Rightarrow> account_id \<Rightarrow> 'w
     \<Rightarrow> (sdk_error + (account_id \<times> scope_set) option) \<times> 'w" where
  "lookup V X key w =
     (if \<not> supports_agent_keys (x_runtime_traits X) then (Ok None, w)
      else
        abind (amap_err (\<lambda>e. runtime_api_error (x_error_text X e)) (x_agent_key_latest X)) (\<lambda>_.
        abind (amap_err (\<lambda>e. runtime_api_error (x_error_text X e))
                 (x_agent_key_call X
                    (dynamic_tx AGENT_KEY_TRAIT AGENT_KEY_METHOD [from_bytes V (as_bytes key)]))) (\<lambda>thunk.
        apure (map_err
                 (\<lambda>d. Chain AGENT_KEY_TARGET (''could not decode Option<(AccountId, ScopeSet)>: '' @ d))
                 (map_sum id (map_option (\<lambda>(who, b). (AccountId who, Scopes.from_bits b)))
                    (x_agent_key_decode X thunk))))) w)"

section \<open>A fresh grant against the held one\<close>

datatype refresh = Unchanged | Rescoped scope_set | Gone

fun after_refresh :: "mode \<Rightarrow> (account_id \<times> scope_set) option \<Rightarrow> refresh" where
  "after_refresh Direct fresh = Unchanged"
| "after_refresh (Delegated who scopes) fresh =
     (case fresh of
        Some (fresh_who, fresh_scopes) \<Rightarrow>
          if fresh_who = who
          then (if fresh_scopes = scopes then Unchanged else Rescoped fresh_scopes)
          else Gone
      | None \<Rightarrow> Gone)"

section \<open>The override\<close>

text \<open>
  The process environment is a map; a variable that is unset or not Unicode is \<open>None\<close>. The
  SS58 parser of subxt's \<open>AccountId32\<close> is a parameter.
\<close>

definition bad_principal :: "str \<Rightarrow> sdk_error" where
  "bad_principal detail = Config (PRINCIPAL_ENV @ '' '' @ detail)"

definition principal_override ::
  "hex_lib \<Rightarrow> (str \<Rightarrow> bytes option) \<Rightarrow> (str \<Rightarrow> str option) \<Rightarrow> sdk_error + account_id option" where
  "principal_override H ss58 env =
     (case env PRINCIPAL_ENV of
        None \<Rightarrow> Ok None
      | Some value \<Rightarrow>
          if trim value = [] then Ok None
          else
            (case strip_prefix ''0x'' (trim value) of
               Some hex_body \<Rightarrow>
                 rbind (map_err (\<lambda>_. bad_principal ''is not valid hex'') (hex_decode H hex_body)) (\<lambda>bs.
                 if length bs = 32 then Ok (Some (AccountId bs))
                 else Err (bad_principal ''must be 32 bytes of hex''))
             | None \<Rightarrow>
                 rbind (ok_or (bad_principal ''is neither 0x-prefixed hex nor a valid SS58 address'')
                          (ss58 (trim value))) (\<lambda>bs.
                 Ok (Some (AccountId bs)))))"

definition resolve ::
  "'v scale_lib \<Rightarrow> hex_lib \<Rightarrow> (str \<Rightarrow> bytes option) \<Rightarrow> (str \<Rightarrow> str option)
     \<Rightarrow> ('w, 'v, 'e, 'p, 'h, 'b) subxt \<Rightarrow> account_id \<Rightarrow> 'w \<Rightarrow> (sdk_error + mode) \<times> 'w" where
  "resolve V H ss58 env X acct w =
     (case principal_override H ss58 env of
        Inl e \<Rightarrow> (Err e, w)
      | Inr (Some who) \<Rightarrow> (Ok (decide None (Some who)), w)
      | Inr None \<Rightarrow> abind (lookup V X acct) (\<lambda>found. apure (Ok (decide found None))) w)"

section \<open>What resolution promises\<close>

lemma after_refresh_Gone:
  "after_refresh m fresh = Gone \<longleftrightarrow>
     (\<exists>who scopes. m = Delegated who scopes \<and> map_option fst fresh \<noteq> Some who)"
  by (cases m) (auto split: option.splits prod.splits)

lemma after_refresh_Rescoped:
  "after_refresh m fresh = Rescoped held \<longleftrightarrow>
     (\<exists>who scopes. m = Delegated who scopes \<and> fresh = Some (who, held) \<and> held \<noteq> scopes)"
  by (cases m) (auto split: option.splits prod.splits)

lemma after_refresh_Unchanged:
  "after_refresh m fresh = Unchanged \<longleftrightarrow>
     m = Direct \<or> (\<exists>who scopes. m = Delegated who scopes \<and> fresh = Some (who, scopes))"
  by (cases m) (auto split: option.splits prod.splits)

lemma lookup_unsupported:
  "\<not> supports_agent_keys (x_runtime_traits X) \<Longrightarrow> lookup V X key w = (Ok None, w)"
  by (simp add: lookup_def)

lemma lookup_error:
  "lookup V X key w = (Err e, w') \<Longrightarrow> \<exists>d. e = Chain AGENT_KEY_TARGET d"
  by (auto simp: lookup_def res_simps runtime_api_error_def split: if_splits)

text \<open>
  The mode a client starts in: a well-formed \<open>MATTER_PRINCIPAL\<close> wins without asking the
  chain and carries every scope; a malformed one is a configuration error, again without asking;
  without the variable the runtime's answer decides, a runtime without the API or a key without
  a grant gives a direct client, and a failed lookup is an error, never a direct client.
\<close>

theorem mode_resolution:
  "resolve V H ss58 env X key w =
     (case principal_override H ss58 env of
        Err e \<Rightarrow> (Err e, w)
      | Ok (Some who) \<Rightarrow> (Ok (Delegated who SET_ALL), w)
      | Ok None \<Rightarrow>
          (case lookup V X key w of
             (Err e, w') \<Rightarrow> (Err e, w')
           | (Ok None, w') \<Rightarrow> (Ok Direct, w')
           | (Ok (Some (who, scopes)), w') \<Rightarrow> (Ok (Delegated who scopes), w'))) \<and>
   (supports_agent_keys (x_runtime_traits X) \<or> lookup V X key w = (Ok None, w)) \<and>
   (case principal_override H ss58 env of
      Ok None \<Rightarrow> env PRINCIPAL_ENV = None \<or> (\<exists>v. env PRINCIPAL_ENV = Some v \<and> trim v = [])
    | Ok (Some who) \<Rightarrow> \<exists>v. env PRINCIPAL_ENV = Some v \<and>
        (\<exists>bs. who = AccountId bs \<and>
           (trim v = ''0x'' @ drop 2 (trim v) \<and> hex_decode H (drop 2 (trim v)) = Ok bs \<and> length bs = 32 \<or>
            strip_prefix ''0x'' (trim v) = None \<and> ss58 (trim v) = Some bs))
    | Err e \<Rightarrow> \<exists>d. e = Config (''MATTER_PRINCIPAL '' @ d))"
proof (intro conjI)
  show "supports_agent_keys (x_runtime_traits X) \<or> lookup V X key w = (Ok None, w)"
    by (cases "supports_agent_keys (x_runtime_traits X)") (simp_all add: lookup_unsupported)
qed (auto simp: resolve_def decide_def abind_def apure_def principal_override_def bad_principal_def
      PRINCIPAL_ENV_def strip_prefix_Some res_simps split: sum.splits option.splits prod.splits if_splits)

end
