(* ===== verification/Amount.thy ===== *)
theory Amount
  imports Sdk_Error
begin

text \<open>
  \<open>crates/matter-sdk/src/chain/amount.rs\<close>: token amounts as \<open>u128\<close> plancks. Parsing and
  printing are exact decimal arithmetic at the chain's decimal count, bounded by what a
  \<open>u128\<close> holds; nothing is ever rounded.
\<close>

section \<open>Reading and padding decimal digits\<close>

datatype int_parse_error = PE_Empty | PE_InvalidDigit | PE_PosOverflow

fun int_parse_error_display :: "int_parse_error \<Rightarrow> str" where
  "int_parse_error_display PE_Empty = ''cannot parse integer from empty string''"
| "int_parse_error_display PE_InvalidDigit = ''invalid digit found in string''"
| "int_parse_error_display PE_PosOverflow = ''number too large to fit in target type''"

text \<open>\<open>u128::from_str\<close>: an optional plus sign, then checked multiply and add per digit.\<close>

fun parse_digits :: "nat \<Rightarrow> str \<Rightarrow> int_parse_error + nat" where
  "parse_digits acc [] = Ok acc"
| "parse_digits acc (c # cs) =
     (if \<not> is_ascii_digit c then Err PE_InvalidDigit
      else if 2 ^ 128 \<le> acc * 10 + (ord c - 48) then Err PE_PosOverflow
      else parse_digits (acc * 10 + (ord c - 48)) cs)"

definition parse_u128 :: "str \<Rightarrow> int_parse_error + u128" where
  "parse_u128 s =
     (case s of
        [] \<Rightarrow> Err PE_Empty
      | c # cs \<Rightarrow>
          if cs = [] \<and> (c = CHR ''+'' \<or> c = CHR ''-'') then Err PE_InvalidDigit
          else map_sum id word_of_nat (parse_digits 0 (if c = CHR ''+'' then cs else s)))"

text \<open>The number a digit string denotes.\<close>

definition digits_value :: "str \<Rightarrow> nat" where
  "digits_value s = foldl (\<lambda>n c. n * 10 + (ord c - 48)) 0 s"

text \<open>\<open>format!("{n:0>width$}")\<close>.\<close>

definition pad_zero :: "nat \<Rightarrow> str \<Rightarrow> str" where
  "pad_zero width s = replicate (width - length s) (CHR ''0'') @ s"

section \<open>Amounts\<close>

definition MAX_DECIMALS :: nat where
  "MAX_DECIMALS = 38"

definition bad_amount :: "str \<Rightarrow> sdk_error" where
  "bad_amount detail = BadAmount detail"

definition bad_amount_from :: "int_parse_error \<Rightarrow> sdk_error" where
  "bad_amount_from e =
     BadAmount (''amount does not fit in u128 ('' @ int_parse_error_display e @ '')'')"

definition parse_amount :: "str \<Rightarrow> u8 \<Rightarrow> sdk_error + u128" where
  "parse_amount input decimals =
     (let d = unat decimals in
      if MAX_DECIMALS < d then Err (bad_amount ''chain reports more decimals than a u128 can hold'')
      else
       let txt = trim input;
           body = without_prefix ''+'' txt in
       if body = [] then Err (bad_amount ''amount is empty'')
       else if starts_with ''-'' body then Err (bad_amount ''amount must not be negative'')
       else
        let (whole, fraction) =
          (case split_once (CHR ''.'') body of Some (w, f) \<Rightarrow> (w, f) | None \<Rightarrow> (body, [])) in
        if whole = [] \<or> CHR ''.'' \<in> set body \<and> fraction = [] then
          Err (bad_amount ''amount needs digits on both sides of the decimal point'')
        else if \<not> list_all is_ascii_digit whole \<or> \<not> list_all is_ascii_digit fraction then
          Err (bad_amount ''amount must be decimal digits with at most one point'')
        else if d < length fraction then
          Err (bad_amount ''amount has more fractional digits than this chain's decimals'')
        else
         let digits = whole @ fraction @ replicate (d - length fraction) (CHR ''0'') in
         (case parse_u128 (trim_start_matches (CHR ''0'') digits) of
            Inr v \<Rightarrow> Ok v
          | Inl e \<Rightarrow> if list_all (\<lambda>b. b = CHR ''0'') digits then Ok 0 else Err (bad_amount_from e)))"

definition format_amount :: "u128 \<Rightarrow> u8 \<Rightarrow> str" where
  "format_amount plancks decimals =
     (let d = unat decimals in
      if d = 0 then show_nat (unat plancks)
      else
       let digits = pad_zero (d + 1) (show_nat (unat plancks));
           split = length digits - d;
           whole = take split digits;
           fraction = trim_end_matches (CHR ''0'') (drop split digits) in
       if fraction = [] then whole else whole @ ''.'' @ fraction)"

text \<open>
  \<open>10u128.pow(decimals)\<close>; \<open>None\<close> is the overflow, a panic where overflow checks are on.
\<close>

definition one_token :: "u8 \<Rightarrow> u128 option" where
  "one_token decimals =
     (if 10 ^ unat decimals < (2 :: nat) ^ 128 then Some (word_of_nat (10 ^ unat decimals)) else None)"

section \<open>Facts about digits\<close>

lemma digit_char_facts:
  "d < 10 \<Longrightarrow> is_ascii_digit (digit_char d) \<and> ord (digit_char d) - 48 = d"
  by (simp add: is_ascii_digit_def digit_char_def)

lemma digits_value_append:
  "digits_value (a @ b) = digits_value a * 10 ^ length b + digits_value b"
proof (induction b rule: rev_induct)
  case (snoc c b)
  then show ?case
    unfolding digits_value_def by (simp add: algebra_simps flip: append_assoc)
qed (simp add: digits_value_def)

lemma digits_value_single: "digits_value [c] = ord c - 48"
  by (simp add: digits_value_def)

lemma digits_value_zeros: "digits_value (replicate n (CHR ''0'')) = 0"
  by (induction n) (simp_all add: digits_value_def)

lemma show_nat_facts:
  "list_all is_ascii_digit (show_nat n) \<and> show_nat n \<noteq> [] \<and> digits_value (show_nat n) = n \<and>
   (n < 10 ^ length (show_nat n)) \<and> (0 < n \<longrightarrow> hd (show_nat n) \<noteq> CHR ''0'')"
proof (induction n rule: show_nat.induct)
  case (1 n)
  show ?case
  proof (cases "n < 10")
    case True
    have "digit_char n \<noteq> CHR ''0''" if "0 < n"
      using digit_char_facts [OF True] that by auto
    with True show ?thesis
      by (simp add: show_nat.simps [of n] digit_char_facts digits_value_single)
  next
    case False
    have "n mod 10 < 10" by simp
    note d = digit_char_facts [OF this]
    have "n div 10 < 10 ^ length (show_nat (n div 10))" using "1.IH" False by simp
    then have "n < 10 ^ Suc (length (show_nat (n div 10)))" by (simp add: div_less_iff_less_mult)
    moreover have "digits_value (show_nat n) = n"
      using "1.IH" False d
      by (simp add: show_nat.simps [of n] digits_value_append digits_value_single)
    moreover have "0 < n div 10" using False by simp
    ultimately show ?thesis using "1.IH" False d
      by (simp add: show_nat.simps [of n] hd_append)
  qed
qed

lemmas show_nat_digits = show_nat_facts [THEN conjunct1]
lemmas show_nat_value = show_nat_facts [THEN conjunct2, THEN conjunct2, THEN conjunct1]

text \<open>Checked parsing computes the value, or reports the overflow.\<close>

lemma digits_value_ge:
  "list_all is_ascii_digit cs \<Longrightarrow> foldl (\<lambda>n c. n * 10 + (ord c - 48)) acc cs \<ge> acc"
proof (induction cs arbitrary: acc)
  case (Cons c cs)
  then have "acc * 10 + (ord c - 48) \<le> foldl (\<lambda>n c. n * 10 + (ord c - 48)) (acc * 10 + (ord c - 48)) cs"
    by simp
  then show ?case by simp
qed simp

lemma parse_digits_value:
  "list_all is_ascii_digit cs \<Longrightarrow> parse_digits acc cs =
     (let v = foldl (\<lambda>n c. n * 10 + (ord c - 48)) acc cs in
      if cs = [] \<or> v < 2 ^ 128 then Ok v else Err PE_PosOverflow)"
proof (induction cs arbitrary: acc)
  case (Cons c cs)
  then show ?case
    using digits_value_ge [of cs "acc * 10 + (ord c - 48)"] by (auto simp: Let_def)
qed simp

lemma parse_u128_digits:
  assumes "list_all is_ascii_digit s" "s \<noteq> []"
  shows "parse_u128 s =
    (if digits_value s < 2 ^ 128 then Ok (word_of_nat (digits_value s)) else Err PE_PosOverflow)"
proof -
  from assms obtain c cs where s: "s = c # cs" "is_ascii_digit c" by (cases s) auto
  then have "c \<noteq> CHR ''+''" "c \<noteq> CHR ''-''" "ord c - 48 < (10 :: nat)" by (auto simp: is_ascii_digit_def)
  with s assms show ?thesis
    by (simp add: parse_u128_def parse_digits_value Let_def digits_value_def)
qed

lemma strip_leading_zeros:
  "digits_value (trim_start_matches (CHR ''0'') s) = digits_value s \<and>
   (trim_start_matches (CHR ''0'') s = [] \<longleftrightarrow> list_all (\<lambda>b. b = CHR ''0'') s)"
proof (induction s)
  case (Cons c s)
  have "digits_value (CHR ''0'' # s) = digits_value s"
    using digits_value_append [of "[CHR ''0'']" s] by (simp add: digits_value_single)
  with Cons show ?case by (auto simp: trim_start_matches_def)
qed (simp add: trim_start_matches_def)

lemma strip_leading_zeros_digits:
  "list_all is_ascii_digit s \<Longrightarrow> list_all is_ascii_digit (trim_start_matches (CHR ''0'') s)"
  by (auto simp: trim_start_matches_def list_all_iff dest: set_dropWhileD)

text \<open>The last step of \<open>parse_amount\<close>: digits to plancks.\<close>

lemma digits_to_plancks:
  assumes "list_all is_ascii_digit digits" "digits \<noteq> []"
  shows "(case parse_u128 (trim_start_matches (CHR ''0'') digits) of
            Inr v \<Rightarrow> Ok v
          | Inl e \<Rightarrow> if list_all (\<lambda>b. b = CHR ''0'') digits then Ok 0 else Err (bad_amount_from e)) =
    (if digits_value digits < 2 ^ 128 then Ok (word_of_nat (digits_value digits))
     else Err (bad_amount_from PE_PosOverflow))"
proof (cases "trim_start_matches (CHR ''0'') digits = []")
  case True
  moreover have "digits_value [] = 0" by (simp add: digits_value_def)
  ultimately have "digits_value (trim_start_matches (CHR ''0'') digits) = 0" by simp
  then have "digits_value digits = 0" using strip_leading_zeros [of digits] by metis
  with True strip_leading_zeros [of digits] show ?thesis by (simp add: parse_u128_def)
next
  case False
  with strip_leading_zeros_digits [OF assms(1)] parse_u128_digits strip_leading_zeros [of digits]
  show ?thesis by auto
qed

section \<open>What is parsed\<close>

text \<open>A decimal text: digits, or digits on both sides of one point.\<close>

definition decimal_text :: "str \<Rightarrow> str \<Rightarrow> str \<Rightarrow> bool" where
  "decimal_text body whole fraction \<longleftrightarrow>
     body = whole @ (if fraction = [] then [] else CHR ''.'' # fraction) \<and> whole \<noteq> [] \<and>
     list_all is_ascii_digit whole \<and> list_all is_ascii_digit fraction"

lemma digits_no_sign: "list_all is_ascii_digit s \<Longrightarrow> CHR ''.'' \<notin> set s \<and> CHR ''+'' \<notin> set s \<and> CHR ''-'' \<notin> set s"
  by (auto simp: list_all_iff is_ascii_digit_def)

lemma decimal_text_split:
  "decimal_text body whole fraction \<Longrightarrow>
     (case split_once (CHR ''.'') body of Some (w, f) \<Rightarrow> (w, f) | None \<Rightarrow> (body, [])) = (whole, fraction)"
  using digits_no_sign [of whole] split_once_Some [of "CHR ''.''" body whole fraction]
    split_once_None [of "CHR ''.''" body]
  by (auto simp: decimal_text_def split: option.splits if_splits)

lemma decimal_text_unique:
  "decimal_text body w f \<Longrightarrow> decimal_text body w' f' \<Longrightarrow> w = w' \<and> f = f'"
  using decimal_text_split [of body w f] decimal_text_split [of body w' f'] by simp

lemma parse_amount_decimal:
  assumes "decimal_text (without_prefix ''+'' (trim input)) whole fraction" "unat d \<le> 38"
  shows "parse_amount input d =
    (if unat d < length fraction
     then Err (bad_amount ''amount has more fractional digits than this chain's decimals'')
     else if digits_value (whole @ fraction) * 10 ^ (unat d - length fraction) < 2 ^ 128
     then Ok (word_of_nat (digits_value (whole @ fraction) * 10 ^ (unat d - length fraction)))
     else Err (bad_amount_from PE_PosOverflow))"
proof -
  let ?body = "without_prefix ''+'' (trim input)"
  let ?digits = "whole @ fraction @ replicate (unat d - length fraction) (CHR ''0'')"
  from assms(1) have w: "whole \<noteq> []" "list_all is_ascii_digit whole" "list_all is_ascii_digit fraction"
    "?body = whole @ (if fraction = [] then [] else CHR ''.'' # fraction)"
    by (simp_all add: decimal_text_def)
  have sign: "\<not> starts_with ''-'' ?body" "?body \<noteq> []"
    using w digits_no_sign [OF w(2)] by (cases whole; auto simp: starts_with_iff)+
  note split = decimal_text_split [OF assms(1)]
  have point: "\<not> (whole = [] \<or> CHR ''.'' \<in> set ?body \<and> fraction = [])"
    using w digits_no_sign [OF w(2)] by auto
  have v: "digits_value ?digits = digits_value (whole @ fraction) * 10 ^ (unat d - length fraction)"
    using digits_value_append [of "whole @ fraction" "replicate (unat d - length fraction) (CHR ''0'')"]
    by (simp add: digits_value_zeros)
  have digits: "list_all is_ascii_digit ?digits" "?digits \<noteq> []"
    using w by (auto simp: list_all_iff is_ascii_digit_def)
  show ?thesis
    using assms(2) sign w(2,3) unfolding parse_amount_def Let_def split prod.case
      digits_to_plancks [OF digits] v MAX_DECIMALS_def if_not_P [OF point]
    by (simp add: not_less)
qed

lemma parse_amount_Ok_decimal:
  assumes "parse_amount input d = Ok v"
  shows "unat d \<le> 38 \<and> (\<exists>whole fraction. decimal_text (without_prefix ''+'' (trim input)) whole fraction \<and>
    length fraction \<le> unat d)"
proof -
  let ?body = "without_prefix ''+'' (trim input)"
  obtain whole fraction where wf:
    "(case split_once (CHR ''.'') ?body of Some (w, f) \<Rightarrow> (w, f) | None \<Rightarrow> (?body, [])) = (whole, fraction)"
    by fastforce
  have d: "unat d \<le> 38" using assms by (simp add: parse_amount_def Let_def MAX_DECIMALS_def split: if_splits)
  have c: "\<not> (whole = [] \<or> CHR ''.'' \<in> set ?body \<and> fraction = [])"
    "list_all is_ascii_digit whole" "list_all is_ascii_digit fraction" "length fraction \<le> unat d"
    using assms unfolding parse_amount_def Let_def wf prod.case by (auto split: if_splits)
  have "decimal_text ?body whole fraction"
    using wf c(1-3) by (auto simp: decimal_text_def split_once_Some split_once_None split: option.splits)
  with d c(4) show ?thesis by blast
qed

lemma unat_u128_of_nat: "n < 2 ^ 128 \<Longrightarrow> unat (word_of_nat n :: u128) = n"
  by (simp add: unat_of_nat)

section \<open>What is printed\<close>

lemma decimal_text_solid:
  assumes "decimal_text body whole fraction"
  shows "without_prefix ''+'' (trim body) = body"
proof -
  have sd: "solid c" if "is_ascii_digit c" for c using that by (auto simp: solid_def is_ascii_digit_def)
  from assms obtain c cs where b: "body = c # cs" "is_ascii_digit c"
    by (cases whole) (auto simp: decimal_text_def)
  have l: "is_ascii_digit (last body)"
  proof (cases "fraction = []")
    case True
    with assms show ?thesis by (auto simp: decimal_text_def list_all_iff)
  next
    case False
    with assms show ?thesis by (auto simp: decimal_text_def list_all_iff)
  qed
  have "trim body = body" using b l sd by (intro trim_solid) auto
  moreover have "c \<noteq> CHR ''+''" using b(2) by (auto simp: is_ascii_digit_def)
  then have "strip_prefix ''+'' body = None" by (simp add: b(1))
  ultimately show ?thesis by (simp add: without_prefix_def)
qed

text \<open>The parts \<open>format_amount\<close> prints.\<close>

definition amount_parts :: "u128 \<Rightarrow> u8 \<Rightarrow> str \<times> str" where
  "amount_parts v d =
     (let digits = pad_zero (unat d + 1) (show_nat (unat v));
          split = length digits - unat d in
      (take split digits, trim_end_matches (CHR ''0'') (drop split digits)))"

lemma pad_zero_facts:
  "list_all is_ascii_digit (pad_zero w (show_nat n)) \<and> w \<le> length (pad_zero w (show_nat n)) \<and>
   digits_value (pad_zero w (show_nat n)) = n"
  using show_nat_digits [of n] show_nat_value [of n]
  by (auto simp: pad_zero_def digits_value_append digits_value_zeros list_all_iff is_ascii_digit_def)

lemma format_amount_parts:
  "format_amount v d =
     (if snd (amount_parts v d) = [] then fst (amount_parts v d)
      else fst (amount_parts v d) @ ''.'' @ snd (amount_parts v d))"
proof (cases "unat d = 0")
  case True
  have "show_nat (unat v) \<noteq> []" using show_nat_facts [of "unat v"] by blast
  then have "pad_zero (unat d + 1) (show_nat (unat v)) = show_nat (unat v)"
    using True by (cases "show_nat (unat v)") (simp_all add: pad_zero_def)
  then show ?thesis using True by (simp add: format_amount_def amount_parts_def trim_end_matches_def)
next
  case False
  then show ?thesis by (simp add: format_amount_def amount_parts_def Let_def)
qed

lemma amount_parts:
  "decimal_text (format_amount v d) (fst (amount_parts v d)) (snd (amount_parts v d)) \<and>
   length (snd (amount_parts v d)) \<le> unat d \<and>
   digits_value (fst (amount_parts v d) @ snd (amount_parts v d)) *
     10 ^ (unat d - length (snd (amount_parts v d))) = unat v"
proof -
  define digits where "digits = pad_zero (unat d + 1) (show_nat (unat v))"
  define k where "k = length digits - unat d"
  define fr where "fr = trim_end_matches (CHR ''0'') (drop k digits)"
  have parts: "amount_parts v d = (take k digits, fr)"
    by (simp add: amount_parts_def Let_def digits_def k_def fr_def)
  have dg: "list_all is_ascii_digit digits" "unat d + 1 \<le> length digits" "digits_value digits = unat v"
    using pad_zero_facts [of "unat d + 1" "unat v"] by (simp_all add: digits_def)
  then have k: "0 < k" "length (drop k digits) = unat d" by (simp_all add: k_def)
  obtain n where n: "drop k digits = fr @ replicate n (CHR ''0'')"
    using trim_end_matches_split unfolding fr_def by blast
  have len: "length fr + n = unat d" using k(2) n by (metis length_append length_replicate)
  have "list_all is_ascii_digit (take k digits)" "list_all is_ascii_digit (drop k digits)"
    using dg(1) by (metis append_take_drop_id list_all_append)+
  moreover have "take k digits \<noteq> []" using k dg(2) by auto
  ultimately have t: "decimal_text (format_amount v d) (take k digits) fr"
    using n by (auto simp: decimal_text_def format_amount_parts parts)
  have "digits = (take k digits @ fr) @ replicate n (CHR ''0'')"
    using n by (metis append_take_drop_id append_assoc)
  then have "digits_value (take k digits @ fr) * 10 ^ n = unat v"
    using dg(3) digits_value_append [of "take k digits @ fr" "replicate n (CHR ''0'')"]
    by (simp add: digits_value_zeros)
  with t len parts show ?thesis by (metis diff_add_inverse fst_conv le_add1 snd_conv)
qed

lemma parse_amount_iff:
  "parse_amount input d = Ok v \<longleftrightarrow>
     unat d \<le> 38 \<and> (\<exists>whole fraction. decimal_text (without_prefix ''+'' (trim input)) whole fraction \<and>
       length fraction \<le> unat d \<and>
       unat v = digits_value (whole @ fraction) * 10 ^ (unat d - length fraction))"
proof (cases "unat d \<le> 38 \<and> (\<exists>whole fraction. decimal_text (without_prefix ''+'' (trim input)) whole fraction \<and>
    length fraction \<le> unat d)")
  case True
  then obtain whole fraction where w: "unat d \<le> 38"
    "decimal_text (without_prefix ''+'' (trim input)) whole fraction" "length fraction \<le> unat d" by blast
  have uniq: "whole' = whole \<and> fraction' = fraction"
    if "decimal_text (without_prefix ''+'' (trim input)) whole' fraction'" for whole' fraction'
    by (rule decimal_text_unique [OF that w(2)])
  have "(word_of_nat n = v) = (unat v = n)" if "n < 2 ^ 128" for n
    using unat_u128_of_nat [OF that] by auto
  moreover have "unat v < 2 ^ 128" using unsigned_less [of v, where 'a = nat] by simp
  moreover define N where "N = digits_value (whole @ fraction) * 10 ^ (unat d - length fraction)"
  ultimately have "parse_amount input d = Ok v \<longleftrightarrow> unat v = N"
    using w(3) unfolding parse_amount_decimal [OF w(2,1)] N_def [symmetric]
    by (cases "N < 2 ^ 128") (simp_all add: not_less)
  also have "\<dots> \<longleftrightarrow> unat d \<le> 38 \<and> (\<exists>whole fraction. decimal_text (without_prefix ''+'' (trim input)) whole fraction \<and>
       length fraction \<le> unat d \<and>
       unat v = digits_value (whole @ fraction) * 10 ^ (unat d - length fraction))"
    using w uniq unfolding N_def by metis
  finally show ?thesis .
next
  case False
  then show ?thesis using parse_amount_Ok_decimal by blast
qed

section \<open>Properties\<close>

text \<open>
  C33. Parsing is exact: an amount is accepted exactly when the chain has at most 38 decimals
  and the text (trimmed, with an optional plus) is a decimal number with at most that many
  fractional digits whose planck value fits a \<open>u128\<close>; the result is that value, never rounded.
\<close>

theorem parse_amount_exact:
  "parse_amount input d = Ok v \<longleftrightarrow>
     unat d \<le> 38 \<and> (\<exists>whole fraction. decimal_text (without_prefix ''+'' (trim input)) whole fraction \<and>
       length fraction \<le> unat d \<and>
       unat v = digits_value (whole @ fraction) * 10 ^ (unat d - length fraction))"
  by (rule parse_amount_iff)

text \<open>
  C34. Printing loses nothing that can be parsed back: at up to 38 decimals, parsing the
  printed amount gives the same plancks. Above 38 decimals \<open>parse_amount\<close> refuses every text,
  so there the printed amount is not read back.
\<close>

theorem format_parse_round_trip:
  "parse_amount (format_amount v d) d =
     (if unat d \<le> 38 then Ok v
      else Err (bad_amount ''chain reports more decimals than a u128 can hold''))"
proof (cases "unat d \<le> 38")
  case True
  let ?whole = "fst (amount_parts v d)" and ?frac = "snd (amount_parts v d)"
  have p: "decimal_text (format_amount v d) ?whole ?frac" "length ?frac \<le> unat d"
    "digits_value (?whole @ ?frac) * 10 ^ (unat d - length ?frac) = unat v"
    using amount_parts [of v d] by blast+
  from decimal_text_solid [OF p(1)]
  have "without_prefix ''+'' (trim (format_amount v d)) = format_amount v d" .
  then have "parse_amount (format_amount v d) d = Ok v"
    unfolding parse_amount_iff using p True
    by (intro conjI exI [of _ ?whole] exI [of _ ?frac]) simp_all
  with True show ?thesis by simp
qed (simp add: parse_amount_def Let_def MAX_DECIMALS_def)

text \<open>
  One token is the parsed unit exactly when it exists: \<open>one_token\<close> overflows for more than
  38 decimals, which is where \<open>parse_amount\<close> reports an error instead.
\<close>

theorem one_token_is_the_unit:
  "(case one_token d of
      Some v \<Rightarrow> unat v = 10 ^ unat d \<and> parse_amount ''1'' d = Ok v
    | None \<Rightarrow> 38 < unat d \<and>
        parse_amount ''1'' d = Err (bad_amount ''chain reports more decimals than a u128 can hold''))"
proof (cases "unat d \<le> 38")
  case True
  have "(10 :: nat) ^ unat d \<le> 10 ^ 38" using True by (rule power_increasing) simp
  then have l: "(10 :: nat) ^ unat d < 2 ^ 128" by simp
  have "decimal_text ''1'' ''1'' []" by (simp add: decimal_text_def is_ascii_digit_def)
  moreover have "without_prefix ''+'' (trim ''1'') = ''1''" by code_simp
  moreover have "digits_value ''1'' = 1" by (simp add: digits_value_def)
  ultimately have "parse_amount ''1'' d = Ok (word_of_nat (10 ^ unat d))"
    using l True parse_amount_decimal [of "''1''" "''1''" "[]" d] by simp
  with l unat_u128_of_nat [OF l] show ?thesis by (simp add: one_token_def)
next
  case False
  then have "(10 :: nat) ^ 39 \<le> 10 ^ unat d" by (intro power_increasing) simp_all
  then have "\<not> (10 :: nat) ^ unat d < 2 ^ 128" by simp
  with False show ?thesis
    by (simp add: one_token_def parse_amount_def Let_def MAX_DECIMALS_def)
qed

end
