(* ===== verification/Network.thy ===== *)
theory Network
  imports Mode Amount
begin

text \<open>
  \<open>crates/matter-sdk/src/chain/mod.rs\<close>, first half: the network configuration, what the client
  reads of the chain at connect, the guards against spending real funds by accident, and the
  constructors of \<open>MatterClient\<close>, which run them in this order: resolve the URL, connect, read
  the properties, check the guards, and only then ask who the key acts for.
\<close>

section \<open>Configuration\<close>

definition TESTNET_RPC :: str where
  "TESTNET_RPC = ''wss://node2.testnet.openmatter.network''"

definition MAINNET_RPC :: str where
  "MAINNET_RPC = ''wss://node2.mainnet.openmatter.network''"

definition TESTNET_GENESIS :: str where
  "TESTNET_GENESIS = ''d87ca10ad40194ff37525c0b5fc5997d94010107a399d03bf5672c0a7b30f058''"

definition MAINNET_TOKEN_SYMBOL :: str where
  "MAINNET_TOKEN_SYMBOL = ''MTR''"

definition CONFIRM_ENV :: str where "CONFIRM_ENV = ''MATTER_CONFIRM''"

definition CONFIRM_VALUE :: str where "CONFIRM_VALUE = ''yes''"

datatype network = Testnet | Mainnet | Custom

fun default_rpc_url :: "network \<Rightarrow> str option" where
  "default_rpc_url Testnet = Some TESTNET_RPC"
| "default_rpc_url Mainnet = Some MAINNET_RPC"
| "default_rpc_url Custom = None"

record matter_config =
  mc_network :: network
  mc_rpc_url :: "str option"
  mc_confirm_mainnet :: bool
  mc_finality_timeout :: duration

definition for_network :: "network \<Rightarrow> matter_config" where
  "for_network n =
     \<lparr>mc_network = n, mc_rpc_url = None, mc_confirm_mainnet = False,
      mc_finality_timeout = from_secs 120\<rparr>"

definition for_url :: "str \<Rightarrow> matter_config" where
  "for_url url = (for_network Custom)\<lparr>mc_rpc_url := Some url\<rparr>"

definition default_config :: matter_config where
  "default_config = for_network Testnet"

definition resolve_url :: "matter_config \<Rightarrow> sdk_error + str" where
  "resolve_url cfg =
     (case mc_rpc_url cfg of
        Some url \<Rightarrow> Ok url
      | None \<Rightarrow> ok_or (Config ''Network::Custom requires MatterConfig::rpc_url'')
                  (default_rpc_url (mc_network cfg)))"

section \<open>Chain properties\<close>

record chain_properties =
  genesis_hash :: bytes
  chain_name :: str
  spec_version :: u32
  token_symbol :: str
  ss58_prefix :: u16
  token_decimals_declared :: u8
  token_decimals_effective :: u8
  existential_deposit :: u128

definition decimals_disagree :: "chain_properties \<Rightarrow> bool" where
  "decimals_disagree p \<longleftrightarrow> token_decimals_declared p \<noteq> token_decimals_effective p"

definition is_mainnet :: "hex_lib \<Rightarrow> chain_properties \<Rightarrow> bool \<times> str" where
  "is_mainnet H p =
     (if hex_encode H (genesis_hash p) = TESTNET_GENESIS then (False, ''genesis-hash'')
      else (token_symbol p = MAINNET_TOKEN_SYMBOL, ''token-symbol''))"

definition ED_DECIMAL_OFFSET :: nat where
  "ED_DECIMAL_OFFSET = 3"

text \<open>The division loop on a \<open>u128\<close>; its exponent is at most 38.\<close>

function strip_tens :: "nat \<Rightarrow> nat \<Rightarrow> nat \<times> nat" where
  "strip_tens value exponent =
     (if 1 < value \<and> 10 dvd value then strip_tens (value div 10) (exponent + 1)
      else (value, exponent))"
  by pat_completeness auto
termination by (relation "measure fst") auto

definition decimals_from_existential_deposit :: "u128 \<Rightarrow> u8 option" where
  "decimals_from_existential_deposit ed =
     (let (value, exponent) = strip_tens (unat ed) 0 in
      if value = 1 then Some (word_of_nat (exponent + ED_DECIMAL_OFFSET)) else None)"

text \<open>
  What the node answers at connect. The JSON values of \<open>system_properties\<close> are seen through
  \<open>as_str\<close> and \<open>as_u64\<close>; errors are the rendered text, the only thing the code uses.
\<close>

datatype prop_value = PStr str | PU64 u64 | POther

fun prop_as_str :: "prop_value \<Rightarrow> str option" where
  "prop_as_str (PStr s) = Some s"
| "prop_as_str _ = None"

fun prop_as_u64 :: "prop_value \<Rightarrow> u64 option" where
  "prop_as_u64 (PU64 n) = Some n"
| "prop_as_u64 _ = None"

record 'w node_info =
  ni_system_chain :: "'w \<Rightarrow> (str + str) \<times> 'w"
  ni_system_properties :: "'w \<Rightarrow> (str + (str \<times> prop_value) list) \<times> 'w"
  ni_constant :: "str \<Rightarrow> str \<Rightarrow> str + bytes"
  ni_to_u128 :: "bytes \<Rightarrow> str + u128 option"
  ni_genesis_hash :: bytes
  ni_spec_version :: u32

definition read_existential_deposit :: "'w node_info \<Rightarrow> sdk_error + u128" where
  "read_existential_deposit N =
     rbind (map_err (chain_error ''Balances'' ''ExistentialDeposit'')
              (ni_constant N ''Balances'' ''ExistentialDeposit'')) (\<lambda>thunk.
     rbind (map_err (chain_error ''Balances'' ''ExistentialDeposit'') (ni_to_u128 N thunk)) (\<lambda>value.
     ok_or (Chain ''Balances.ExistentialDeposit'' ''constant is not an unsigned integer'') value))"

definition json_prop :: "(str \<times> prop_value) list \<Rightarrow> (prop_value \<Rightarrow> 'a option) \<Rightarrow> str \<Rightarrow> 'a \<Rightarrow> 'a" where
  "json_prop props as_a key fallback =
     (case Option.bind (map_of props key) as_a of Some v \<Rightarrow> v | None \<Rightarrow> fallback)"

definition properties_of ::
  "'w node_info \<Rightarrow> str \<Rightarrow> (str \<times> prop_value) list \<Rightarrow> u128 \<Rightarrow> chain_properties" where
  "properties_of N name props ed =
     (let declared = ucast (json_prop props prop_as_u64 ''tokenDecimals'' 0) in
      \<lparr>genesis_hash = ni_genesis_hash N, chain_name = name, spec_version = ni_spec_version N,
       token_symbol = json_prop props prop_as_str ''tokenSymbol'' [],
       ss58_prefix = ucast (json_prop props prop_as_u64 ''ss58Format'' 42),
       token_decimals_declared = declared,
       token_decimals_effective =
         (case decimals_from_existential_deposit ed of Some d \<Rightarrow> d | None \<Rightarrow> declared),
       existential_deposit = ed\<rparr>)"

definition read_properties :: "'w node_info \<Rightarrow> 'w \<Rightarrow> (sdk_error + chain_properties) \<times> 'w" where
  "read_properties N =
     abind (amap_err (rpc_error ''system_chain'') (ni_system_chain N)) (\<lambda>name.
     abind (amap_err (rpc_error ''system_properties'') (ni_system_properties N)) (\<lambda>props.
     abind (apure (read_existential_deposit N)) (\<lambda>ed.
     apure (Ok (properties_of N name props ed)))))"

section \<open>Clients\<close>

text \<open>An \<open>Arc<dyn KeySigner>\<close>: its account, and a signing call that may do I/O.\<close>

record 'w dyn_signer =
  ds_account :: account_id
  ds_sign :: "bytes \<Rightarrow> 'w \<Rightarrow> (key_error + bytes) \<times> 'w"

definition api_key_signer :: "('kp, 'm, 'j) signer_lib \<Rightarrow> 'kp api_key \<Rightarrow> 'w dyn_signer" where
  "api_key_signer L k = \<lparr>ds_account = account k, ds_sign = (\<lambda>m w. (api_key_sign L k m, w))\<rparr>"

text \<open>\<open>KeySigner for Sr25519Signer\<close>: the key it holds.\<close>

definition dev_key_signer :: "('kp, 'm, 'j) signer_lib \<Rightarrow> 'kp api_key \<Rightarrow> 'w dyn_signer" where
  "dev_key_signer L key =
     \<lparr>ds_account = account key, ds_sign = (\<lambda>m w. (api_key_sign L key m, w))\<rparr>"

record ('w, 'v, 'e, 'p, 'h, 'b) client =
  c_api :: "('w, 'v, 'e, 'p, 'h, 'b) subxt"
  c_signer :: "'w dyn_signer option"
  c_properties :: chain_properties
  c_config :: matter_config
  c_mode :: mode

definition client_account :: "('w, 'v, 'e, 'p, 'h, 'b) client \<Rightarrow> account_id option" where
  "client_account c = map_option ds_account (c_signer c)"

definition enforce_network_guards ::
  "hex_lib \<Rightarrow> (str \<Rightarrow> str option) \<Rightarrow> ('w, 'v, 'e, 'p, 'h, 'b) client \<Rightarrow> sdk_error + unit" where
  "enforce_network_guards H env c =
     (let (mainnet, detected_via) = is_mainnet H (c_properties c) in
      if mc_network (c_config c) = Testnet \<and> mainnet then
        Err (WrongNetwork ''testnet'' (chain_name (c_properties c)))
      else if \<not> mainnet \<or> c_signer c = None then Ok ()
      else if mc_confirm_mainnet (c_config c) \<or> env CONFIRM_ENV = Some CONFIRM_VALUE then Ok ()
      else Err (MainnetNotConfirmed (chain_name (c_properties c)) detected_via))"

text \<open>Opening the connection: \<open>RpcClient::from_url\<close> and \<open>OnlineClient::from_rpc_client\<close>.\<close>

record ('w, 'v, 'e, 'p, 'h, 'b) connector =
  k_rpc_from_url :: "str \<Rightarrow> 'w \<Rightarrow> (str + unit) \<times> 'w"
  k_online :: "str \<Rightarrow> 'w \<Rightarrow> (str + ('w, 'v, 'e, 'p, 'h, 'b) subxt \<times> 'w node_info) \<times> 'w"

text \<open>The libraries and the process environment a constructor uses.\<close>

record 'v libs =
  l_values :: "'v scale_lib"
  l_hex :: hex_lib
  l_ss58 :: "str \<Rightarrow> bytes option"
  l_env :: "str \<Rightarrow> str option"

definition build ::
  "'v libs \<Rightarrow> ('w, 'v, 'e, 'p, 'h, 'b) connector \<Rightarrow> matter_config \<Rightarrow> 'w dyn_signer option \<Rightarrow> 'w
     \<Rightarrow> (sdk_error + ('w, 'v, 'e, 'p, 'h, 'b) client) \<times> 'w" where
  "build E K config signer =
     abind (apure (resolve_url config)) (\<lambda>url.
     abind (amap_err (rpc_error url) (k_rpc_from_url K url)) (\<lambda>_.
     abind (amap_err (rpc_error url) (k_online K url)) (\<lambda>(api, N).
     abind (read_properties N) (\<lambda>properties.
     (let c = \<lparr>c_api = api, c_signer = signer, c_properties = properties, c_config = config,
               c_mode = Direct\<rparr> in
      abind (apure (enforce_network_guards (l_hex E) (l_env E) c)) (\<lambda>_.
      (case client_account c of
         None \<Rightarrow> apure (Ok c)
       | Some acct \<Rightarrow>
           abind (resolve (l_values E) (l_hex E) (l_ss58 E) (l_env E) api acct) (\<lambda>resolved.
           apure (Ok (c\<lparr>c_mode := resolved\<rparr>))))))))))"

definition connect ::
  "'v libs \<Rightarrow> ('w, 'v, 'e, 'p, 'h, 'b) connector \<Rightarrow> matter_config \<Rightarrow> 'w
     \<Rightarrow> (sdk_error + ('w, 'v, 'e, 'p, 'h, 'b) client) \<times> 'w" where
  "connect E K config = build E K config None"

definition connect_with_signer ::
  "'v libs \<Rightarrow> ('w, 'v, 'e, 'p, 'h, 'b) connector \<Rightarrow> matter_config \<Rightarrow> 'w dyn_signer \<Rightarrow> 'w
     \<Rightarrow> (sdk_error + ('w, 'v, 'e, 'p, 'h, 'b) client) \<times> 'w" where
  "connect_with_signer E K config signer = build E K config (Some signer)"

definition connect_with_api_key ::
  "('kp, 'm, 'j) signer_lib \<Rightarrow> 'v libs \<Rightarrow> ('w, 'v, 'e, 'p, 'h, 'b) connector \<Rightarrow> matter_config
     \<Rightarrow> 'kp api_key \<Rightarrow> 'w \<Rightarrow> (sdk_error + ('w, 'v, 'e, 'p, 'h, 'b) client) \<times> 'w" where
  "connect_with_api_key L E K config key = build E K config (Some (api_key_signer L key))"

fun env_keys ::
  "(str \<Rightarrow> key_error + 'kp api_key) \<Rightarrow> (str \<Rightarrow> str option) \<Rightarrow> str list \<Rightarrow> sdk_error + 'kp api_key option" where
  "env_keys parse env [] = Ok None"
| "env_keys parse env (var # vars) =
     (case env var of
        Some value \<Rightarrow>
          if trim value \<noteq> [] then rbind (map_err Key (parse value)) (\<lambda>k. Ok (Some k))
          else env_keys parse env vars
      | None \<Rightarrow> env_keys parse env vars)"

definition env_api_key ::
  "hex_lib \<Rightarrow> ('kp, 'm, 'j) signer_lib \<Rightarrow> (str \<Rightarrow> bool) \<Rightarrow> (str \<Rightarrow> str option)
     \<Rightarrow> sdk_error + 'kp api_key option" where
  "env_api_key H L uni env =
     env_keys (api_key_parse H L uni) env [''MATTER_API_KEY'', ''MATTER_SIGNER_SEED'']"

definition env_network :: "(str \<Rightarrow> str option) \<Rightarrow> sdk_error + network" where
  "env_network env =
     (case env ''MATTER_NETWORK'' of
        None \<Rightarrow> Ok Testnet
      | Some other \<Rightarrow>
          if other = ''mainnet'' then Ok Mainnet
          else if other = ''testnet'' then Ok Testnet
          else Err (Config (''MATTER_NETWORK must be `testnet` or `mainnet`, got `'' @ other @ ''`'')))"

definition from_env ::
  "('kp, 'm, 'j) signer_lib \<Rightarrow> (str \<Rightarrow> bool) \<Rightarrow> 'v libs \<Rightarrow> ('w, 'v, 'e, 'p, 'h, 'b) connector
     \<Rightarrow> 'w \<Rightarrow> (sdk_error + ('w, 'v, 'e, 'p, 'h, 'b) client) \<times> 'w" where
  "from_env L uni E K =
     abind (apure (env_network (l_env E))) (\<lambda>network.
     (let config = (case l_env E ''MATTER_RPC_URL'' of
                      Some url \<Rightarrow> (for_network network)\<lparr>mc_rpc_url := Some url\<rparr>
                    | None \<Rightarrow> for_network network) in
      abind (apure (env_api_key (l_hex E) L uni (l_env E))) (\<lambda>key.
      (case key of
         Some k \<Rightarrow> connect_with_api_key L E K config k
       | None \<Rightarrow> connect E K config))))"

section \<open>Facts\<close>

declare strip_tens.simps [simp del]

lemma strip_tens_result:
  "strip_tens v e = (v', e') \<Longrightarrow> e \<le> e' \<and> v = v' * 10 ^ (e' - e) \<and> (1 < v' \<longrightarrow> \<not> 10 dvd v')"
proof (induction v e arbitrary: v' e' rule: strip_tens.induct)
  case (1 v e)
  show ?case
  proof (cases "1 < v \<and> 10 dvd v")
    case True
    then have "strip_tens (v div 10) (e + 1) = (v', e')"
      using "1.prems" by (simp add: strip_tens.simps [of v e])
    with "1.IH" [OF True] True have "e + 1 \<le> e'" "v div 10 = v' * 10 ^ (e' - (e + 1))" "1 < v' \<longrightarrow> \<not> 10 dvd v'"
      by blast+
    moreover from this(1) have "(10 :: nat) ^ (e' - e) = 10 * 10 ^ (e' - (e + 1))"
      by (metis Suc_diff_le Suc_eq_plus1 diff_Suc_Suc power_Suc)
    ultimately show ?thesis using True by (auto elim!: dvdE)
  next
    case False
    then show ?thesis using "1.prems" by (auto simp: strip_tens.simps [of v e])
  qed
qed

lemma strip_tens_power: "strip_tens (10 ^ k) e = (1, e + k)"
proof (induction k arbitrary: e)
  case 0
  then show ?case by (simp add: strip_tens.simps)
next
  case (Suc k)
  have "1 < (10 :: nat) * 10 ^ k" using one_le_power [of "10 :: nat" k] by linarith
  then have "strip_tens (10 ^ Suc k) e = strip_tens (10 ^ k) (e + 1)"
    by (simp add: strip_tens.simps [of "10 * 10 ^ k"])
  with Suc show ?case by simp
qed

lemma power_ten_u128: "unat (ed :: u128) = 10 ^ k \<Longrightarrow> k \<le> 38"
proof (rule ccontr)
  assume "unat ed = 10 ^ k" "\<not> k \<le> 38"
  then have "(10 :: nat) ^ 39 \<le> unat ed" using power_increasing [of 39 k "10 :: nat"] by simp
  moreover have "unat ed < 2 ^ 128" using unsigned_less [of ed, where ?'a = nat] by simp
  ultimately show False by simp
qed

section \<open>Properties\<close>

text \<open>
  C35. The decimal count is read off the existential deposit exactly: it is recognised when
  and only when the deposit is a power of ten, the result is that exponent plus three, never
  truncated, and everything else falls back to the declared count.
\<close>

theorem decimals_are_exact:
  "(decimals_from_existential_deposit ed = Some d) = (\<exists>k. unat ed = 10 ^ k \<and> unat d = k + 3) \<and>
   token_decimals_effective (properties_of N name props ed) =
     (case decimals_from_existential_deposit ed of Some d \<Rightarrow> d
      | None \<Rightarrow> token_decimals_declared (properties_of N name props ed))"
proof (intro conjI iffI)
  assume a: "decimals_from_existential_deposit ed = Some d"
  obtain v e where s: "strip_tens (unat ed) 0 = (v, e)" by fastforce
  with a have v: "v = 1" "d = word_of_nat (e + 3)"
    by (auto simp: decimals_from_existential_deposit_def ED_DECIMAL_OFFSET_def split: if_splits)
  with strip_tens_result [OF s] have ed: "unat ed = 10 ^ e" by simp
  then have "e + 3 < 256" using power_ten_u128 [OF ed] by simp
  with v(2) have "unat d = e + 3" by (simp add: unat_of_nat_u8 del: of_nat_add)
  with ed show "\<exists>k. unat ed = 10 ^ k \<and> unat d = k + 3" by blast
next
  assume "\<exists>k. unat ed = 10 ^ k \<and> unat d = k + 3"
  then obtain k where k: "unat ed = 10 ^ k" "unat d = k + 3" by blast
  then have "d = word_of_nat (k + 3)" using power_ten_u128 [of ed k]
    by (simp add: word_unat_eq_iff unat_of_nat_u8 del: of_nat_add)
  with k(1) show "decimals_from_existential_deposit ed = Some d"
    by (simp add: decimals_from_existential_deposit_def strip_tens_power ED_DECIMAL_OFFSET_def)
qed (cases "decimals_from_existential_deposit ed"; simp add: properties_of_def Let_def)

text \<open>
  C19. The guards on spending real funds, for every way a client is built: a testnet
  configuration never gets a client on a chain that counts as mainnet, a signing client on
  mainnet exists only with the confirmation, a read-only one needs none; the client has the
  signer and configuration it was given, and its mode is the one resolved for its account,
  direct when there is no signer. A chain counts as mainnet when its genesis is not the pinned
  testnet one and its token is \<open>MTR\<close>.
\<close>

definition serves_mainnet :: "hex_lib \<Rightarrow> chain_properties \<Rightarrow> bool" where
  "serves_mainnet H p \<longleftrightarrow>
     hex_encode H (genesis_hash p) \<noteq> TESTNET_GENESIS \<and> token_symbol p = ''MTR''"

theorem connected_client_is_guarded:
  assumes "build E K cfg signer w = (Ok c, w')"
  shows "c_signer c = signer \<and> c_config c = cfg \<and>
    (serves_mainnet (l_hex E) (c_properties c) \<longrightarrow>
       mc_network cfg \<noteq> Testnet \<and>
       (signer = None \<or> mc_confirm_mainnet cfg \<or> l_env E ''MATTER_CONFIRM'' = Some ''yes'')) \<and>
    (case signer of None \<Rightarrow> c_mode c = Direct
     | Some s \<Rightarrow> \<exists>w1. resolve (l_values E) (l_hex E) (l_ss58 E) (l_env E) (c_api c) (ds_account s) w1 =
         (Ok (c_mode c), w'))"
proof -
  from assms obtain c0 w1 where c0: "enforce_network_guards (l_hex E) (l_env E) c0 = Ok ()"
    "c_signer c0 = signer" "c_config c0 = cfg" "c_mode c0 = Direct"
    and r: "(case client_account c0 of None \<Rightarrow> apure (Ok c0)
       | Some acct \<Rightarrow> abind (resolve (l_values E) (l_hex E) (l_ss58 E) (l_env E) (c_api c0) acct)
           (\<lambda>resolved. apure (Ok (c0\<lparr>c_mode := resolved\<rparr>)))) w1 = (Ok c, w')"
    unfolding build_def Let_def case_prod_unfold
    by (elim abind_OkE) (rule that, auto simp: apure_eq cong: option.case_cong)
  show ?thesis
  proof (cases signer)
    case None
    with r c0 have "c = c0" by (simp add: client_account_def apure_def)
    with c0 None show ?thesis
      by (auto simp: enforce_network_guards_def is_mainnet_def serves_mainnet_def
          MAINNET_TOKEN_SYMBOL_def split: if_splits)
  next
    case (Some s)
    with r c0 have "c = c0\<lparr>c_mode := c_mode c\<rparr>"
      "resolve (l_values E) (l_hex E) (l_ss58 E) (l_env E) (c_api c0) (ds_account s) w1 = (Ok (c_mode c), w')"
      by (auto simp: client_account_def res_simps)
    moreover from this(1) have "c_properties c = c_properties c0" "c_signer c = c_signer c0"
      "c_config c = c_config c0" "c_api c = c_api c0"
      by (metis client.select_convs client.surjective client.update_convs(5))+
    ultimately show ?thesis using c0 Some
      by (auto simp: enforce_network_guards_def is_mainnet_def serves_mainnet_def
          MAINNET_TOKEN_SYMBOL_def CONFIRM_ENV_def CONFIRM_VALUE_def split: if_splits)
  qed
qed

end
