(* ===== verification/Client.thy ===== *)
theory Client
  imports Network
begin

text \<open>
  \<open>crates/matter-sdk/src/chain/mod.rs\<close>, second half: \<open>MatterClient::tx\<close>, which builds, signs and
  submits a call and waits for its finalization, and the classification of its failures. The
  mode is the only state of a client that changes; it is returned with every result. The timer
  around submission is the parameter \<open>timer\<close>: it runs the step to its end or gives up.
\<close>

section \<open>Receipts\<close>

record receipt =
  tx_hash :: bytes
  block_hash :: bytes
  r_events :: "(str \<times> str) list"

definition block_hash_hex :: "hex_lib \<Rightarrow> receipt \<Rightarrow> str" where
  "block_hash_hex H r = ''0x'' @ hex_encode H (block_hash r)"

definition emitted :: "receipt \<Rightarrow> str \<Rightarrow> str \<Rightarrow> bool" where
  "emitted r pallet ev \<longleftrightarrow> list_ex (\<lambda>(p, e). p = pallet \<and> e = ev) (r_events r)"

section \<open>Accessors\<close>

definition client_principal :: "('w, 'v, 'e, 'p, 'h, 'b) client \<Rightarrow> account_id option" where
  "client_principal c = mode_principal (c_mode c)"

definition client_account_id :: "('w, 'v, 'e, 'p, 'h, 'b) client \<Rightarrow> bytes option" where
  "client_account_id c = map_option as_bytes (client_account c)"

definition client_scopes :: "('w, 'v, 'e, 'p, 'h, 'b) client \<Rightarrow> scope_set option" where
  "client_scopes c = mode_scopes (c_mode c)"

definition principal_address :: "('w, 'v, 'e, 'p, 'h, 'b) client \<Rightarrow> str option" where
  "principal_address c = map_option (\<lambda>i. x_ss58 (c_api c) (as_bytes i)) (client_principal c)"

definition address :: "('w, 'v, 'e, 'p, 'h, 'b) client \<Rightarrow> str option" where
  "address c = map_option (\<lambda>i. x_ss58 (c_api c) (as_bytes i)) (client_account c)"

definition client_parse_amount :: "('w, 'v, 'e, 'p, 'h, 'b) client \<Rightarrow> str \<Rightarrow> sdk_error + u128" where
  "client_parse_amount c t = parse_amount t (token_decimals_effective (c_properties c))"

definition client_format_amount :: "('w, 'v, 'e, 'p, 'h, 'b) client \<Rightarrow> u128 \<Rightarrow> str" where
  "client_format_amount c n = format_amount n (token_decimals_effective (c_properties c))"

definition client_one_token :: "('w, 'v, 'e, 'p, 'h, 'b) client \<Rightarrow> u128 option" where
  "client_one_token c = one_token (token_decimals_effective (c_properties c))"

definition require_signer :: "('w, 'v, 'e, 'p, 'h, 'b) client \<Rightarrow> sdk_error + 'w dyn_signer" where
  "require_signer c = ok_or ReadOnly (c_signer c)"

section \<open>The call to sign\<close>

definition build_payload ::
  "'v scale_lib \<Rightarrow> mode \<Rightarrow> str \<Rightarrow> str \<Rightarrow> 'v list \<Rightarrow> sdk_error + 'v call_payload" where
  "build_payload V m pallet call args =
     (case m of
        Direct \<Rightarrow> Ok (dynamic_tx pallet call args)
      | Delegated who scopes \<Rightarrow>
          if pallet \<in> set [''Proxy'', ''Utility'', ''EthSigning''] then Err (NeverAdmitted pallet call)
          else
            (case required_scopes V pallet call args of
               None \<Rightarrow> Err (NeverAdmitted pallet call)
             | Some required \<Rightarrow>
                 if \<not> is_superset scopes required then Err (NotPermitted pallet call required scopes)
                 else Ok (proxy_payload V (as_bytes who) pallet call args)))"

section \<open>Failures\<close>

definition refresh_delegation ::
  "'v scale_lib \<Rightarrow> ('w, 'v, 'e, 'p, 'h, 'b) client \<Rightarrow> 'w \<Rightarrow> ((sdk_error + refresh) \<times> mode) \<times> 'w" where
  "refresh_delegation V c w =
     (case client_account c of
        None \<Rightarrow> ((Ok Unchanged, c_mode c), w)
      | Some key \<Rightarrow>
          (case lookup V (c_api c) key w of
             (Inl e, w1) \<Rightarrow> ((Err e, c_mode c), w1)
           | (Inr fresh, w1) \<Rightarrow>
               (case (after_refresh (c_mode c) fresh, c_mode c) of
                  (Rescoped held, Delegated who _) \<Rightarrow> ((Ok (Rescoped held), Delegated who held), w1)
                | (outcome, previous) \<Rightarrow> ((Ok outcome, previous), w1))))"

definition INVALID_TRANSACTION_CODE :: str where
  "INVALID_TRANSACTION_CODE = ''1010''"

definition has_substr :: "str \<Rightarrow> str \<Rightarrow> bool" where
  "has_substr s p \<longleftrightarrow> find_str p s \<noteq> None"

definition is_pool_rejection :: "str \<Rightarrow> bool" where
  "is_pool_rejection text \<longleftrightarrow>
     has_substr text INVALID_TRANSACTION_CODE \<or> has_substr text ''Inability to pay'' \<or>
     has_substr text ''InvalidTransaction''"

definition submission_error ::
  "'v scale_lib \<Rightarrow> hex_lib \<Rightarrow> ('w, 'v, 'e, 'p, 'h, 'b) client \<Rightarrow> str \<Rightarrow> str \<Rightarrow> scope_set option \<Rightarrow> 'e
     \<Rightarrow> 'w \<Rightarrow> (sdk_error \<times> mode) \<times> 'w" where
  "submission_error V H c pallet call required e w =
     (let refused = chain_error pallet call (x_error_text (c_api c) e) in
      case c_mode c of
        Direct \<Rightarrow> ((refused, Direct), w)
      | Delegated who scopes \<Rightarrow>
          if \<not> is_pool_rejection (x_error_text (c_api c) e) then ((refused, c_mode c), w)
          else
            (let unsponsored = Unsponsored (account_to_hex H who) pallet call;
                 ((outcome, m'), w1) = refresh_delegation V c w in
             ((case outcome of
                 Inr Gone \<Rightarrow> KeyRevoked
               | Inr (Rescoped held) \<Rightarrow>
                   (case required of
                      Some req \<Rightarrow> if \<not> is_superset held req then NotPermitted pallet call req held else unsponsored
                    | None \<Rightarrow> unsponsored)
               | Inr Unchanged \<Rightarrow> unsponsored
               | Inl _ \<Rightarrow> refused, m'), w1)))"

definition outer_dispatch_error ::
  "'v scale_lib \<Rightarrow> ('w, 'v, 'e, 'p, 'h, 'b) client \<Rightarrow> str \<Rightarrow> str \<Rightarrow> 'e \<Rightarrow> 'w \<Rightarrow> (sdk_error \<times> mode) \<times> 'w" where
  "outer_dispatch_error V c pallet call e w =
     (let failed = chain_error pallet call (x_error_text (c_api c) e) in
      if x_module_error (c_api c) e \<noteq> Some (''Proxy'', ''NotProxy'') then ((failed, c_mode c), w)
      else
        (let ((outcome, m'), w1) = refresh_delegation V c w in
         ((case outcome of
             Inr Gone \<Rightarrow> KeyRevoked
           | Inr _ \<Rightarrow> failed
           | Inl lookup_failed \<Rightarrow> lookup_failed, m'), w1)))"

text \<open>The events that decode, and the first \<open>Proxy.ProxyExecuted\<close> among them.\<close>

definition decoded :: "event_details option list \<Rightarrow> event_details list" where
  "decoded evs = List.map_filter id evs"

definition proxy_executed :: "event_details option list \<Rightarrow> event_details option" where
  "proxy_executed evs =
     find (\<lambda>e. ev_pallet e = ''Proxy'' \<and> ev_variant e = ''ProxyExecuted'') (decoded evs)"

definition inner_dispatch_error ::
  "('w, 'v, 'e, 'p, 'h, 'b) subxt \<Rightarrow> event_details option list \<Rightarrow> sdk_error + str option" where
  "inner_dispatch_error X evs =
     (case proxy_executed evs of
        None \<Rightarrow> Ok None
      | Some executed \<Rightarrow>
          (case ev_field_bytes executed of
             [] \<Rightarrow> Ok (Some ''Proxy.ProxyExecuted carried no result'')
           | b # bs \<Rightarrow>
               if b = 0 then Ok None
               else if b = 1 then
                 rbind (map_err
                          (\<lambda>d. Chain ''Proxy.ProxyExecuted'' (''could not decode the wrapped call's error: '' @ d))
                          (x_decode_dispatch X bs)) (\<lambda>d. Ok (Some d))
               else Ok (Some (''Proxy.ProxyExecuted carried an unknown result discriminant '' @
                              show_nat (unat b)))))"

section \<open>Submitting\<close>

text \<open>\<open>tokio::time::timeout\<close>: the result of the step, or \<open>None\<close> when the time is up.\<close>

type_synonym ('w, 'r) timer = "duration \<Rightarrow> ('w \<Rightarrow> 'r \<times> 'w) \<Rightarrow> 'w \<Rightarrow> 'r option \<times> 'w"

definition submit_and_finalize ::
  "'v scale_lib \<Rightarrow> hex_lib \<Rightarrow> ('w, 'v, 'e, 'p, 'h, 'b) client \<Rightarrow> str \<Rightarrow> str \<Rightarrow> scope_set option
     \<Rightarrow> 'p \<Rightarrow> bytes \<Rightarrow> bytes \<Rightarrow> 'w \<Rightarrow> ((sdk_error + 'b) \<times> mode) \<times> 'w" where
  "submit_and_finalize V H c pallet call required extrinsic acct signature w =
     (case x_submit (c_api c) extrinsic acct signature w of
        (Inl e, w1) \<Rightarrow>
          (let ((err, m'), w2) = submission_error V H c pallet call required e w1 in ((Err err, m'), w2))
      | (Inr watching, w1) \<Rightarrow>
          (case x_wait_finalized (c_api c) watching w1 of
             (Inl e, w2) \<Rightarrow> ((Err (chain_error pallet call (x_error_text (c_api c) e)), c_mode c), w2)
           | (Inr in_block, w2) \<Rightarrow> ((Ok in_block, c_mode c), w2)))"

text \<open>After finalization: the dispatch, the events, and the wrapped call's own result.\<close>

definition tx_outcome ::
  "'v scale_lib \<Rightarrow> ('w, 'v, 'e, 'p, 'h, 'b) client \<Rightarrow> str \<Rightarrow> str \<Rightarrow> 'b \<Rightarrow> 'w
     \<Rightarrow> ((sdk_error + receipt) \<times> mode) \<times> 'w" where
  "tx_outcome V c pallet call in_block w =
     (case x_wait_success (c_api c) in_block w of
        (Inl e, w1) \<Rightarrow>
          (let ((err, m'), w2) = outer_dispatch_error V c pallet call e w1 in ((Err err, m'), w2))
      | (Inr finalized, w1) \<Rightarrow>
          (let events = map (\<lambda>e. (ev_pallet e, ev_variant e)) (decoded finalized);
               ok = Ok \<lparr>tx_hash = x_extrinsic_hash (c_api c) in_block,
                        block_hash = x_block_hash (c_api c) in_block, r_events = events\<rparr> in
           if is_delegated (c_mode c) then
             (case inner_dispatch_error (c_api c) finalized of
                Inl e \<Rightarrow> ((Err e, c_mode c), w1)
              | Inr (Some failure) \<Rightarrow> ((Err (Dispatch pallet call failure), c_mode c), w1)
              | Inr None \<Rightarrow> ((ok, c_mode c), w1))
           else ((ok, c_mode c), w1)))"

definition tx ::
  "'v scale_lib \<Rightarrow> hex_lib \<Rightarrow> ('w, (sdk_error + 'b) \<times> mode) timer \<Rightarrow> ('w, 'v, 'e, 'p, 'h, 'b) client
     \<Rightarrow> str \<Rightarrow> str \<Rightarrow> 'v list \<Rightarrow> 'w
     \<Rightarrow> (sdk_error + receipt) \<times> ('w, 'v, 'e, 'p, 'h, 'b) client \<times> 'w" where
  "tx V H timer c pallet call args w =
     (case require_signer c of
        Inl e \<Rightarrow> (Err e, c, w)
      | Inr signer \<Rightarrow>
     (case build_payload V (c_mode c) pallet call args of
        Inl e \<Rightarrow> (Err e, c, w)
      | Inr pay \<Rightarrow>
     (case x_create_partial (c_api c) pay (as_bytes (ds_account signer)) w of
        (Inl e, w1) \<Rightarrow> (Err (chain_error pallet call (x_error_text (c_api c) e)), c, w1)
      | (Inr part, w1) \<Rightarrow>
     (case ds_sign signer (x_signer_payload (c_api c) part) w1 of
        (Inl e, w2) \<Rightarrow> (Err (Key e), c, w2)
      | (Inr signature, w2) \<Rightarrow>
     (case timer (mc_finality_timeout (c_config c))
             (submit_and_finalize V H c pallet call (required_scopes V pallet call args) part
                (as_bytes (ds_account signer)) signature) w2 of
        (None, w3) \<Rightarrow> (Err (FinalityTimeout pallet call (mc_finality_timeout (c_config c))), c, w3)
      | (Some (Inl e, m'), w3) \<Rightarrow> (Err e, c\<lparr>c_mode := m'\<rparr>, w3)
      | (Some (Inr in_block, m'), w3) \<Rightarrow>
          (let ((r, m''), w4) = tx_outcome V (c\<lparr>c_mode := m'\<rparr>) pallet call in_block w3 in
           (r, c\<lparr>c_mode := m''\<rparr>, w4)))))))"

section \<open>Reads\<close>

text \<open>
  Storage, runtime APIs and constants by name. A decoded value is subxt's own type \<open>'d\<close>; a read
  takes no signer and never touches the mode.
\<close>

record ('w, 'v, 'e, 'd) reads =
  rd_storage_latest :: "'w \<Rightarrow> ('e + unit) \<times> 'w"
  rd_fetch :: "str \<Rightarrow> str \<Rightarrow> 'v list \<Rightarrow> 'w \<Rightarrow> ('e + bytes option) \<times> 'w"
  rd_api_latest :: "'w \<Rightarrow> ('e + unit) \<times> 'w"
  rd_api_call :: "'v call_payload \<Rightarrow> 'w \<Rightarrow> ('e + bytes) \<times> 'w"
  rd_constant :: "str \<Rightarrow> str \<Rightarrow> 'e + bytes"
  rd_to_value :: "bytes \<Rightarrow> 'e + 'd"

definition chain_error_of :: "('w, 'v, 'e, 'p, 'h, 'b) subxt \<Rightarrow> str \<Rightarrow> str \<Rightarrow> 'e \<Rightarrow> sdk_error" where
  "chain_error_of X pallet item e = chain_error pallet item (x_error_text X e)"

definition query ::
  "('w, 'v, 'e, 'p, 'h, 'b) client \<Rightarrow> ('w, 'v, 'e, 'd) reads \<Rightarrow> str \<Rightarrow> str \<Rightarrow> 'v list \<Rightarrow> 'w
     \<Rightarrow> (sdk_error + 'd option) \<times> 'w" where
  "query c R pallet entry keys =
     abind (amap_err (chain_error_of (c_api c) pallet entry) (rd_storage_latest R)) (\<lambda>_.
     abind (amap_err (chain_error_of (c_api c) pallet entry) (rd_fetch R pallet entry keys)) (\<lambda>fetched.
     apure (case fetched of
              None \<Rightarrow> Ok None
            | Some v \<Rightarrow> rbind (map_err (chain_error_of (c_api c) pallet entry) (rd_to_value R v)) (\<lambda>d. Ok (Some d)))))"

definition runtime_api ::
  "('w, 'v, 'e, 'p, 'h, 'b) client \<Rightarrow> ('w, 'v, 'e, 'd) reads \<Rightarrow> str \<Rightarrow> str \<Rightarrow> 'v list \<Rightarrow> 'w
     \<Rightarrow> (sdk_error + 'd) \<times> 'w" where
  "runtime_api c R trait_name method_name args =
     abind (amap_err (chain_error_of (c_api c) trait_name method_name) (rd_api_latest R)) (\<lambda>_.
     abind (amap_err (chain_error_of (c_api c) trait_name method_name)
              (rd_api_call R (dynamic_tx trait_name method_name args))) (\<lambda>v.
     apure (map_err (chain_error_of (c_api c) trait_name method_name) (rd_to_value R v))))"

definition constant_value ::
  "('w, 'v, 'e, 'p, 'h, 'b) client \<Rightarrow> ('w, 'v, 'e, 'd) reads \<Rightarrow> str \<Rightarrow> str \<Rightarrow> sdk_error + 'd" where
  "constant_value c R pallet name =
     rbind (map_err (chain_error_of (c_api c) pallet name) (rd_constant R pallet name)) (\<lambda>v.
     map_err (chain_error_of (c_api c) pallet name) (rd_to_value R v))"

text \<open>A failed read names what was read; an absent entry is no error.\<close>

lemma query_result:
  "query c R pallet entry keys w = (r, w') \<Longrightarrow>
     (\<exists>d. r = Err (Chain (pallet @ ''.'' @ entry) d)) \<or>
     (\<exists>w1 found. rd_fetch R pallet entry keys w1 = (Ok found, w') \<and>
        (case found of None \<Rightarrow> r = Ok None | Some v \<Rightarrow> \<exists>d. rd_to_value R v = Ok d \<and> r = Ok (Some d)))"
  by (cases r)
    (auto simp: query_def res_simps chain_error_of_def chain_error_def split: option.splits)

lemma runtime_api_error_target:
  "runtime_api c R trait_name method_name args w = (Err e, w') \<Longrightarrow>
     \<exists>d. e = Chain (trait_name @ ''.'' @ method_name) d"
  by (auto simp: runtime_api_def res_simps chain_error_of_def chain_error_def)

section \<open>How the steps act\<close>

definition timer_law :: "('w, 'r) timer \<Rightarrow> bool" where
  "timer_law timer \<longleftrightarrow> (\<forall>d step w x w'. timer d step w = (Some x, w') \<longrightarrow> step w = (x, w'))"

lemma build_payload_Ok:
  "build_payload V m pallet call args = Ok q \<longleftrightarrow>
     m = Direct \<and> q = dynamic_tx pallet call args \<or>
     (\<exists>who scopes req. m = Delegated who scopes \<and> pallet \<notin> {''Proxy'', ''Utility'', ''EthSigning''} \<and>
        required_scopes V pallet call args = Some req \<and> is_superset scopes req \<and>
        q = proxy_payload V (as_bytes who) pallet call args)"
  by (cases m) (auto simp: build_payload_def split: option.splits)

text \<open>A refresh keeps the member, and reports what the chain answered.\<close>

lemma refresh_delegated:
  assumes "c_mode c = Delegated who scopes" "client_account c = Some key"
  shows "refresh_delegation V c w =
     (case lookup V (c_api c) key w of
        (Err e, w1) \<Rightarrow> ((Err e, c_mode c), w1)
      | (Ok fresh, w1) \<Rightarrow>
          (if map_option fst fresh \<noteq> Some who then ((Ok Gone, c_mode c), w1)
           else if snd (the fresh) = scopes then ((Ok Unchanged, c_mode c), w1)
           else ((Ok (Rescoped (snd (the fresh))), Delegated who (snd (the fresh))), w1)))"
  using assms
  by (auto simp: refresh_delegation_def split: prod.splits sum.splits option.splits)

lemma refresh_identity:
  "refresh_delegation V c w = ((r, m'), w') \<Longrightarrow>
     mode_principal m' = mode_principal (c_mode c) \<and> is_delegated m' = is_delegated (c_mode c)"
  by (cases "c_mode c")
    (auto simp: refresh_delegation_def split: option.splits prod.splits sum.splits if_splits refresh.splits
      dest: sym [of "Delegated a b" "c_mode c" for a b])

lemma submission_error_identity:
  "submission_error V H c pallet call required e w = ((err, m'), w') \<Longrightarrow>
     mode_principal m' = mode_principal (c_mode c) \<and> is_delegated m' = is_delegated (c_mode c)"
  by (cases "c_mode c")
    (auto simp: submission_error_def Let_def split: prod.splits if_splits
      dest: refresh_identity sym [of "Delegated a b" "c_mode c" for a b])

lemma outer_dispatch_identity:
  "outer_dispatch_error V c pallet call e w = ((err, m'), w') \<Longrightarrow>
     mode_principal m' = mode_principal (c_mode c) \<and> is_delegated m' = is_delegated (c_mode c)"
  by (auto simp: outer_dispatch_error_def Let_def split: prod.splits if_splits dest: refresh_identity)

lemma submit_identity:
  "submit_and_finalize V H c pallet call required x a s w = ((r, m'), w') \<Longrightarrow>
     mode_principal m' = mode_principal (c_mode c) \<and> is_delegated m' = is_delegated (c_mode c)"
  by (auto simp: submit_and_finalize_def Let_def split: prod.splits sum.splits
      dest: submission_error_identity)

lemma tx_outcome_identity:
  "tx_outcome V c pallet call b w = ((r, m'), w') \<Longrightarrow>
     mode_principal m' = mode_principal (c_mode c) \<and> is_delegated m' = is_delegated (c_mode c)"
  by (auto simp: tx_outcome_def Let_def split: prod.splits sum.splits if_splits option.splits
      dest: outer_dispatch_identity)

section \<open>Any sequence of calls\<close>

definition tx_step ::
  "'v scale_lib \<Rightarrow> hex_lib \<Rightarrow> ('w, (sdk_error + 'b) \<times> mode) timer
     \<Rightarrow> ('w, 'v, 'e, 'p, 'h, 'b) client \<times> 'w \<Rightarrow> str \<times> str \<times> 'v list
     \<Rightarrow> ('w, 'v, 'e, 'p, 'h, 'b) client \<times> 'w" where
  "tx_step V H timer s op = snd (tx V H timer (fst s) (fst op) (fst (snd op)) (snd (snd op)) (snd s))"

text \<open>Everything about a client but the scopes it holds and the world.\<close>

definition same_client ::
  "('w, 'v, 'e, 'p, 'h, 'b) client \<times> 'w \<Rightarrow> ('w, 'v, 'e, 'p, 'h, 'b) client \<times> 'w \<Rightarrow> bool" where
  "same_client s t \<longleftrightarrow>
     (\<exists>m. fst t = (fst s)\<lparr>c_mode := m\<rparr> \<and> mode_principal m = mode_principal (c_mode (fst s)) \<and>
        is_delegated m = is_delegated (c_mode (fst s)))"

lemma tx_same_client:
  assumes "timer_law timer" "tx V H timer c pallet call args w = (r, c', w')"
  shows "same_client (c, w) (c', w')"
proof -
  have stay: "same_client (c, w) (c, v)" for v
    by (auto simp: same_client_def intro: exI [of _ "c_mode c"])
  have law: "timer d step w = (Some x, w') \<Longrightarrow> step w = (x, w')" for d step w x w'
    using assms(1) unfolding timer_law_def by blast
  show ?thesis
    using assms(2) stay
    by (auto simp: tx_def same_client_def Let_def split: sum.splits prod.splits option.splits
        dest!: law submit_identity tx_outcome_identity)
qed

interpretation tx_run: stepper "tx_step V H timer" "\<lambda>_. timer_law timer" same_client
  for V H timer
proof
  fix s t u :: "('b, 'a, 'd, 'e, 'f, 'c) client \<times> 'b" and op
  show "same_client s (tx_step V H timer s op)" if "timer_law timer"
    unfolding tx_step_def using tx_same_client [OF that] by (metis prod.collapse)
  show "same_client s s" by (auto simp: same_client_def intro: exI [of _ "c_mode (fst s)"])
  show "same_client s u" if "same_client s t" "same_client t u"
    using that by (auto simp: same_client_def)
qed

section \<open>Properties\<close>

text \<open>
  What is signed: a direct client signs the call as it is; a delegated client signs only
  \<open>Proxy.proxy\<close> for its member around the call, only when the call has a requirement that the
  held scopes cover, and never around another proxy, a batch or an Ethereum signature.
\<close>

theorem signed_payload:
  "(build_payload V m pallet call args = Ok q) =
     (case m of
        Direct \<Rightarrow> q = dynamic_tx pallet call args
      | Delegated who scopes \<Rightarrow>
          pallet \<notin> {''Proxy'', ''Utility'', ''EthSigning''} \<and>
          q = \<lparr>cp_pallet = ''Proxy'', cp_call = ''proxy'',
               cp_args = [unnamed_variant V ''Id'' [from_bytes V (as_bytes who)],
                          unnamed_variant V ''None'' [], call_into_value V pallet call args]\<rparr> \<and>
          (\<exists>req. required_scopes V pallet call args = Some req \<and> is_superset scopes req))"
  unfolding build_payload_Ok
  by (cases m) (auto simp: proxy_payload_def dynamic_tx_def)

text \<open>
  C6. A call that is not allowed stays local: without a signer, outside the table, or beyond the
  held scopes, the call fails with the error that says so, the node is never contacted and the
  client is unchanged.
\<close>

theorem refused_calls_stay_local:
  assumes "c_signer c = None \<and> err = ReadOnly \<or>
    (\<exists>s who scopes. c_signer c = Some s \<and> c_mode c = Delegated who scopes \<and>
       (required_scopes V pallet call args = None \<and> err = NeverAdmitted pallet call \<or>
        (\<exists>req. required_scopes V pallet call args = Some req \<and> \<not> is_superset scopes req \<and>
           err = NotPermitted pallet call req scopes)))"
  shows "tx V H timer c pallet call args w = (Err err, c, w)"
proof -
  have outer: "required_scopes V p call args = None" if "p \<in> set [''Proxy'', ''Utility'', ''EthSigning'']" for p
    using that by (intro required_scopes_unscoped) (auto simp: SCOPED_PALLETS_def)
  from assms have "require_signer c = Err err \<or>
      (\<exists>s. require_signer c = Ok s \<and> build_payload V (c_mode c) pallet call args = Err err)"
  proof (elim disjE exE conjE)
    fix s who scopes req
    assume 1: "c_signer c = Some s" "c_mode c = Delegated who scopes"
      "required_scopes V pallet call args = Some req" "\<not> is_superset scopes req"
      "err = NotPermitted pallet call req scopes"
    with outer [of pallet] have "pallet \<notin> set [''Proxy'', ''Utility'', ''EthSigning'']" by force
    with 1 show ?thesis by (simp add: require_signer_def build_payload_def)
  qed (simp_all add: require_signer_def build_payload_def)
  then show ?thesis by (auto simp: tx_def)
qed

text \<open>
  C5. A receipt means success: the call was built for the client's mode, signed by its account
  over the payload the node asked for, submitted, finalized and dispatched, and the receipt
  lists the events of that block's extrinsic; for a delegated client the first
  \<open>ProxyExecuted\<close> event, if any, reports \<open>Ok\<close>. The client is unchanged.
\<close>

theorem receipt_means_success:
  assumes "timer_law timer" and "tx V H timer c pallet call args w = (Ok r, c', w')"
  shows "\<exists>s q part sig watching b evs w1 w2 w3 w4.
    c_signer c = Some s \<and> build_payload V (c_mode c) pallet call args = Ok q \<and>
    x_create_partial (c_api c) q (as_bytes (ds_account s)) w = (Ok part, w1) \<and>
    ds_sign s (x_signer_payload (c_api c) part) w1 = (Ok sig, w2) \<and>
    x_submit (c_api c) part (as_bytes (ds_account s)) sig w2 = (Ok watching, w3) \<and>
    x_wait_finalized (c_api c) watching w3 = (Ok b, w4) \<and>
    x_wait_success (c_api c) b w4 = (Ok evs, w') \<and>
    tx_hash r = x_extrinsic_hash (c_api c) b \<and> block_hash r = x_block_hash (c_api c) b \<and>
    r_events r = map (\<lambda>e. (ev_pallet e, ev_variant e)) (decoded evs) \<and>
    (c_mode c = Direct \<or> proxy_executed evs = None \<or>
       (\<exists>e rest. proxy_executed evs = Some e \<and> ev_field_bytes e = 0 # rest)) \<and>
    c' = c"
proof -
  from assms(2) obtain s q part sig w1 w2 w3 b m where
    1: "c_signer c = Some s" "build_payload V (c_mode c) pallet call args = Ok q"
    "x_create_partial (c_api c) q (as_bytes (ds_account s)) w = (Ok part, w1)"
    "ds_sign s (x_signer_payload (c_api c) part) w1 = (Ok sig, w2)"
    and t: "timer (mc_finality_timeout (c_config c))
             (submit_and_finalize V H c pallet call (required_scopes V pallet call args) part
                (as_bytes (ds_account s)) sig) w2 = (Some (Ok b, m), w3)"
    and o: "tx_outcome V (c\<lparr>c_mode := m\<rparr>) pallet call b w3 = ((Ok r, c_mode c'), w')"
    and c': "c' = c\<lparr>c_mode := c_mode c'\<rparr>"
    by (auto simp: tx_def require_signer_def ok_or_Ok Let_def
        split: sum.splits prod.splits option.splits if_splits)
  from t assms(1) have "submit_and_finalize V H c pallet call (required_scopes V pallet call args) part
      (as_bytes (ds_account s)) sig w2 = ((Ok b, m), w3)"
    unfolding timer_law_def by blast
  then obtain watching w3' where 2: "x_submit (c_api c) part (as_bytes (ds_account s)) sig w2 = (Ok watching, w3')"
    "x_wait_finalized (c_api c) watching w3' = (Ok b, w3)" and m: "m = c_mode c"
    by (auto simp: submit_and_finalize_def Let_def split: sum.splits prod.splits)
  have "c\<lparr>c_mode := m\<rparr> = c" by (simp add: m)
  with o obtain evs where 3: "x_wait_success (c_api c) b w3 = (Ok evs, w')"
    "tx_hash r = x_extrinsic_hash (c_api c) b" "block_hash r = x_block_hash (c_api c) b"
    "r_events r = map (\<lambda>e. (ev_pallet e, ev_variant e)) (decoded evs)" "c_mode c' = c_mode c"
    "is_delegated (c_mode c) \<longrightarrow> inner_dispatch_error (c_api c) evs = Ok None"
    by (auto simp: tx_outcome_def Let_def split: sum.splits prod.splits option.splits if_splits)
  have "c_mode c = Direct \<or> proxy_executed evs = None \<or>
       (\<exists>e rest. proxy_executed evs = Some e \<and> ev_field_bytes e = 0 # rest)"
    using 3(6) by (cases "c_mode c")
      (auto simp: inner_dispatch_error_def res_simps split: option.splits list.splits if_splits)
  with 1 2 3 c' show ?thesis by (intro exI conjI) (assumption | simp)+
qed

text \<open>
  C11. Who a client speaks for never changes: over any sequence of calls, failed ones included,
  only the cached scopes may move; signer, configuration, chain and member stay, and a delegated
  client never signs an unwrapped call afterwards, revoked or not.
\<close>

theorem identity_is_stable:
  assumes "timer_law timer" and "foldl (tx_step V H timer) (c, w) ops = (c', w')"
  shows "c_signer c' = c_signer c \<and> c_config c' = c_config c \<and> c_api c' = c_api c \<and>
    c_properties c' = c_properties c \<and> client_principal c' = client_principal c \<and>
    is_delegated (c_mode c') = is_delegated (c_mode c) \<and>
    (c_mode c = Direct \<or>
       (\<forall>p call args. build_payload V (c_mode c') p call args \<noteq> Ok (dynamic_tx p call args)))"
proof -
  from tx_run.run_keeps [OF assms(1), of "(c, w)" V H ops] assms(2)
  have same: "same_client (c, w) (c', w')" by simp
  then obtain m where m: "c' = c\<lparr>c_mode := m\<rparr>" "mode_principal m = mode_principal (c_mode c)"
    "is_delegated m = is_delegated (c_mode c)"
    by (auto simp: same_client_def)
  have "c_mode c = Direct \<or>
      (\<forall>p call args. build_payload V m p call args \<noteq> Ok (dynamic_tx p call args))"
    using m(3) by (cases m; cases "c_mode c") (auto simp: build_payload_Ok proxy_payload_def dynamic_tx_def)
  with m show ?thesis by (simp add: client_principal_def)
qed

text \<open>
  A pool rejection of a delegated call is told apart by re-reading the grant: gone or bound
  to another member means revoked; a grant that no longer covers the call names the missing
  scopes against the fresh set; a grant that still covers it means nobody could pay; a failed
  lookup reports the original refusal. The fresh scopes are kept, the member never changes.
\<close>

theorem pool_rejection_is_classified:
  assumes "c_signer c = Some s" and "c_mode c = Delegated who scopes"
    and "is_pool_rejection (x_error_text (c_api c) e)"
  shows "submission_error V H c pallet call required e w =
    (case lookup V (c_api c) (ds_account s) w of
       (Err _, w1) \<Rightarrow> ((chain_error pallet call (x_error_text (c_api c) e), Delegated who scopes), w1)
     | (Ok None, w1) \<Rightarrow> ((KeyRevoked, Delegated who scopes), w1)
     | (Ok (Some (member, fresh)), w1) \<Rightarrow>
         if member \<noteq> who then ((KeyRevoked, Delegated who scopes), w1)
         else ((case required of
                  Some req \<Rightarrow>
                    if fresh = scopes \<or> is_superset fresh req
                    then Unsponsored (account_to_hex H who) pallet call
                    else NotPermitted pallet call req fresh
                | None \<Rightarrow> Unsponsored (account_to_hex H who) pallet call,
                Delegated who fresh), w1))"
proof -
  have key: "client_account c = Some (ds_account s)" using assms(1) by (simp add: client_account_def)
  show ?thesis
    using assms(2,3) refresh_delegated [OF assms(2) key, of V w]
    by (auto simp: submission_error_def Let_def split: prod.splits sum.splits option.splits if_splits)
qed

lemma submission_error_revoked:
  assumes "submission_error V H c pallet call required e w = ((KeyRevoked, m'), w')"
  shows "\<exists>who scopes key w1 fresh w2. c_mode c = Delegated who scopes \<and> client_account c = Some key \<and>
    lookup V (c_api c) key w1 = (Ok fresh, w2) \<and> map_option fst fresh \<noteq> Some who"
proof -
  from assms obtain who scopes where m: "c_mode c = Delegated who scopes"
    by (cases "c_mode c") (auto simp: submission_error_def chain_error_def)
  from assms m obtain m1 where r: "refresh_delegation V c w = ((Ok Gone, m1), w')"
    by (auto simp: submission_error_def chain_error_def Let_def
        split: prod.splits sum.splits refresh.splits option.splits if_splits)
  then obtain key where k: "client_account c = Some key"
    by (cases "client_account c") (auto simp: refresh_delegation_def)
  from r refresh_delegated [OF m k, of V w] m k show ?thesis
    by (auto split: prod.splits sum.splits if_splits)
qed

lemma outer_dispatch_revoked:
  assumes "outer_dispatch_error V c pallet call e w = ((KeyRevoked, m'), w')"
  shows "\<exists>who scopes key w1 fresh w2. c_mode c = Delegated who scopes \<and> client_account c = Some key \<and>
    lookup V (c_api c) key w1 = (Ok fresh, w2) \<and> map_option fst fresh \<noteq> Some who"
proof -
  have err: "refresh_delegation V c w \<noteq> ((Err KeyRevoked, m1), w1)" for m1 w1
    by (auto simp: refresh_delegation_def split: option.splits prod.splits sum.splits refresh.splits
        mode.splits dest: lookup_error)
  from assms obtain m1 where r: "refresh_delegation V c w = ((Ok Gone, m1), w')"
    using err by (auto simp: outer_dispatch_error_def chain_error_def Let_def
        split: prod.splits sum.splits refresh.splits if_splits)
  then obtain key where k: "client_account c = Some key"
    by (cases "client_account c") (auto simp: refresh_delegation_def)
  from r k obtain who scopes where m: "c_mode c = Delegated who scopes"
    by (cases "c_mode c") (auto simp: refresh_delegation_def split: prod.splits sum.splits)
  from r refresh_delegated [OF m k, of V w] m k show ?thesis
    by (auto split: prod.splits sum.splits if_splits)
qed

text \<open>
  C28. A key is reported revoked only on the chain's word: whenever a call ends in
  \<open>KeyRevoked\<close>, the client acts for a member and a lookup of its key succeeded with no grant for
  that member.
\<close>

theorem revocation_is_confirmed:
  assumes "timer_law timer" and "tx V H timer c pallet call args w = (Err KeyRevoked, c', w')"
  shows "\<exists>s who scopes w1 fresh w2. c_signer c = Some s \<and> c_mode c = Delegated who scopes \<and>
    lookup V (c_api c) (ds_account s) w1 = (Ok fresh, w2) \<and> map_option fst fresh \<noteq> Some who"
proof -
  define Q where "Q \<longleftrightarrow> (\<exists>who scopes key w1 fresh w2. c_mode c = Delegated who scopes \<and> client_account c = Some key \<and>
    lookup V (c_api c) key w1 = (Ok fresh, w2) \<and> map_option fst fresh \<noteq> Some who)"
  have law: "timer d step w = (Some x, w') \<Longrightarrow> step w = (x, w')" for d step w x w'
    using assms(1) unfolding timer_law_def by blast
  have local: "build_payload V (c_mode c) pallet call args \<noteq> Err KeyRevoked"
    by (auto simp: build_payload_def split: mode.splits option.splits)
  have submit: "m = c_mode c" if "submit_and_finalize V H c pallet call req x a g v = ((Ok b, m), v')" for req x a g v b m v'
    using that by (auto simp: submit_and_finalize_def Let_def split: sum.splits prod.splits)
  have fail: Q if "submit_and_finalize V H c pallet call req x a g v = ((Err KeyRevoked, m), v')" for req x a g v m v'
    using that submission_error_revoked unfolding Q_def
    by (fastforce simp: submit_and_finalize_def Let_def chain_error_def split: sum.splits prod.splits)
  have outcome: Q if "tx_outcome V c pallet call b v = ((Err KeyRevoked, m), v')" for b v m v'
    using that outer_dispatch_revoked unfolding Q_def
    by (fastforce simp: tx_outcome_def inner_dispatch_error_def res_simps Let_def
        split: sum.splits prod.splits option.splits list.splits if_splits)
  have same: "c\<lparr>c_mode := c_mode c\<rparr> = c" by simp
  have Q
    using assms(2) local
    by (auto simp: tx_def require_signer_def res_simps chain_error_def Let_def same
        split: sum.splits prod.splits option.splits dest!: law fail submit intro: outcome)
  then obtain who scopes key w1 fresh w2 where q: "c_mode c = Delegated who scopes"
    "client_account c = Some key" "lookup V (c_api c) key w1 = (Ok fresh, w2)"
    "map_option fst fresh \<noteq> Some who"
    unfolding Q_def by blast
  moreover from q(2) obtain s where "c_signer c = Some s" "key = ds_account s"
    by (auto simp: client_account_def)
  ultimately show ?thesis by blast
qed

text \<open>
  C36. A client whose member comes from \<open>MATTER_PRINCIPAL\<close> is told its key is revoked by every
  pool rejection while the chain has no pointer for the key, the case the variable exists for:
  the check asks the chain alone, and resolving again gives the same delegated mode.
\<close>

theorem override_reads_as_revoked:
  assumes "principal_override H ss58 env = Ok (Some who)" and "c_signer c = Some s"
    and "resolve V H ss58 env (c_api c) (ds_account s) w0 = (Ok (c_mode c), w0')"
    and "is_pool_rejection (x_error_text (c_api c) e)"
    and "lookup V (c_api c) (ds_account s) w = (Ok None, w1)"
  shows "submission_error V H c pallet call required e w = ((KeyRevoked, Delegated who SET_ALL), w1) \<and>
    resolve V H ss58 env (c_api c) (ds_account s) w1 = (Ok (c_mode c), w1)"
proof -
  have m: "c_mode c = Delegated who SET_ALL"
    using assms(1,3) by (simp add: resolve_def decide_def)
  have "client_account c = Some (ds_account s)" using assms(2) by (simp add: client_account_def)
  with m show ?thesis
    using assms(1,4,5) refresh_delegated [OF m, of "ds_account s" V w]
    by (simp add: submission_error_def resolve_def decide_def)
qed

section \<open>Witnesses\<close>

definition timer_ref :: "(nat, 'r) timer" where
  "timer_ref d step w = (let (x, w') = step w in (Some x, w'))"

definition key_ref :: "nat dyn_signer" where
  "key_ref = \<lparr>ds_account = AccountId (replicate 32 7), ds_sign = (\<lambda>m w. (Ok (replicate 64 0), w))\<rparr>"

definition node_ref :: "nat node_info" where
  "node_ref =
     \<lparr>ni_system_chain = (\<lambda>w. (Ok ''MatterChain'', w)),
      ni_system_properties = (\<lambda>w. (Ok [(''tokenSymbol'', PStr ''MTR''), (''tokenDecimals'', PU64 12)], w)),
      ni_constant = (\<lambda>_ _. Ok []), ni_to_u128 = (\<lambda>_. Ok (Some 1000)),
      ni_genesis_hash = replicate 32 0xab, ni_spec_version = 330\<rparr>"

definition member_ref :: account_id where
  "member_ref = AccountId (replicate 32 9)"

text \<open>A chain that first grants \<open>jobs\<close> scopes, and forgets the key at the third tick.\<close>

abbreviation chain_ref ::
  "(nat \<Rightarrow> (str \<times> (str \<times> str) option) option) \<Rightarrow> event_details option list \<Rightarrow>
   (nat, tval, str \<times> (str \<times> str) option, tval call_payload, tval call_payload, tval call_payload) subxt" where
  "chain_ref refusal evs \<equiv>
     subxt_ref (\<lambda>t. if t < 2 then Some (replicate 32 9, bits (write_scope Deployments)) else None)
       refusal (Ok evs)"

definition client_ref ::
  "(nat \<Rightarrow> (str \<times> (str \<times> str) option) option) \<Rightarrow> event_details option list \<Rightarrow> mode \<Rightarrow>
   (nat, tval, str \<times> (str \<times> str) option, tval call_payload, tval call_payload, tval call_payload) client" where
  "client_ref refusal evs m =
     \<lparr>c_api = chain_ref refusal evs, c_signer = Some key_ref,
      c_properties = properties_of node_ref ''MatterChain'' [] 1000,
      c_config = for_network Mainnet, c_mode = m\<rparr>"

lemma timer_ref_law: "timer_law timer_ref"
  by (auto simp: timer_law_def timer_ref_def split: prod.splits)

lemma cancel_scopes:
  "required_scopes scale_ref ''Jobs'' ''cancel_deployment'' args = Some (write_scope Deployments)"
  by (simp add: required_scopes_def DEPLOYMENT_WRITES_def)

lemma cancel_payload:
  "build_payload scale_ref (Delegated member_ref (write_scope Deployments)) ''Jobs'' ''cancel_deployment'' args =
     Ok (proxy_payload scale_ref (as_bytes member_ref) ''Jobs'' ''cancel_deployment'' args)"
  by (simp add: build_payload_def cancel_scopes is_superset_def)

theorem refused_calls_stay_local_witness:
  "tx scale_ref hex_ref timer_ref (client_ref (\<lambda>_. None) [] (Delegated member_ref SET_EMPTY))
     ''Jobs'' ''cancel_deployment'' [U128 42] 0 =
   (Err (NotPermitted ''Jobs'' ''cancel_deployment'' (write_scope Deployments) SET_EMPTY),
    client_ref (\<lambda>_. None) [] (Delegated member_ref SET_EMPTY), 0)"
proof -
  have "\<not> is_superset SET_EMPTY (write_scope Deployments)" by code_simp
  then show ?thesis
    by (intro refused_calls_stay_local) (simp add: cancel_scopes client_ref_def)
qed

definition executed_ok :: "event_details option" where
  "executed_ok = Some \<lparr>ev_pallet = ''Proxy'', ev_variant = ''ProxyExecuted'', ev_field_bytes = [0]\<rparr>"

abbreviation delegated_ref :: mode where
  "delegated_ref \<equiv> Delegated member_ref (write_scope Deployments)"

lemma client_ref_sel [simp]:
  "c_api (client_ref r evs m) = chain_ref r evs" "c_signer (client_ref r evs m) = Some key_ref"
  "c_mode (client_ref r evs m) = m" "c_config (client_ref r evs m) = for_network Mainnet"
  "client_account (client_ref r evs m) = Some (ds_account key_ref)"
  "(client_ref r evs m)\<lparr>c_mode := m'\<rparr> = client_ref r evs m'"
  by (simp_all add: client_ref_def client_account_def)

lemmas ref_run_simps = tx_def require_signer_def subxt_ref_def key_ref_def timer_ref_def
  cancel_payload cancel_scopes submit_and_finalize_def Let_def

lemma receipt_run:
  "tx scale_ref hex_ref timer_ref (client_ref (\<lambda>_. None) [executed_ok] delegated_ref)
     ''Jobs'' ''cancel_deployment'' [U128 42] 0 =
   (Ok \<lparr>tx_hash = [2], block_hash = [1], r_events = [(''Proxy'', ''ProxyExecuted'')]\<rparr>,
    client_ref (\<lambda>_. None) [executed_ok] delegated_ref, 1)"
  by (simp add: ref_run_simps tx_outcome_def inner_dispatch_error_def proxy_executed_def decoded_def
      executed_ok_def map_filter_simps)

theorem receipt_means_success_witness:
  "\<exists>q b evs w4. build_payload scale_ref delegated_ref ''Jobs'' ''cancel_deployment'' [U128 42] = Ok q \<and>
     x_wait_success (chain_ref (\<lambda>_. None) [executed_ok]) b w4 = (Ok evs, 1)"
  using receipt_means_success [OF timer_ref_law receipt_run] unfolding client_ref_sel
  by (elim exE conjE) (intro exI conjI; assumption)

theorem identity_is_stable_witness:
  "\<exists>c' w'. foldl (tx_step scale_ref hex_ref timer_ref) (client_ref (\<lambda>_. Some (''1010'', None)) [] delegated_ref, 0)
      [(''Jobs'', ''cancel_deployment'', [U128 42]), (''Jobs'', ''cancel_deployment'', [U128 43])] = (c', w') \<and>
    client_principal c' = Some member_ref \<and> is_delegated (c_mode c')"
proof -
  let ?c = "client_ref (\<lambda>_. Some (''1010'', None)) [] delegated_ref"
  obtain c' w' where run: "foldl (tx_step scale_ref hex_ref timer_ref) (?c, 0)
      [(''Jobs'', ''cancel_deployment'', [U128 42]), (''Jobs'', ''cancel_deployment'', [U128 43])] = (c', w')"
    by (meson surj_pair)
  from identity_is_stable [OF timer_ref_law run]
  have "client_principal c' = client_principal ?c" "is_delegated (c_mode c') = is_delegated (c_mode ?c)"
    by blast+
  then have "client_principal c' = Some member_ref \<and> is_delegated (c_mode c')"
    by (simp add: client_principal_def)
  with run show ?thesis by blast
qed

lemma refusal_is_rejection: "is_pool_rejection (x_error_text (chain_ref r evs) (''1010'', x))"
  by (simp add: is_pool_rejection_def subxt_ref_def has_substr_def INVALID_TRANSACTION_CODE_def
      starts_with_def)

lemma lookup_ref:
  "lookup scale_ref (chain_ref r evs) k t =
     (Ok (if t mod 256 < 2 then Some (member_ref, write_scope Deployments) else None), t + 1)"
  by (simp add: lookup_def subxt_ref_def supports_agent_keys_def has_runtime_api_def AGENT_KEY_TRAIT_def
      AGENT_KEY_METHOD_def abind_def amap_err_def apure_def unat_of_nat_u8 member_ref_def from_bits_def)

theorem pool_rejection_is_classified_witness:
  "submission_error scale_ref hex_ref (client_ref (\<lambda>_. None) [] delegated_ref) ''Jobs'' ''cancel_deployment''
     (Some (write_scope Deployments)) (''1010'', None) 2 = ((KeyRevoked, delegated_ref), 3)"
  using pool_rejection_is_classified [of "client_ref (\<lambda>_. None) [] delegated_ref" key_ref member_ref
      "write_scope Deployments" "(''1010'', None)" scale_ref hex_ref _ _ _ 2]
  by (simp add: refusal_is_rejection lookup_ref)

lemma revoked_run:
  "tx scale_ref hex_ref timer_ref (client_ref (\<lambda>_. Some (''1010'', None)) [] delegated_ref)
     ''Jobs'' ''cancel_deployment'' [U128 42] 4 =
   (Err KeyRevoked, client_ref (\<lambda>_. Some (''1010'', None)) [] delegated_ref, 6)"
proof -
  let ?c = "client_ref (\<lambda>_. Some (''1010'', None)) [] delegated_ref"
  have "submission_error scale_ref hex_ref ?c ''Jobs'' ''cancel_deployment'' (Some (write_scope Deployments))
      (''1010'', None) 5 = ((KeyRevoked, delegated_ref), 6)"
    by (simp add: submission_error_def refresh_delegation_def refusal_is_rejection lookup_ref)
  then show ?thesis by (simp add: ref_run_simps)
qed

theorem revocation_is_confirmed_witness:
  "\<exists>w1 fresh w2. lookup scale_ref (chain_ref (\<lambda>_. Some (''1010'', None)) [])
      (ds_account key_ref) w1 = (Ok fresh, w2) \<and> map_option fst fresh \<noteq> Some member_ref"
  using revocation_is_confirmed [OF timer_ref_law revoked_run] by simp

theorem override_reads_as_revoked_witness:
  "submission_error scale_ref hex_ref (client_ref (\<lambda>_. None) [] (Delegated member_ref SET_ALL))
     ''Jobs'' ''cancel_deployment'' (Some (write_scope Deployments)) (''1010'', None) 2 =
     ((KeyRevoked, Delegated member_ref SET_ALL), 3)"
proof -
  let ?env = "\<lambda>v. if v = ''MATTER_PRINCIPAL'' then Some ''5F'' else None"
  have o: "principal_override hex_ref (\<lambda>_. Some (replicate 32 9)) ?env = Ok (Some member_ref)"
    by (simp add: principal_override_def PRINCIPAL_ENV_def member_ref_def) code_simp
  have r: "resolve scale_ref hex_ref (\<lambda>_. Some (replicate 32 9)) ?env
      (c_api (client_ref (\<lambda>_. None) [] (Delegated member_ref SET_ALL))) (ds_account key_ref) 0 =
      (Ok (c_mode (client_ref (\<lambda>_. None) [] (Delegated member_ref SET_ALL))), 0)"
    by (simp add: resolve_def o decide_def)
  show ?thesis
    using override_reads_as_revoked [OF o _ r, of "(''1010'', None)" 2 3]
    by (simp add: refusal_is_rejection lookup_ref)
qed

theorem connected_client_is_guarded_witness:
  "\<exists>c. build \<lparr>l_values = scale_ref, l_hex = hex_ref, l_ss58 = (\<lambda>_. None), l_env = (\<lambda>_. None)\<rparr>
       \<lparr>k_rpc_from_url = (\<lambda>_ w. (Ok (), w)),
        k_online = (\<lambda>_ w. (Ok (chain_ref (\<lambda>_. None) [], node_ref), w))\<rparr>
       ((for_network Mainnet)\<lparr>mc_confirm_mainnet := True\<rparr>) (Some key_ref) 0 = (Ok c, 1) \<and>
     c_signer c = Some key_ref \<and> c_mode c = delegated_ref"
proof -
  let ?E = "\<lparr>l_values = scale_ref, l_hex = hex_ref, l_ss58 = (\<lambda>_. None), l_env = (\<lambda>_. None)\<rparr>"
  let ?K = "\<lparr>k_rpc_from_url = (\<lambda>_ w. (Ok (), w)),
        k_online = (\<lambda>_ w. (Ok (chain_ref (\<lambda>_. None) [], node_ref), w))\<rparr>"
  have "\<exists>c. build ?E ?K ((for_network Mainnet)\<lparr>mc_confirm_mainnet := True\<rparr>) (Some key_ref) 0 = (Ok c, 1) \<and>
      c_mode c = delegated_ref"
    by (simp add: build_def abind_def amap_err_def apure_def resolve_url_def for_network_def read_properties_def
        read_existential_deposit_def node_ref_def enforce_network_guards_def is_mainnet_def client_account_def
        resolve_def principal_override_def lookup_ref decide_def Let_def)
  then obtain c where c: "build ?E ?K ((for_network Mainnet)\<lparr>mc_confirm_mainnet := True\<rparr>) (Some key_ref) 0 = (Ok c, 1)"
    "c_mode c = delegated_ref" by blast
  from connected_client_is_guarded [OF c(1)] c show ?thesis by blast
qed

end
