(* ===== verification/Interleaving.thy ===== *)
theory Interleaving
  imports Client
begin

text \<open>
  Concurrent calls on one client (\<open>crates/matter-sdk/src/chain/mod.rs\<close>). \<open>tx\<close> takes a shared
  client, so several calls can be in flight; what they share is the mode, which each of them
  locks for a single read or a single write and never across an await. A call is a task whose
  phases are the code between two accesses to the mode, the answers of the node are arbitrary,
  and a run interleaves the steps of any number of tasks. The sequential \<open>tx\<close> is one such run.
\<close>

section \<open>Tasks\<close>

text \<open>Who asked for a refresh of the grant: a pool rejection or a failed outer dispatch.\<close>

datatype 'e recheck =
    PoolRefusal str str "scope_set option" 'e account_id
  | OuterFailure str str 'e

fun conclude :: "hex_lib \<Rightarrow> ('e \<Rightarrow> str) \<Rightarrow> 'e recheck \<Rightarrow> sdk_error + refresh \<Rightarrow> sdk_error" where
  "conclude H txt (PoolRefusal pallet call required e who) outcome =
     (let unsponsored = Unsponsored (account_to_hex H who) pallet call in
      case outcome of
        Inr Gone \<Rightarrow> KeyRevoked
      | Inr (Rescoped held) \<Rightarrow>
          (case required of
             Some req \<Rightarrow> if \<not> is_superset held req then NotPermitted pallet call req held else unsponsored
           | None \<Rightarrow> unsponsored)
      | Inr Unchanged \<Rightarrow> unsponsored
      | Inl _ \<Rightarrow> chain_error pallet call (txt e))"
| "conclude H txt (OuterFailure pallet call e) outcome =
     (case outcome of
        Inr Gone \<Rightarrow> KeyRevoked
      | Inr _ \<Rightarrow> chain_error pallet call (txt e)
      | Inl lookup_failed \<Rightarrow> lookup_failed)"

datatype ('v, 'e, 'b) task =
    Ready str str "'v list"
  | InFlight str str "scope_set option" "'v call_payload"
  | Checking "'e recheck"
  | LookingUp "'e recheck" mode
  | Storing "'e recheck" account_id scope_set
  | Dispatched str str 'b "event_details option list"
  | Done "sdk_error + receipt"

text \<open>Errors of a call in flight that look at neither the mode nor the chain's grant.\<close>

definition transit_error :: "('w, 'v, 'e, 'p, 'h, 'b) client \<Rightarrow> str \<Rightarrow> str \<Rightarrow> sdk_error \<Rightarrow> bool" where
  "transit_error c pallet call err \<longleftrightarrow>
     (\<exists>t. err = chain_error pallet call t) \<or> (\<exists>k. err = Key k) \<or>
     err = FinalityTimeout pallet call (mc_finality_timeout (c_config c))"

definition after_rejection ::
  "('w, 'v, 'e, 'p, 'h, 'b) client \<Rightarrow> mode \<Rightarrow> str \<Rightarrow> str \<Rightarrow> scope_set option \<Rightarrow> 'e \<Rightarrow> ('v, 'e, 'b) task" where
  "after_rejection c m pallet call required e =
     (case m of
        Direct \<Rightarrow> Done (Err (chain_error pallet call (x_error_text (c_api c) e)))
      | Delegated who _ \<Rightarrow>
          if is_pool_rejection (x_error_text (c_api c) e)
          then Checking (PoolRefusal pallet call required e who)
          else Done (Err (chain_error pallet call (x_error_text (c_api c) e))))"

definition after_failed_dispatch ::
  "('w, 'v, 'e, 'p, 'h, 'b) client \<Rightarrow> str \<Rightarrow> str \<Rightarrow> 'e \<Rightarrow> ('v, 'e, 'b) task" where
  "after_failed_dispatch c pallet call e =
     (if x_module_error (c_api c) e = Some (''Proxy'', ''NotProxy'')
      then Checking (OuterFailure pallet call e)
      else Done (Err (chain_error pallet call (x_error_text (c_api c) e))))"

definition after_lookup ::
  "hex_lib \<Rightarrow> ('w, 'v, 'e, 'p, 'h, 'b) client \<Rightarrow> 'e recheck \<Rightarrow> mode
     \<Rightarrow> sdk_error + (account_id \<times> scope_set) option \<Rightarrow> ('v, 'e, 'b) task" where
  "after_lookup H c rc previous r =
     (case r of
        Inl e \<Rightarrow> Done (Err (conclude H (x_error_text (c_api c)) rc (Err e)))
      | Inr fresh \<Rightarrow>
          (case (after_refresh previous fresh, previous) of
             (Rescoped held, Delegated who _) \<Rightarrow> Storing rc who held
           | (outcome, _) \<Rightarrow> Done (Err (conclude H (x_error_text (c_api c)) rc (Ok outcome)))))"

definition wrapped_result ::
  "('w, 'v, 'e, 'p, 'h, 'b) client \<Rightarrow> mode \<Rightarrow> str \<Rightarrow> str \<Rightarrow> 'b \<Rightarrow> event_details option list
     \<Rightarrow> sdk_error + receipt" where
  "wrapped_result c m pallet call in_block evs =
     (let ok = Ok \<lparr>tx_hash = x_extrinsic_hash (c_api c) in_block,
                   block_hash = x_block_hash (c_api c) in_block,
                   r_events = map (\<lambda>e. (ev_pallet e, ev_variant e)) (decoded evs)\<rparr> in
      if is_delegated m then
        (case inner_dispatch_error (c_api c) evs of
           Inl e \<Rightarrow> Err e
         | Inr (Some failure) \<Rightarrow> Err (Dispatch pallet call failure)
         | Inr None \<Rightarrow> ok)
      else ok)"

text \<open>One step of one task: the shared mode before, the phase, the shared mode after, the next phase.\<close>

inductive task_step ::
  "'v scale_lib \<Rightarrow> hex_lib \<Rightarrow> ('w, 'v, 'e, 'p, 'h, 'b) client \<Rightarrow> mode \<Rightarrow> ('v, 'e, 'b) task \<Rightarrow> mode
     \<Rightarrow> ('v, 'e, 'b) task \<Rightarrow> bool"
  for V H c m where
  unsigned: "c_signer c = None \<Longrightarrow> task_step V H c m (Ready p call args) m (Done (Err ReadOnly))"
| refused: "c_signer c = Some s \<Longrightarrow> build_payload V m p call args = Err e \<Longrightarrow>
     task_step V H c m (Ready p call args) m (Done (Err e))"
| built: "c_signer c = Some s \<Longrightarrow> build_payload V m p call args = Ok q \<Longrightarrow>
     task_step V H c m (Ready p call args) m (InFlight p call (required_scopes V p call args) q)"
| failed: "transit_error c p call err \<Longrightarrow> task_step V H c m (InFlight p call req q) m (Done (Err err))"
| rejected: "task_step V H c m (InFlight p call req q) m (after_rejection c m p call req e)"
| undispatched: "task_step V H c m (InFlight p call req q) m (after_failed_dispatch c p call e)"
| dispatched: "task_step V H c m (InFlight p call req q) m (Dispatched p call b evs)"
| reread: "task_step V H c m (Checking rc) m (LookingUp rc m)"
| answered: "client_account c = Some key \<Longrightarrow> lookup V (c_api c) key w = (r, w') \<Longrightarrow>
     task_step V H c m (LookingUp rc previous) m (after_lookup H c rc previous r)"
| expired: "task_step V H c m (LookingUp (PoolRefusal p call req e who) previous) m
     (Done (Err (FinalityTimeout p call (mc_finality_timeout (c_config c)))))"
| stored: "task_step V H c m (Storing rc who held) (Delegated who held)
     (Done (Err (conclude H (x_error_text (c_api c)) rc (Ok (Rescoped held)))))"
| inspected: "task_step V H c m (Dispatched p call b evs) m (Done (wrapped_result c m p call b evs))"

inductive run ::
  "'v scale_lib \<Rightarrow> hex_lib \<Rightarrow> ('w, 'v, 'e, 'p, 'h, 'b) client \<Rightarrow> mode \<Rightarrow> ('v, 'e, 'b) task list \<Rightarrow> mode
     \<Rightarrow> ('v, 'e, 'b) task list \<Rightarrow> bool"
  for V H c m ts where
  begin_run: "run V H c m ts m ts"
| one_step: "run V H c m ts m1 ts1 \<Longrightarrow> i < length ts1 \<Longrightarrow> task_step V H c m1 (ts1 ! i) m2 t \<Longrightarrow>
     run V H c m ts m2 (ts1[i := t])"

section \<open>What every interleaving keeps\<close>

text \<open>An answer the chain can give about the client's key.\<close>

definition chain_answer ::
  "'v scale_lib \<Rightarrow> ('w, 'v, 'e, 'p, 'h, 'b) client \<Rightarrow> (account_id \<times> scope_set) option \<Rightarrow> bool" where
  "chain_answer V c fresh \<longleftrightarrow>
     (\<exists>key w w'. client_account c = Some key \<and> lookup V (c_api c) key w = (Ok fresh, w'))"

definition recheck_ok :: "mode \<Rightarrow> 'e recheck \<Rightarrow> bool" where
  "recheck_ok m0 rc \<longleftrightarrow>
     (case rc of PoolRefusal p call req e who \<Rightarrow> mode_principal m0 = Some who | OuterFailure p call e \<Rightarrow> True)"

definition payload_of :: "'v scale_lib \<Rightarrow> mode \<Rightarrow> str \<Rightarrow> str \<Rightarrow> 'v list \<Rightarrow> 'v call_payload" where
  "payload_of V m0 p call args =
     (case mode_principal m0 of
        None \<Rightarrow> dynamic_tx p call args
      | Some who \<Rightarrow> proxy_payload V (as_bytes who) p call args)"

definition revoked_for ::
  "'v scale_lib \<Rightarrow> ('w, 'v, 'e, 'p, 'h, 'b) client \<Rightarrow> mode \<Rightarrow> bool" where
  "revoked_for V c m0 \<longleftrightarrow>
     (\<exists>who fresh. mode_principal m0 = Some who \<and> chain_answer V c fresh \<and> map_option fst fresh \<noteq> Some who)"

fun task_ok ::
  "'v scale_lib \<Rightarrow> ('w, 'v, 'e, 'p, 'h, 'b) client \<Rightarrow> mode \<Rightarrow> ('v, 'e, 'b) task \<Rightarrow> ('v, 'e, 'b) task \<Rightarrow> bool" where
  "task_ok V c m0 t0 (Ready p call args) \<longleftrightarrow> t0 = Ready p call args"
| "task_ok V c m0 t0 (InFlight p call req q) \<longleftrightarrow>
     (\<exists>args. t0 = Ready p call args \<and> req = required_scopes V p call args \<and> q = payload_of V m0 p call args)"
| "task_ok V c m0 t0 (Checking rc) \<longleftrightarrow> recheck_ok m0 rc"
| "task_ok V c m0 t0 (LookingUp rc previous) \<longleftrightarrow>
     recheck_ok m0 rc \<and> mode_principal previous = mode_principal m0"
| "task_ok V c m0 t0 (Storing rc who held) \<longleftrightarrow>
     mode_principal m0 = Some who \<and> chain_answer V c (Some (who, held))"
| "task_ok V c m0 t0 (Dispatched p call b evs) \<longleftrightarrow> True"
| "task_ok V c m0 t0 (Done r) \<longleftrightarrow> (r = Err KeyRevoked \<longrightarrow> revoked_for V c m0)"

definition mode_ok ::
  "'v scale_lib \<Rightarrow> ('w, 'v, 'e, 'p, 'h, 'b) client \<Rightarrow> mode \<Rightarrow> mode \<Rightarrow> bool" where
  "mode_ok V c m0 m \<longleftrightarrow>
     mode_principal m = mode_principal m0 \<and>
     (m = m0 \<or> (\<exists>who held. m = Delegated who held \<and> chain_answer V c (Some (who, held))))"

lemma conclude_revoked:
  "conclude H txt rc outcome = KeyRevoked \<Longrightarrow> outcome = Ok Gone \<or> outcome = Err KeyRevoked"
  by (cases rc) (auto simp: Let_def chain_error_def split: sum.splits refresh.splits option.splits if_splits)

lemma chain_answer_lookup:
  "client_account c = Some key \<Longrightarrow> lookup V (c_api c) key w = (Ok fresh, w') \<Longrightarrow> chain_answer V c fresh"
  by (auto simp: chain_answer_def)

lemma after_lookup_ok:
  assumes "client_account c = Some key" "lookup V (c_api c) key w = (r, w')"
    and "recheck_ok m0 rc" "mode_principal previous = mode_principal m0"
  shows "task_ok V c m0 t0 (after_lookup H c rc previous r)"
proof (cases r)
  case (Inl e)
  with lookup_error [of V "c_api c" key w e w'] assms(2) have "e \<noteq> KeyRevoked" by auto
  then have "conclude H f rc (Err e) \<noteq> KeyRevoked" for f
    using conclude_revoked [of H f rc "Err e"] by auto
  then show ?thesis by (simp add: Inl after_lookup_def)
next
  case (Inr fresh)
  with assms(1,2) have a: "chain_answer V c fresh" by (auto intro: chain_answer_lookup)
  have gone: "revoked_for V c m0" if "conclude H f rc (Ok outcome) = KeyRevoked"
    "after_refresh previous fresh = outcome" for f outcome
  proof -
    from conclude_revoked [OF that(1)] that(2) have "after_refresh previous fresh = Gone" by simp
    then obtain who scopes where p: "previous = Delegated who scopes" "map_option fst fresh \<noteq> Some who"
      by (cases previous) (auto split: option.splits if_splits)
    with a assms(4) show ?thesis
      unfolding revoked_for_def by (intro exI [of _ who] exI [of _ fresh]) auto
  qed
  show ?thesis
  proof (cases previous)
    case Direct
    then show ?thesis using Inr gone by (auto simp: after_lookup_def)
  next
    case (Delegated who scopes)
    then have "mode_principal m0 = Some who" using assms(4) by simp
    then show ?thesis
      using Inr Delegated a gone
      by (auto simp: after_lookup_def split: refresh.splits option.splits if_splits)
  qed
qed

lemma inner_not_revoked: "inner_dispatch_error X evs \<noteq> Err KeyRevoked"
  by (auto simp: inner_dispatch_error_def res_simps split: option.splits list.splits if_splits)

lemma payload_of_build:
  assumes "build_payload V m p call args = Ok q" "mode_principal m = mode_principal m0"
  shows "q = payload_of V m0 p call args"
  using assms(1) unfolding build_payload_Ok payload_of_def assms(2) [symmetric] by auto

lemma build_not_revoked: "build_payload V m p call args \<noteq> Err KeyRevoked"
  by (auto simp: build_payload_def split: mode.splits option.splits if_splits)

text \<open>Each step keeps its own phase consistent, and the mode consistent for everyone.\<close>

lemma task_step_ok:
  assumes "task_step V H c m t m' t'" "mode_ok V c m0 m" "task_ok V c m0 t0 t"
  shows "mode_ok V c m0 m' \<and> task_ok V c m0 t0 t'"
  using assms
proof cases
  case (refused s p call args e)
  then show ?thesis using assms build_not_revoked [of V m p call args] by auto
next
  case (built s p call args q)
  have "mode_principal m = mode_principal m0" using assms(2) by (simp add: mode_ok_def)
  from payload_of_build [OF built(5) this] built assms show ?thesis by simp
next
  case (failed p call err req q)
  then show ?thesis using assms by (auto simp: transit_error_def chain_error_def)
next
  case (rejected p call req q e)
  then show ?thesis using assms
    by (auto simp: after_rejection_def chain_error_def recheck_ok_def mode_ok_def split: mode.splits)
next
  case (undispatched p call req q e)
  then show ?thesis using assms
    by (auto simp: after_failed_dispatch_def chain_error_def recheck_ok_def)
next
  case (reread rc)
  then show ?thesis using assms by (simp add: mode_ok_def)
next
  case (answered key w r w' rc previous)
  then show ?thesis using assms after_lookup_ok by auto
next
  case (stored rc who held)
  have "conclude H (x_error_text (c_api c)) rc (Ok (Rescoped held)) \<noteq> KeyRevoked"
    using conclude_revoked by fastforce
  then show ?thesis using stored assms by (auto simp: mode_ok_def)
next
  case (inspected p call b evs)
  then show ?thesis using assms inner_not_revoked [of "c_api c" evs]
    by (auto simp: wrapped_result_def Let_def split: sum.splits option.splits if_splits)
qed auto

definition all_ready :: "('v, 'e, 'b) task list \<Rightarrow> bool" where
  "all_ready ts \<longleftrightarrow> (\<forall>t\<in>set ts. \<exists>p call args. t = Ready p call args)"

lemma run_ok:
  assumes "run V H c m0 ts0 m ts" "all_ready ts0"
  shows "mode_ok V c m0 m \<and> list_all2 (task_ok V c m0) ts0 ts"
  using assms(1)
proof induction
  case begin_run
  have "task_ok V c m0 t t" if "t \<in> set ts0" for t using assms(2) that by (auto simp: all_ready_def)
  then show ?case by (auto simp: mode_ok_def list_all2_same)
next
  case (one_step m1 ts1 i m2 t)
  then have i: "i < length ts0" and "task_ok V c m0 (ts0 ! i) (ts1 ! i)" "mode_ok V c m0 m1"
    by (auto simp: list_all2_conv_all_nth)
  from task_step_ok [OF one_step.hyps(3) this(3,2)] one_step.IH i show ?case
    by (auto simp: list_all2_conv_all_nth nth_list_update)
qed

section \<open>The sequential call is a run\<close>

lemma run_trans: "run V H c m ts m1 ts1 \<Longrightarrow> run V H c m1 ts1 m2 ts2 \<Longrightarrow> run V H c m ts m2 ts2"
  by (rotate_tac, induction rule: run.induct) (auto intro: run.intros)

lemma single_step: "task_step V H c m t m' t' \<Longrightarrow> run V H c m [t] m' [t']"
  using one_step [OF begin_run, of 0 "[t]" V H c m m' t'] by simp

lemma step_then: "task_step V H c m t m1 t1 \<Longrightarrow> run V H c m1 [t1] m' [t'] \<Longrightarrow> run V H c m [t] m' [t']"
  by (rule run_trans [OF single_step])

lemma refresh_is_run:
  fixes V :: "'v scale_lib" and c :: "('w, 'v, 'e, 'p, 'h, 'b) client"
  assumes "client_account c = Some key"
    and "refresh_delegation V (c\<lparr>c_mode := m\<rparr>) w = ((outcome, m'), w')"
  shows "run V H c m [Checking rc] m' [Done (Err (conclude H (x_error_text (c_api c)) rc outcome))]"
proof -
  have acct: "client_account (c\<lparr>c_mode := m\<rparr>) = Some key" using assms(1) by (simp add: client_account_def)
  obtain r w1 where l: "lookup V (c_api c) key w = (r, w1)" by fastforce
  have a: "task_step V H c m (LookingUp rc m) m (after_lookup H c rc m r)"
    by (rule answered [OF assms(1) l])
  have "run V H c m [LookingUp rc m] m' [Done (Err (conclude H (x_error_text (c_api c)) rc outcome))]"
  proof (cases "\<exists>who held. after_lookup H c rc m r = (Storing rc who held :: ('v, 'e, 'b) task)")
    case True
    then obtain who held where s: "after_lookup H c rc m r = (Storing rc who held :: ('v, 'e, 'b) task)" by blast
    then have "outcome = Ok (Rescoped held) \<and> m' = Delegated who held"
      using assms(2) acct l
      by (auto simp: refresh_delegation_def after_lookup_def split: sum.splits refresh.splits mode.splits)
    then show ?thesis using step_then [OF a [unfolded s] single_step [OF stored]] by simp
  next
    case False
    then have "after_lookup H c rc m r =
        (Done (Err (conclude H (x_error_text (c_api c)) rc outcome)) :: ('v, 'e, 'b) task) \<and> m' = m"
      using assms(2) acct l
      by (auto simp: refresh_delegation_def after_lookup_def split: sum.splits refresh.splits mode.splits)
    then show ?thesis using single_step [OF a] by simp
  qed
  then show ?thesis by (rule step_then [OF reread])
qed

lemma rejection_is_run:
  assumes "client_account c = Some key"
    and "submission_error V H c p call req e w = ((err, m'), w')"
  shows "run V H c (c_mode c) [InFlight p call req q] m' [Done (Err err)]"
proof -
  let ?m = "c_mode c"
  have start: "task_step V H c ?m (InFlight p call req q) ?m (after_rejection c ?m p call req e)"
    by (rule rejected)
  show ?thesis
  proof (cases "\<exists>who scopes. ?m = Delegated who scopes \<and> is_pool_rejection (x_error_text (c_api c) e)")
    case False
    then have "after_rejection c ?m p call req e = Done (Err err)" "m' = ?m"
      using assms(2) by (auto simp: after_rejection_def submission_error_def Let_def split: mode.splits if_splits)
    then show ?thesis using single_step [OF start] by simp
  next
    case True
    then obtain who scopes where m: "?m = Delegated who scopes" "is_pool_rejection (x_error_text (c_api c) e)"
      by blast
    obtain outcome m1 w1 where f: "refresh_delegation V c w = ((outcome, m1), w1)" by (metis surj_pair)
    then have g: "refresh_delegation V (c\<lparr>c_mode := ?m\<rparr>) w = ((outcome, m1), w1)" by simp
    have res: "err = conclude H (x_error_text (c_api c)) (PoolRefusal p call req e who) outcome" "m' = m1"
      using assms(2) m f by (auto simp: submission_error_def Let_def)
    have check: "after_rejection c ?m p call req e = Checking (PoolRefusal p call req e who)"
      using m by (simp add: after_rejection_def)
    show ?thesis
      unfolding res by (rule step_then [OF start [unfolded check] refresh_is_run [OF assms(1) g]])
  qed
qed

lemma dispatch_failure_is_run:
  assumes "client_account c = Some key"
    and "outer_dispatch_error V (c\<lparr>c_mode := m\<rparr>) p call e w = ((err, m'), w')"
  shows "run V H c m [InFlight p call req q] m' [Done (Err err)]"
proof -
  have start: "task_step V H c m (InFlight p call req q) m (after_failed_dispatch c p call e)"
    by (rule undispatched)
  show ?thesis
  proof (cases "x_module_error (c_api c) e = Some (''Proxy'', ''NotProxy'')")
    case False
    then show ?thesis
      using assms(2) single_step [OF start]
      by (simp add: after_failed_dispatch_def outer_dispatch_error_def Let_def)
  next
    case True
    obtain outcome m1 w1 where f: "refresh_delegation V (c\<lparr>c_mode := m\<rparr>) w = ((outcome, m1), w1)"
      by (metis surj_pair)
    have res: "err = conclude H (x_error_text (c_api c)) (OuterFailure p call e) outcome" "m' = m1"
      using assms(2) True f by (auto simp: outer_dispatch_error_def Let_def)
    have check: "after_failed_dispatch c p call e = Checking (OuterFailure p call e)"
      using True by (simp add: after_failed_dispatch_def)
    show ?thesis
      unfolding res by (rule step_then [OF start [unfolded check] refresh_is_run [OF assms(1) f]])
  qed
qed

lemma transit_errors:
  "transit_error c p call (chain_error p call t)" "transit_error c p call (Key k)"
  "transit_error c p call (FinalityTimeout p call (mc_finality_timeout (c_config c)))"
  by (auto simp: transit_error_def)

text \<open>A call whose payload was built goes on, or fails on the way.\<close>

lemma built_is_run:
  "c_signer c = Some s \<Longrightarrow> build_payload V (c_mode c) p call args = Ok q \<Longrightarrow>
     run V H c (c_mode c) [InFlight p call (required_scopes V p call args) q] m [t] \<Longrightarrow>
     run V H c (c_mode c) [Ready p call args] m [t]"
  by (rule step_then [OF built])

lemma failed_is_run:
  "c_signer c = Some s \<Longrightarrow> build_payload V (c_mode c) p call args = Ok q \<Longrightarrow> transit_error c p call err \<Longrightarrow>
     run V H c (c_mode c) [Ready p call args] (c_mode c) [Done (Err err)]"
  by (rule built_is_run [OF _ _ single_step [OF failed]])

lemma submit_is_run:
  assumes "client_account c = Some key"
    and "submit_and_finalize V H c p call req x a g w = ((Err err, m), w')"
  shows "run V H c (c_mode c) [InFlight p call req q] m [Done (Err err)]"
  using assms(2)
  by (auto simp: submit_and_finalize_def Let_def split: sum.splits prod.splits
      intro: rejection_is_run [OF assms(1)] single_step [OF failed] transit_errors)

lemma submit_landed:
  "submit_and_finalize V H c p call req x a g w = ((Ok b, m), w') \<Longrightarrow> m = c_mode c"
  by (auto simp: submit_and_finalize_def Let_def split: sum.splits prod.splits)

lemma outcome_is_run:
  assumes "client_account c = Some key"
    and "tx_outcome V (c\<lparr>c_mode := m\<rparr>) p call b w = ((r, m'), w')"
  shows "run V H c m [InFlight p call req q] m' [Done r]"
proof (cases "x_wait_success (c_api c) b w")
  case (Pair x w1)
  show ?thesis
  proof (cases x)
    case (Inl e)
    then show ?thesis
      using assms Pair dispatch_failure_is_run [OF assms(1), of V m p call e w1]
      by (auto simp: tx_outcome_def Let_def split: prod.splits)
  next
    case (Inr evs)
    then have "r = wrapped_result c m p call b evs \<and> m' = m"
      using assms(2) Pair
      by (auto simp: tx_outcome_def wrapped_result_def Let_def split: if_splits sum.splits option.splits)
    then show ?thesis using step_then [OF dispatched single_step [OF inspected]] by simp
  qed
qed

lemma signed_to_run:
  assumes "timer_law timer" and "tx V H timer c p call args w = (r, c', w')"
    and s: "c_signer c = Some s" "build_payload V (c_mode c) p call args = Ok q"
    and part: "x_create_partial (c_api c) q (as_bytes (ds_account s)) w = (Ok part, w1)"
    and sig: "ds_sign s (x_signer_payload (c_api c) part) w1 = (Ok sig, w2)"
  shows "run V H c (c_mode c) [Ready p call args] (c_mode c') [Done r]"
proof -
  have acct: "client_account c = Some (ds_account s)" using s by (simp add: client_account_def)
  let ?step = "submit_and_finalize V H c p call (required_scopes V p call args) part
      (as_bytes (ds_account s)) sig"
  obtain r3 w3 where 3: "timer (mc_finality_timeout (c_config c)) ?step w2 = (r3, w3)" by fastforce
  note unfold = assms(2) s part sig 3 and goes_on = built_is_run [OF s]
  show ?thesis
  proof (cases r3)
    case None
    then show ?thesis
      using unfold failed_is_run [OF s transit_errors(3)] by (auto simp: tx_def require_signer_def)
  next
    case (Some x)
    then have landed: "?step w2 = (x, w3)" using assms(1) 3 unfolding timer_law_def by blast
    show ?thesis
    proof (cases "fst x")
      case (Inl e)
      with landed have "?step w2 = ((Err e, snd x), w3)" by (cases x) simp
      from goes_on [OF submit_is_run [OF acct this]] show ?thesis
        using unfold Some Inl by (cases x) (auto simp: tx_def require_signer_def)
    next
      case (Inr b)
      with landed have l: "?step w2 = ((Ok b, snd x), w3)" by (cases x) simp
      from submit_landed [OF this] have m: "snd x = c_mode c" .
      have "tx_outcome V (c\<lparr>c_mode := c_mode c\<rparr>) p call b w3 = ((r, c_mode c'), w')"
        using unfold Some Inr m by (cases x) (auto simp: tx_def require_signer_def Let_def split: prod.splits)
      from goes_on [OF outcome_is_run [OF acct this]] show ?thesis .
    qed
  qed
qed

lemma tx_to_run:
  assumes "timer_law timer" and "tx V H timer c p call args w = (r, c', w')"
  shows "run V H c (c_mode c) [Ready p call args] (c_mode c') [Done r]"
proof (cases "\<exists>s q. c_signer c = Some s \<and> build_payload V (c_mode c) p call args = Ok q")
  case False
  then show ?thesis
    using assms(2) single_step [OF unsigned] single_step [OF refused]
    by (auto simp: tx_def require_signer_def res_simps split: sum.splits option.splits)
next
  case True
  then obtain s q where s: "c_signer c = Some s" "build_payload V (c_mode c) p call args = Ok q" by blast
  note fails = failed_is_run [OF s]
  obtain r1 w1 where 1: "x_create_partial (c_api c) q (as_bytes (ds_account s)) w = (r1, w1)" by fastforce
  show ?thesis
  proof (cases r1)
    case (Inl e)
    then show ?thesis using assms(2) s 1 fails [OF transit_errors(1)] by (auto simp: tx_def require_signer_def)
  next
    case part: (Inr part)
    obtain r2 w2 where 2: "ds_sign s (x_signer_payload (c_api c) part) w1 = (r2, w2)" by fastforce
    show ?thesis
    proof (cases r2)
      case (Inl e)
      then show ?thesis using assms(2) s 1 2 part fails [OF transit_errors(2)]
        by (auto simp: tx_def require_signer_def)
    next
      case (Inr sig)
      then show ?thesis using signed_to_run [OF assms s] 1 2 part by simp
    qed
  qed
qed

section \<open>Properties\<close>

text \<open>
  The sequential model is a run of the concurrent one: every result of \<open>tx\<close>, with the mode
  it leaves, is reached by a single task taking its steps with nobody in between.
\<close>

theorem tx_is_a_run:
  assumes "timer_law timer" and "tx V H timer c p call args w = (r, c', w')"
  shows "run V H c (c_mode c) [Ready p call args] (c_mode c') [Done r]"
  by (rule tx_to_run [OF assms])

text \<open>
  C25. Interleaving is harmless to the identity: however the steps of concurrent calls and the
  answers of the node interleave, the shared mode keeps its member (or stays direct) and holds
  the initial scopes or ones the chain answered for that member; every call in flight is wrapped
  for that member, or bare for a direct client; and a call that ends in \<open>KeyRevoked\<close> has a chain
  answer without a grant for the member behind it.
\<close>

theorem interleaved_calls_keep_identity:
  assumes "run V H c m0 ts0 m ts" and "all_ready ts0"
  shows "mode_principal m = mode_principal m0 \<and>
    (m = m0 \<or> (\<exists>who held. m = Delegated who held \<and> chain_answer V c (Some (who, held)))) \<and>
    length ts = length ts0 \<and>
    (\<forall>i < length ts.
       (\<forall>p call req q. ts ! i = InFlight p call req q \<longrightarrow>
          (\<exists>args. ts0 ! i = Ready p call args \<and>
             q = (case mode_principal m0 of None \<Rightarrow> dynamic_tx p call args
                  | Some who \<Rightarrow> proxy_payload V (as_bytes who) p call args))) \<and>
       (ts ! i = Done (Err KeyRevoked) \<longrightarrow>
          (\<exists>who fresh. mode_principal m0 = Some who \<and> chain_answer V c fresh \<and>
             map_option fst fresh \<noteq> Some who)))"
proof -
  from run_ok [OF assms] have m: "mode_ok V c m0 m" and ts: "list_all2 (task_ok V c m0) ts0 ts" by blast+
  have "(\<forall>p call req q. ts ! i = InFlight p call req q \<longrightarrow>
          (\<exists>args. ts0 ! i = Ready p call args \<and> q = payload_of V m0 p call args)) \<and>
       (ts ! i = Done (Err KeyRevoked) \<longrightarrow> revoked_for V c m0)" if "i < length ts" for i
    using list_all2_nthD2 [OF ts that] by auto
  with m list_all2_lengthD [OF ts] show ?thesis
    unfolding mode_ok_def payload_of_def revoked_for_def by simp
qed

theorem tx_is_a_run_witness:
  "run scale_ref hex_ref (client_ref (\<lambda>_. Some (''1010'', None)) [] delegated_ref) delegated_ref
     [Ready ''Jobs'' ''cancel_deployment'' [U128 42]] delegated_ref [Done (Err KeyRevoked)]"
  using tx_is_a_run [OF timer_ref_law revoked_run] by simp

theorem interleaved_calls_keep_identity_witness:
  "\<exists>fresh. chain_answer scale_ref (client_ref (\<lambda>_. Some (''1010'', None)) [] delegated_ref) fresh \<and>
     map_option fst fresh \<noteq> Some member_ref"
proof -
  let ?c = "client_ref (\<lambda>_. Some (''1010'', None)) [] delegated_ref"
  let ?ready = "Ready ''Jobs'' ''cancel_deployment'' [U128 42]"
  have r: "run scale_ref hex_ref ?c delegated_ref [?ready] delegated_ref [Done (Err KeyRevoked)]"
    using tx_to_run [OF timer_ref_law revoked_run] by simp
  have "all_ready [?ready]" by (simp add: all_ready_def)
  from interleaved_calls_keep_identity [OF r this] show ?thesis by auto
qed

text \<open>
  A stale answer can win: two refreshes that started from the same scopes can store theirs in the
  opposite order of the chain's answers, so the cached scopes are then the older ones.
\<close>

lemma stale_answer_can_win:
  assumes "client_account c = Some key"
    and "lookup V (c_api c) key w1 = (Ok (Some (who, old)), w1')"
    and "lookup V (c_api c) key w2 = (Ok (Some (who, new)), w2')"
    and "old \<noteq> scopes" "new \<noteq> scopes"
  shows "\<exists>r1 r2. run V H c (Delegated who scopes) [Checking rc1, Checking rc2]
    (Delegated who old) [Done r1, Done r2]"
proof -
  let ?m = "Delegated who scopes"
  let ?d = "\<lambda>rc held. Done (Err (conclude H (x_error_text (c_api c)) rc (Ok (Rescoped held))))"
  have step: "run V H c m ts m1 ts1 \<Longrightarrow> i < length ts1 \<Longrightarrow> task_step V H c m1 (ts1 ! i) m2 t \<Longrightarrow>
      ts1[i := t] = ts2 \<Longrightarrow> run V H c m ts m2 ts2" for m ts m1 ts1 i m2 t ts2
    using one_step by blast
  have l: "after_lookup H c rc ?m (Ok (Some (who, held))) = Storing rc who held" if "held \<noteq> scopes" for rc held
    using that by (simp add: after_lookup_def)
  have a: "task_step V H c m (LookingUp rc1 ?m) m (Storing rc1 who old)"
    "task_step V H c m (LookingUp rc2 ?m) m (Storing rc2 who new)" for m
    using answered [OF assms(1,2), of H m rc1 ?m] answered [OF assms(1,3), of H m rc2 ?m] l assms(4,5)
    by simp_all
  have "run V H c ?m [Checking rc1, Checking rc2] ?m [LookingUp rc1 ?m, Checking rc2]"
    by (rule step [OF begin_run, of 0]) (auto intro: reread)
  then have "run V H c ?m [Checking rc1, Checking rc2] ?m [LookingUp rc1 ?m, LookingUp rc2 ?m]"
    by (rule step [of _ _ _ _ 1]) (auto intro: reread)
  then have "run V H c ?m [Checking rc1, Checking rc2] ?m [Storing rc1 who old, LookingUp rc2 ?m]"
    by (rule step [of _ _ _ _ 0]) (auto intro: a)
  then have "run V H c ?m [Checking rc1, Checking rc2] ?m [Storing rc1 who old, Storing rc2 who new]"
    by (rule step [of _ _ _ _ 1]) (auto intro: a)
  then have "run V H c ?m [Checking rc1, Checking rc2] (Delegated who new) [Storing rc1 who old, ?d rc2 new]"
    by (rule step [of _ _ _ _ 1]) (auto intro: stored)
  then have "run V H c ?m [Checking rc1, Checking rc2] (Delegated who old) [?d rc1 old, ?d rc2 new]"
    by (rule step [of _ _ _ _ 0]) (auto intro: stored)
  then show ?thesis by blast
qed

end
