(* ===== verification/Utf8.thy ===== *)
theory Utf8
  imports Wire
begin

text \<open>
  \<open>str::from_utf8\<close> and \<open>String::from_utf8_lossy\<close>: which byte strings are text, and the lossy
  reading that puts one replacement character for each maximal invalid part. A \<open>str\<close> is its
  bytes, so a valid byte string is read as it is.
\<close>

definition continuation :: "u8 \<Rightarrow> bool" where
  "continuation b \<longleftrightarrow> 0x80 \<le> b \<and> b \<le> 0xBF"

text \<open>The first character: whether it is well-formed, and how many bytes are consumed.\<close>

definition second_byte :: "u8 \<Rightarrow> u8 \<Rightarrow> bool" where
  "second_byte b c \<longleftrightarrow>
     (if b = 0xE0 then 0xA0 \<le> c \<and> c \<le> 0xBF
      else if b = 0xED then 0x80 \<le> c \<and> c \<le> 0x9F
      else if b = 0xF0 then 0x90 \<le> c \<and> c \<le> 0xBF
      else if b = 0xF4 then 0x80 \<le> c \<and> c \<le> 0x8F
      else continuation c)"

definition utf8_head :: "u8 \<Rightarrow> bytes \<Rightarrow> bool \<times> nat" where
  "utf8_head b bs =
     (if b < 0x80 then (True, 1)
      else if 0xC2 \<le> b \<and> b \<le> 0xDF then
        (case bs of c # _ \<Rightarrow> if continuation c then (True, 2) else (False, 1) | [] \<Rightarrow> (False, 1))
      else if 0xE0 \<le> b \<and> b \<le> 0xEF then
        (case bs of
           c # d # _ \<Rightarrow> if \<not> second_byte b c then (False, 1)
                        else if continuation d then (True, 3) else (False, 2)
         | [c] \<Rightarrow> (False, if second_byte b c then 2 else 1)
         | [] \<Rightarrow> (False, 1))
      else if 0xF0 \<le> b \<and> b \<le> 0xF4 then
        (case bs of
           c # d # e # _ \<Rightarrow> if \<not> second_byte b c then (False, 1)
                            else if \<not> continuation d then (False, 2)
                            else if continuation e then (True, 4) else (False, 3)
         | [c, d] \<Rightarrow> (False, if \<not> second_byte b c then 1 else if continuation d then 3 else 2)
         | [c] \<Rightarrow> (False, if second_byte b c then 2 else 1)
         | [] \<Rightarrow> (False, 1))
      else (False, 1))"

definition bytes_str :: "bytes \<Rightarrow> str" where
  "bytes_str bs = map (\<lambda>b. char_of (unat b)) bs"

definition REPLACEMENT :: str where
  "REPLACEMENT = [CHR 0xEF, CHR 0xBF, CHR 0xBD]"

function utf8_valid :: "bytes \<Rightarrow> bool" where
  "utf8_valid [] = True"
| "utf8_valid (b # bs) =
     (case utf8_head b bs of
        (True, n) \<Rightarrow> utf8_valid (drop (n - 1) bs)
      | (False, _) \<Rightarrow> False)"
  by pat_completeness auto
termination by (relation "measure length") auto

function from_utf8_lossy :: "bytes \<Rightarrow> str" where
  "from_utf8_lossy [] = []"
| "from_utf8_lossy (b # bs) =
     (case utf8_head b bs of
        (True, n) \<Rightarrow> bytes_str (take n (b # bs)) @ from_utf8_lossy (drop (n - 1) bs)
      | (False, n) \<Rightarrow> REPLACEMENT @ from_utf8_lossy (drop (n - 1) bs))"
  by pat_completeness auto
termination by (relation "measure length") auto

declare utf8_valid.simps(2) [simp del] from_utf8_lossy.simps(2) [simp del]

lemma utf8_head_pos: "utf8_head b bs = (v, n) \<Longrightarrow> 0 < n"
  by (auto simp: utf8_head_def split: list.splits if_splits)

text \<open>The lossy reading of text is the text.\<close>

lemma lossy_valid: "utf8_valid bs \<Longrightarrow> from_utf8_lossy bs = bytes_str bs"
proof (induction bs rule: utf8_valid.induct)
  case 1
  then show ?case by (simp add: bytes_str_def)
next
  case (2 b bs)
  obtain v n where h: "utf8_head b bs = (v, n)" by fastforce
  with "2.prems" have v: "v" "utf8_valid (drop (n - 1) bs)"
    by (auto simp: utf8_valid.simps split: bool.splits)
  have n: "take n (b # bs) @ drop (n - 1) bs = b # bs"
    using utf8_head_pos [OF h] by (cases n) simp_all
  from 2(1) [OF h [symmetric]] v h have "from_utf8_lossy (b # bs) =
      bytes_str (take n (b # bs)) @ bytes_str (drop (n - 1) bs)"
    by (simp add: from_utf8_lossy.simps)
  also have "\<dots> = bytes_str (b # bs)" by (metis bytes_str_def map_append n)
  finally show ?case .
qed

text \<open>ASCII is text, and reading back the bytes of a literal gives the literal.\<close>

lemma utf8_valid_ascii: "\<forall>b \<in> set bs. b < 0x80 \<Longrightarrow> utf8_valid bs"
proof (induction bs rule: utf8_valid.induct)
  case (2 b bs)
  then have "utf8_head b bs = (True, 1)" by (simp add: utf8_head_def)
  with 2 show ?case by (simp add: utf8_valid.simps)
qed simp

lemma bytes_str_str_bytes: "bytes_str (str_bytes s) = s"
proof -
  have "char_of (unat (of_char c :: u8)) = c" for c
  proof -
    have "unat (of_char c :: u8) = (of_char c :: nat)"
      by (metis of_char_mod_256 of_nat_of_char unat_of_nat_u8)
    then show ?thesis by simp
  qed
  then show ?thesis by (simp add: bytes_str_def str_bytes_def comp_def)
qed

lemma str_bytes_ascii:
  assumes "\<forall>c \<in> set s. ord c < 128"
  shows "from_utf8_lossy (str_bytes s) = s"
proof -
  have "(of_char c :: u8) < 0x80" if "ord c < 128" for c :: char
  proof -
    have "unat (of_char c :: u8) = ord c"
      by (metis of_char_mod_256 of_nat_of_char unat_of_nat_u8)
    with that show ?thesis by (simp add: word_less_nat_alt)
  qed
  with assms have "utf8_valid (str_bytes s)" by (intro utf8_valid_ascii) (auto simp: str_bytes_def)
  then show ?thesis by (simp add: lossy_valid bytes_str_str_bytes)
qed

end
