(* ===== verification/Recover.thy ===== *)
theory Recover
  imports Client Quorum Utf8
begin

text \<open>
  \<open>crates/matter-sdk/src/chain/recover.rs\<close> and \<open>recover_secret\<close> of \<open>lib.rs\<close>: recovery of a
  stored secret in one call. The chain reads fetch the envelope, its epoch and tag, then the
  committee of that epoch is joined from four tables of the chain, and \<open>decrypt\<close> runs over it.
  The SCALE codec and the JSON-RPC methods are third-party: parameters.
\<close>

section \<open>The chain's records\<close>

record chain_envelope =
  ce_binding_id :: bytes
  ce_capsule :: bytes
  ce_proof :: bytes
  ce_ct :: bytes

record chain_node_info =
  cn_endpoint :: bytes
  cn_dkg_index :: u64

record stored_secret =
  st_envelope :: encrypted_secret
  st_epoch :: u32
  st_aad :: bytes

record committee_info =
  ci_epoch :: u32
  ci_threshold :: nat
  ci_shared_a :: bytes
  ci_nodes :: "node list"
  ci_block_hash :: bytes

text \<open>\<open>parity_scale_codec\<close> at the types the code encodes and decodes, errors rendered.\<close>

record scale_codec =
  enc_u128 :: "u128 \<Rightarrow> bytes"
  enc_u32 :: "u32 \<Rightarrow> bytes"
  enc_u32_account :: "u32 \<Rightarrow> bytes \<Rightarrow> bytes"
  dec_envelope :: "bytes \<Rightarrow> str + chain_envelope option"
  dec_u32 :: "bytes \<Rightarrow> str + u32 option"
  dec_bytes :: "bytes \<Rightarrow> str + bytes option"
  dec_dkg_output :: "bytes \<Rightarrow> str + (bytes \<times> bytes) option"
  dec_threshold :: "bytes \<Rightarrow> str + u64 \<times> u64"
  dec_committee :: "bytes \<Rightarrow> str + (bytes \<times> u64) list"
  dec_registry :: "bytes \<Rightarrow> str + (bytes \<times> chain_node_info) list"

record 'w rpc_lib =
  rp_state_call :: "str \<Rightarrow> bytes \<Rightarrow> 'w \<Rightarrow> (str + bytes) \<times> 'w"
  rp_finalized_head :: "'w \<Rightarrow> (str + bytes) \<times> 'w"

definition SECRET_PAYLOAD :: str where "SECRET_PAYLOAD = ''SecretsApi_secret_payload''"
definition SECRET_EPOCH :: str where "SECRET_EPOCH = ''SecretsApi_secret_epoch''"
definition SECRET_AAD :: str where "SECRET_AAD = ''SecretsApi_secret_aad''"
definition DKG_OUTPUT_AT_EPOCH :: str where "DKG_OUTPUT_AT_EPOCH = ''KgcApi_dkg_output_at_epoch''"
definition THRESHOLD_AT_EPOCH :: str where "THRESHOLD_AT_EPOCH = ''KgcApi_threshold_params_at_epoch''"
definition COMMITTEE_AT_EPOCH :: str where "COMMITTEE_AT_EPOCH = ''KgcApi_committee_at_epoch''"
definition KGC_NODES :: str where "KGC_NODES = ''KgcApi_kgc_nodes''"
definition SHARE_COMMITMENT :: str where "SHARE_COMMITMENT = ''KgcApi_share_commitment''"

section \<open>Reads\<close>

definition chain_err :: "str \<Rightarrow> str \<Rightarrow> sdk_error" where
  "chain_err target detail = Chain target detail"

definition state_call ::
  "'w rpc_lib \<Rightarrow> (bytes \<Rightarrow> str + 't) \<Rightarrow> str \<Rightarrow> bytes \<Rightarrow> 'w \<Rightarrow> (sdk_error + 't) \<times> 'w" where
  "state_call R dec method_name args =
     abind (amap_err (chain_err method_name) (rp_state_call R method_name args)) (\<lambda>bs.
     apure (map_err (chain_err method_name) (dec bs)))"

definition secret_text :: "u128 \<Rightarrow> str \<Rightarrow> str" where
  "secret_text secret_id what = ''secret '' @ show_nat (unat secret_id) @ what"

definition read_secret ::
  "scale_codec \<Rightarrow> 'w rpc_lib \<Rightarrow> u128 \<Rightarrow> 'w \<Rightarrow> (sdk_error + stored_secret) \<times> 'w" where
  "read_secret Z R secret_id =
     abind (state_call R (dec_envelope Z) SECRET_PAYLOAD (enc_u128 Z secret_id)) (\<lambda>found.
     abind (apure (ok_or (chain_err SECRET_PAYLOAD (secret_text secret_id '' does not exist'')) found)) (\<lambda>env.
     abind (state_call R (dec_u32 Z) SECRET_EPOCH (enc_u128 Z secret_id)) (\<lambda>ep.
     abind (apure (ok_or (chain_err SECRET_EPOCH (secret_text secret_id '' has no record'')) ep)) (\<lambda>epoch.
     abind (state_call R (dec_bytes Z) SECRET_AAD (enc_u128 Z secret_id)) (\<lambda>a.
     apure (Ok \<lparr>st_envelope =
                  \<lparr>binding_id = ce_binding_id env, capsule = ce_capsule env, proof_blob = ce_proof env,
                   ct = ce_ct env\<rparr>,
                st_epoch = epoch, st_aad = (case a of Some bs \<Rightarrow> bs | None \<Rightarrow> [])\<rparr>))))))"

definition check_aad :: "u128 \<Rightarrow> bytes \<Rightarrow> aad \<Rightarrow> sdk_error + unit" where
  "check_aad secret_id sealed_under requested =
     (if sealed_under = [] \<or> sealed_under = aad_as_bytes requested then Ok ()
      else Err (AadMismatch secret_id (from_utf8_lossy sealed_under)
                 (from_utf8_lossy (aad_as_bytes requested))))"

section \<open>The committee\<close>

definition parse_endpoint :: "bytes \<Rightarrow> str option" where
  "parse_endpoint raw =
     (if \<not> utf8_valid raw then None
      else
       let s = trim (bytes_str raw) in
       if starts_with ''https://'' s \<or> starts_with ''http://'' s
       then Some (trim_end_matches (CHR ''/'') s) else None)"

definition table_lookup :: "(bytes \<times> bytes) list \<Rightarrow> bytes \<Rightarrow> bytes option" where
  "table_lookup table i = map_option snd (find (\<lambda>(k, _). k = i) table)"

definition missing_commitment :: "u64 \<Rightarrow> u32 \<Rightarrow> sdk_error" where
  "missing_commitment dkg_index epoch =
     chain_err SHARE_COMMITMENT
       (''share commitment missing for reachable node '' @ show_nat (unat dkg_index) @ '' at epoch '' @
        show_nat (unat epoch))"

fun assemble_loop ::
  "(bytes \<times> u64) list \<Rightarrow> (bytes \<times> bytes) list \<Rightarrow> (bytes \<times> bytes) list \<Rightarrow> u32 \<Rightarrow> node list
     \<Rightarrow> sdk_error + node list" where
  "assemble_loop [] endpoints commitments epoch nodes = Ok nodes"
| "assemble_loop ((i, dkg_index) # rest) endpoints commitments epoch nodes =
     (case Option.bind (table_lookup endpoints i) parse_endpoint of
        None \<Rightarrow> assemble_loop rest endpoints commitments epoch nodes
      | Some endpoint \<Rightarrow>
          rbind (ok_or (missing_commitment dkg_index epoch) (table_lookup commitments i)) (\<lambda>g_j.
          assemble_loop rest endpoints commitments epoch
            (nodes @ [\<lparr>n_index = dkg_index, n_endpoint = endpoint, share_commitment = g_j\<rparr>])))"

definition assemble_nodes ::
  "(bytes \<times> u64) list \<Rightarrow> (bytes \<times> bytes) list \<Rightarrow> (bytes \<times> bytes) list \<Rightarrow> u32 \<Rightarrow> sdk_error + node list" where
  "assemble_nodes committee endpoints commitments epoch =
     rbind (assemble_loop committee endpoints commitments epoch []) (\<lambda>nodes.
     Ok (sort_key (\<lambda>n. unat (n_index n)) nodes))"

fun read_commitments ::
  "scale_codec \<Rightarrow> 'w rpc_lib \<Rightarrow> u32 \<Rightarrow> (bytes \<times> u64) list \<Rightarrow> (bytes \<times> bytes) list \<Rightarrow> 'w
     \<Rightarrow> (sdk_error + (bytes \<times> bytes) list) \<times> 'w" where
  "read_commitments Z R epoch [] acc = apure (Ok acc)"
| "read_commitments Z R epoch ((i, d) # rest) acc =
     abind (state_call R (dec_bytes Z) SHARE_COMMITMENT (enc_u32_account Z epoch i)) (\<lambda>g.
     read_commitments Z R epoch rest (case g of Some g_j \<Rightarrow> acc @ [(i, g_j)] | None \<Rightarrow> acc))"

definition too_few_reachable :: "nat \<Rightarrow> u32 \<Rightarrow> u64 \<Rightarrow> sdk_error" where
  "too_few_reachable n epoch threshold =
     chain_err KGC_NODES
       (''only '' @ show_nat n @ '' of epoch '' @ show_nat (unat epoch) @
        '''s committee is reachable; need '' @ show_nat (unat threshold))"

definition fetch_committee_info ::
  "scale_codec \<Rightarrow> 'w rpc_lib \<Rightarrow> u32 \<Rightarrow> 'w \<Rightarrow> (sdk_error + committee_info) \<times> 'w" where
  "fetch_committee_info Z R epoch =
     abind (state_call R (dec_dkg_output Z) DKG_OUTPUT_AT_EPOCH (enc_u32 Z epoch)) (\<lambda>found.
     abind (apure (ok_or (chain_err DKG_OUTPUT_AT_EPOCH (''no DKG output at epoch '' @ show_nat (unat epoch)))
              found)) (\<lambda>output.
     abind (state_call R (dec_threshold Z) THRESHOLD_AT_EPOCH (enc_u32 Z epoch)) (\<lambda>params.
     abind (state_call R (dec_committee Z) COMMITTEE_AT_EPOCH (enc_u32 Z epoch)) (\<lambda>committee.
     abind (apure (if committee = []
                   then Err (chain_err COMMITTEE_AT_EPOCH
                          (''no committee seated at epoch '' @ show_nat (unat epoch)))
                   else Ok ())) (\<lambda>_.
     abind (state_call R (dec_registry Z) KGC_NODES []) (\<lambda>registry.
     abind (read_commitments Z R epoch committee []) (\<lambda>commitments.
     abind (apure (assemble_nodes committee (map (\<lambda>(i, info). (i, cn_endpoint info)) registry)
                     commitments epoch)) (\<lambda>nodes.
     abind (apure (if length nodes < unat (snd params)
                   then Err (too_few_reachable (length nodes) epoch (snd params)) else Ok ())) (\<lambda>_.
     abind (amap_err (chain_err ''chain_getFinalizedHead'') (rp_finalized_head R)) (\<lambda>head.
     apure (Ok \<lparr>ci_epoch = epoch, ci_threshold = unat (snd params), ci_shared_a = snd output,
                ci_nodes = nodes, ci_block_hash = head\<rparr>)))))))))))"

section \<open>Recovery\<close>

text \<open>\<open>recover_secret\<close> (\<open>lib.rs\<close>), and \<open>KeyAuth\<close>, which signs committee requests with a client's key.\<close>

definition recovery_request ::
  "committee_info \<Rightarrow> u128 \<Rightarrow> encrypted_secret \<Rightarrow> aad \<Rightarrow> decrypt_request" where
  "recovery_request committee secret_id secret a =
     \<lparr>d_secret_id = secret_id, d_epoch = ci_epoch committee, d_binding_id = binding_id secret,
      d_aad = aad_as_bytes a, d_capsule = capsule secret, d_ct = ct secret,
      d_shared_a = ci_shared_a committee, d_block_hash = ci_block_hash committee,
      d_threshold = ci_threshold committee, d_nodes = ci_nodes committee\<rparr>"

definition recover_secret ::
  "'o kgc \<Rightarrow> hex_lib \<Rightarrow> 'w picker \<Rightarrow> committee_info \<Rightarrow> 'w transport \<Rightarrow> 'w signer \<Rightarrow> u128
     \<Rightarrow> encrypted_secret \<Rightarrow> aad \<Rightarrow> 'w \<Rightarrow> (sdk_error + plaintext) \<times> 'w" where
  "recover_secret K H pick committee T S secret_id secret a =
     decrypt K H T S pick (recovery_request committee secret_id secret a)"

definition key_auth :: "'o kgc \<Rightarrow> hex_lib \<Rightarrow> 'w dyn_signer \<Rightarrow> 'w signer" where
  "key_auth K H s req w =
     (case ds_sign s (payload K req) w of
        (Inl e, w1) \<Rightarrow> (Err (Key e), w1)
      | (Inr signature, w1) \<Rightarrow> (Ok (frame_auth H (ds_account s) signature), w1))"

text \<open>
  Framing the signature of a key through \<open>KeyAuth\<close> is what the key's own \<open>Signer\<close> does, for an API
  key and for the development signer.
\<close>

lemma key_auth_api_key:
  "key_auth K H (api_key_signer L k) = (\<lambda>req w. (api_key_authorize K H L k req, w))"
  by (auto simp: key_auth_def api_key_signer_def api_key_authorize_def partial_decrypt_auth_def fun_eq_iff
      split: sum.splits)

lemma key_auth_dev_signer: "key_auth K H (dev_key_signer L key) = dev_signer K H L key"
  by (auto simp: key_auth_def dev_key_signer_def dev_signer_def api_key_authorize_def
      partial_decrypt_auth_def fun_eq_iff split: sum.splits)

text \<open>\<open>Secrets::recover\<close> (\<open>facade.rs\<close>).\<close>

definition secrets_recover ::
  "'o kgc \<Rightarrow> hex_lib \<Rightarrow> 'w picker \<Rightarrow> scale_codec \<Rightarrow> 'w rpc_lib \<Rightarrow> 'w http_client
     \<Rightarrow> ('w, 'v, 'e, 'p, 'h, 'b) client \<Rightarrow> u128 \<Rightarrow> aad \<Rightarrow> 'w \<Rightarrow> (sdk_error + plaintext) \<times> 'w" where
  "secrets_recover K H pick Z R C c secret_id a =
     abind (apure (require_signer c)) (\<lambda>signer.
     abind (read_secret Z R secret_id) (\<lambda>stored.
     abind (apure (check_aad secret_id (st_aad stored) a)) (\<lambda>_.
     abind (fetch_committee_info Z R (st_epoch stored)) (\<lambda>committee.
     recover_secret K H pick committee (reqwest_transport C) (key_auth K H signer) secret_id
       (st_envelope stored) a))))"

section \<open>The joined committee\<close>

text \<open>The registry's usable endpoint of a member, and the node a reachable member becomes.\<close>

definition member_endpoint :: "(bytes \<times> bytes) list \<Rightarrow> bytes \<times> u64 \<Rightarrow> str option" where
  "member_endpoint endpoints m = Option.bind (table_lookup endpoints (fst m)) parse_endpoint"

definition member_node ::
  "(bytes \<times> bytes) list \<Rightarrow> (bytes \<times> bytes) list \<Rightarrow> bytes \<times> u64 \<Rightarrow> node option" where
  "member_node endpoints commitments m =
     (case (member_endpoint endpoints m, table_lookup commitments (fst m)) of
        (Some endpoint, Some g_j) \<Rightarrow>
          Some \<lparr>n_index = snd m, n_endpoint = endpoint, share_commitment = g_j\<rparr>
      | _ \<Rightarrow> None)"

lemma assemble_loop_spec:
  "assemble_loop committee endpoints commitments epoch nodes =
     (case find (\<lambda>m. member_endpoint endpoints m \<noteq> None \<and> table_lookup commitments (fst m) = None) committee of
        Some m \<Rightarrow> Err (missing_commitment (snd m) epoch)
      | None \<Rightarrow> Ok (nodes @ List.map_filter (member_node endpoints commitments) committee))"
proof (induction committee arbitrary: nodes)
  case Nil
  then show ?case by (simp add: map_filter_simps)
next
  case (Cons m committee)
  obtain i d where m: "m = (i, d)" by (cases m)
  show ?case
    by (cases "Option.bind (table_lookup endpoints i) parse_endpoint"; cases "table_lookup commitments i")
      (simp_all add: m Cons.IH member_endpoint_def [of _ "(i, d)"] member_node_def [of _ _ "(i, d)"]
        map_filter_simps split: option.splits)
qed

text \<open>
  The committee join: a member with a usable endpoint and no share commitment is an error
  that names its index, the first such member in committee order; otherwise the nodes are
  exactly the members with a usable endpoint, each with its own endpoint and commitment, sorted
  by index, and the unreachable ones are dropped.
\<close>

theorem committee_join:
  "assemble_nodes committee endpoints commitments epoch =
     (case find (\<lambda>m. member_endpoint endpoints m \<noteq> None \<and> table_lookup commitments (fst m) = None) committee of
        Some m \<Rightarrow> Err (missing_commitment (snd m) epoch)
      | None \<Rightarrow> Ok (sort_key (\<lambda>n. unat (n_index n))
                      (List.map_filter (member_node endpoints commitments) committee)))"
  by (simp add: assemble_nodes_def assemble_loop_spec split: option.splits)

lemma assemble_nodes_Ok:
  assumes "assemble_nodes committee endpoints commitments epoch = Ok nodes"
  shows "sorted (map (\<lambda>n. unat (n_index n)) nodes) \<and>
    set nodes \<subseteq> set (List.map_filter (member_node endpoints commitments) committee)"
  using assms by (auto simp: assemble_nodes_def assemble_loop_spec split: option.splits)

lemma parse_endpoint_no_slash:
  "parse_endpoint raw = Some s \<Longrightarrow> s = [] \<or> last s \<noteq> CHR ''/''"
  using trim_end_matches_last unfolding parse_endpoint_def Let_def by (auto split: if_splits)

lemma member_node_facts:
  assumes "n \<in> set (List.map_filter (member_node endpoints commitments) committee)"
  shows "\<exists>i. (i, n_index n) \<in> set committee \<and> table_lookup commitments i = Some (share_commitment n) \<and>
    (\<exists>raw. table_lookup endpoints i = Some raw \<and> parse_endpoint raw = Some (n_endpoint n))"
proof -
  from assms obtain m where m: "m \<in> set committee" "member_node endpoints commitments m = Some n"
    by (auto simp: List.map_filter_def)
  then have "(fst m, n_index n) \<in> set committee"
    "table_lookup commitments (fst m) = Some (share_commitment n)"
    "\<exists>raw. table_lookup endpoints (fst m) = Some raw \<and> parse_endpoint raw = Some (n_endpoint n)"
    by (cases m, auto simp: member_node_def member_endpoint_def bind_eq_Some_conv split: option.splits)+
  then show ?thesis by blast
qed

lemma fetched_epoch: "fetch_committee_info Z R epoch w = (Ok info, w') \<Longrightarrow> ci_epoch info = epoch"
  unfolding fetch_committee_info_def by (elim abind_OkE) (auto simp: apure_eq)

text \<open>
  C9. A fetched committee can serve its threshold: it is that of the epoch asked for, holds at
  least the chain's threshold of nodes, in increasing index order, and every node is a member
  of the epoch's committee as the chain lists it, with an endpoint that does not end in a slash.
\<close>

theorem fetched_committee_is_sound:
  assumes "fetch_committee_info Z R epoch w = (Ok info, w')"
  shows "ci_epoch info = epoch \<and> ci_threshold info \<le> length (ci_nodes info) \<and>
    sorted (map (\<lambda>n. unat (n_index n)) (ci_nodes info)) \<and>
    (\<exists>committee w1 w2. state_call R (dec_committee Z) COMMITTEE_AT_EPOCH (enc_u32 Z epoch) w1 = (Ok committee, w2) \<and>
       committee \<noteq> [] \<and>
       (\<forall>n \<in> set (ci_nodes info). n_index n \<in> snd ` set committee \<and>
          (n_endpoint n = [] \<or> last (n_endpoint n) \<noteq> CHR ''/'')))"
proof -
  from assms obtain committee w1 w2 endpoints commitments where
    c: "state_call R (dec_committee Z) COMMITTEE_AT_EPOCH (enc_u32 Z epoch) w1 = (Ok committee, w2)" "committee \<noteq> []"
    and a: "assemble_nodes committee endpoints commitments epoch = Ok (ci_nodes info)"
    and t: "ci_epoch info = epoch" "ci_threshold info \<le> length (ci_nodes info)"
    unfolding fetch_committee_info_def
    by (elim abind_OkE) (rule that, auto simp: apure_eq split: if_splits)
  from assemble_nodes_Ok [OF a] have s: "sorted (map (\<lambda>n. unat (n_index n)) (ci_nodes info))" by blast
  have "n_index n \<in> snd ` set committee \<and> (n_endpoint n = [] \<or> last (n_endpoint n) \<noteq> CHR ''/'')"
    if "n \<in> set (ci_nodes info)" for n
    using member_node_facts [of n endpoints commitments committee] assemble_nodes_Ok [OF a] that
      parse_endpoint_no_slash by force
  with c t s show ?thesis by blast
qed

text \<open>
  A secret sealed under another tag is refused right after its record is read, before any
  committee read or node request, and the error names both tags; a recorded tag that is empty
  or the requested one passes.
\<close>

theorem wrong_tag_is_refused_first:
  assumes "c_signer c = Some s" and "read_secret Z R secret_id w = (Ok stored, w1)"
  shows "if st_aad stored = [] \<or> st_aad stored = aad_as_bytes a
    then secrets_recover K H pick Z R C c secret_id a w =
      abind (fetch_committee_info Z R (st_epoch stored)) (\<lambda>committee.
        recover_secret K H pick committee (reqwest_transport C) (key_auth K H s) secret_id
          (st_envelope stored) a) w1
    else secrets_recover K H pick Z R C c secret_id a w =
      (Err (AadMismatch secret_id (from_utf8_lossy (st_aad stored)) (aad_text a)), w1)"
proof -
  have "\<forall>c \<in> set (aad_text a). ord c < 128" by (cases a) simp_all
  then have "from_utf8_lossy (aad_as_bytes a) = aad_text a"
    unfolding aad_as_bytes_def by (rule str_bytes_ascii)
  then show ?thesis
    using assms by (simp add: secrets_recover_def abind_def apure_def require_signer_def check_aad_def)
qed

text \<open>
  A registry entry that is only a scheme passes as an endpoint: stripping the trailing
  slashes leaves \<open>http:\<close>, which is no absolute URL; any amount of slashes behaves so.
\<close>

theorem bare_scheme_is_an_endpoint:
  "parse_endpoint (str_bytes ''http://'') = Some ''http:'' \<and>
   parse_endpoint (str_bytes ''  https://// '') = Some ''https:'' \<and>
   parse_endpoint (str_bytes ''https://kgc2.example/'') = Some ''https://kgc2.example'' \<and>
   parse_endpoint (str_bytes ''ftp://kgc2.example'') = None \<and> parse_endpoint [0xFF] = None"
  by code_simp

section \<open>Witnesses\<close>

text \<open>A node that answers with its arguments, and a codec that carries two members.\<close>

definition rpc_ref :: "nat rpc_lib" where
  "rpc_ref = \<lparr>rp_state_call = (\<lambda>m args w. (Ok args, w + 1)), rp_finalized_head = (\<lambda>w. (Ok (replicate 32 5), w))\<rparr>"

definition codec_ref :: scale_codec where
  "codec_ref =
     \<lparr>enc_u128 = (\<lambda>_. aad_as_bytes TlsV1), enc_u32 = (\<lambda>_. []), enc_u32_account = (\<lambda>_ i. i),
      dec_envelope = (\<lambda>_. Ok (Some \<lparr>ce_binding_id = [], ce_capsule = [], ce_proof = [], ce_ct = []\<rparr>)),
      dec_u32 = (\<lambda>_. Ok (Some 7)), dec_bytes = (\<lambda>bs. Ok (Some bs)),
      dec_dkg_output = (\<lambda>_. Ok (Some ([1], [2]))), dec_threshold = (\<lambda>_. Ok (3, 2)),
      dec_committee = (\<lambda>_. Ok [([3], 30), ([1], 10)]),
      dec_registry = (\<lambda>_. Ok
        [([1], \<lparr>cn_endpoint = str_bytes ''http://a/'', cn_dkg_index = 10\<rparr>),
         ([3], \<lparr>cn_endpoint = str_bytes ''http://c'', cn_dkg_index = 30\<rparr>)])\<rparr>"

definition offline_ref :: "nat http_client" where
  "offline_ref =
     \<lparr>http_send = (\<lambda>m url body w. (Err ''refused'', w + 1)), json_request = (\<lambda>_. []),
      json_health = (\<lambda>_. Err ''end of input''), json_response = (\<lambda>_. Err ''end of input'')\<rparr>"

lemmas reads_ref = state_call_def abind_def amap_err_def apure_def rpc_ref_def codec_ref_def

lemma endpoints_ref: "parse_endpoint (str_bytes ''http://a/'') = Some ''http://a''"
  "parse_endpoint (str_bytes ''http://c'') = Some ''http://c''"
  by code_simp+

theorem fetched_committee_is_sound_witness:
  "\<exists>info. fetch_committee_info codec_ref rpc_ref 7 0 = (Ok info, 6) \<and>
     ci_threshold info \<le> length (ci_nodes info) \<and> sorted (map (\<lambda>n. unat (n_index n)) (ci_nodes info))"
proof -
  have "\<exists>info. fetch_committee_info codec_ref rpc_ref 7 0 = (Ok info, 6)"
    by (simp add: fetch_committee_info_def reads_ref assemble_nodes_def table_lookup_def endpoints_ref)
  then obtain info where i: "fetch_committee_info codec_ref rpc_ref 7 0 = (Ok info, 6)" by blast
  from fetched_committee_is_sound [OF i] i show ?thesis by blast
qed

theorem wrong_tag_is_refused_first_witness:
  "secrets_recover kgc_ref hex_ref ref_pick codec_ref rpc_ref offline_ref (client_ref (\<lambda>_. None) [] Direct) 9 EnvV1 0 =
     (Err (AadMismatch 9 (from_utf8_lossy (aad_as_bytes TlsV1)) (aad_text EnvV1)), 3)"
proof -
  obtain st where r: "read_secret codec_ref rpc_ref 9 0 = (Ok st, 3)" and t: "st_aad st = aad_as_bytes TlsV1"
    by (simp add: read_secret_def reads_ref)
  have s: "c_signer (client_ref (\<lambda>_. None) [] Direct) = Some key_ref" by simp
  from wrong_tag_is_refused_first [OF s r, of EnvV1 kgc_ref hex_ref ref_pick offline_ref] show ?thesis
    by (simp add: t aad_as_bytes_nonempty aad_as_bytes_inj)
qed

end
