(* ===== verification/Round_Trip.thy ===== *)
theory Round_Trip
  imports Recover
begin

text \<open>
  The whole path of a secret, across components: sealed by \<open>encrypt\<close> under the joint key of an
  epoch, recorded on the chain, read back and joined with its committee by \<open>Secrets::recover\<close>,
  and opened from the answers of the nodes. What each part guarantees is proved with it; here
  the guarantees are put together.
\<close>

section \<open>From a quorum of answers to the plaintext\<close>

text \<open>
  How the other nodes of a request may fail: they are never seen active, or every answer of
  theirs is an error or was served for another epoch. What no threshold scheme bears out is a
  node that answers for the epoch with a wrong partial: the code opens it and fails.
\<close>

definition fails_openly :: "'o kgc \<Rightarrow> 'w transport \<Rightarrow> decrypt_request \<Rightarrow> node \<Rightarrow> bool" where
  "fails_openly K T req n \<longleftrightarrow>
     \<not> seen_active K T n \<or>
     (\<forall>rq w resp w'. t_partial_decrypt T (n_endpoint n) rq w = (Ok resp, w') \<longrightarrow>
        r_served_epoch resp \<notin> {0, d_epoch req})"

definition sends_hex :: "hex_lib \<Rightarrow> 'w transport \<Rightarrow> node \<Rightarrow> bool" where
  "sends_hex H T n \<longleftrightarrow>
     (\<forall>rq w resp w'. t_partial_decrypt T (n_endpoint n) rq w = (Ok resp, w') \<longrightarrow>
        (\<exists>b. from_0x H ''partial'' (r_partial resp) = Ok b) \<and>
        (\<exists>b. from_0x H ''proof'' (r_proof resp) = Ok b))"

definition dependable :: "'o kgc \<Rightarrow> hex_lib \<Rightarrow> 'w transport \<Rightarrow> decrypt_request \<Rightarrow> bool" where
  "dependable K H T req \<longleftrightarrow>
     (\<forall>n \<in> set (d_nodes req). honest K H T req n \<and> sends_hex H T n \<or> fails_openly K T req n)"

text \<open>
  Honest nodes answer what the protocol of the committee prescribes: a quorum of answers that all
  come from distinct honest nodes of the request opens whatever was sealed to its capsule. This
  is about those nodes and the library; which nodes are asked, what they are sent, how their
  answers are decoded, which answers are used and in what order is the SDK's part.
\<close>

definition faithful :: "'o kgc \<Rightarrow> hex_lib \<Rightarrow> 'w transport \<Rightarrow> decrypt_request \<Rightarrow> bool" where
  "faithful K H T req \<longleftrightarrow>
     (\<forall>cap ps. strict_capsule K (d_capsule req) = Ok cap \<longrightarrow> quorum_of K H T req ps \<longrightarrow>
        distinct (map point ps) \<longrightarrow>
        (\<forall>p \<in> set ps. \<exists>n \<in> set (d_nodes req). honest K H T req n \<and> answered K H T req (map point ps) n p) \<longrightarrow>
        quorum_opens K (d_shared_a req) (d_secret_id req) (ucast (d_epoch req)) (d_binding_id req) cap ps)"

definition signs_always :: "'w signer \<Rightarrow> bool" where
  "signs_always S \<longleftrightarrow> (\<forall>sr w. \<exists>au w'. S sr w = (Ok au, w'))"

definition coefficients_serialize :: "'o kgc \<Rightarrow> bool" where
  "coefficients_serialize K \<longleftrightarrow> (\<forall>p ps. \<exists>l. lagrange_for K p ps = Ok l)"

lemma dependable_working:
  assumes "dependable K H T req" "signs_always S" "coefficients_serialize K"
  shows "working_for K H T S req"
  using assms
  unfolding working_for_def dependable_def fails_openly_def sends_hex_def signs_always_def
    coefficients_serialize_def
  by blast

text \<open>An answer that was used came from an honest node.\<close>

lemma used_answers_honest:
  assumes "dependable K H T req" "n \<in> set (d_nodes req)" "seen_active K T n" "answered K H T req subs n p"
  shows "honest K H T req n"
  using assms unfolding dependable_def fails_openly_def answered_def by blast

lemma opened_faithfully:
  assumes "dependable K H T req" "faithful K H T req" "opened K H T req r"
    and "strict_capsule K (d_capsule req) = Ok cap"
  obtains ps where "r = open_collected K req ps" "quorum_of K H T req ps" "distinct (map point ps)"
    "quorum_opens K (d_shared_a req) (d_secret_id req) (ucast (d_epoch req)) (d_binding_id req) cap ps"
proof -
  from assms(3) obtain ps where ps: "r = open_collected K req ps" "quorum_of K H T req ps" "distinct (map point ps)"
    "\<forall>p \<in> set ps. \<exists>n \<in> set (d_nodes req). seen_active K T n \<and> answered K H T req (map point ps) n p"
    by (auto simp: opened_def)
  from ps(4) have "\<forall>p \<in> set ps. \<exists>n \<in> set (d_nodes req). honest K H T req n \<and> answered K H T req (map point ps) n p"
    using used_answers_honest [OF assms(1)] by blast
  with assms(2,4) ps(2,3) have
    "quorum_opens K (d_shared_a req) (d_secret_id req) (ucast (d_epoch req)) (d_binding_id req) cap ps"
    unfolding faithful_def by blast
  with ps that show thesis by blast
qed

lemma sealed_capsule_decodes:
  assumes "encrypt K fill joint_pk epoch pt aad bid = Ok env" and "seal_law K"
  shows "\<exists>cap. strict_capsule K (capsule env) = Ok cap"
  using encrypt_Ok [OF assms(1)] assms(2) unfolding seal_law_def by blast

lemma opened_seal:
  assumes e: "encrypt K fill joint_pk (d_epoch req) pt (d_aad req) bid = Ok env" and l: "seal_law K"
    and env: "d_binding_id req = binding_id env" "d_capsule req = capsule env" "d_ct req = ct env"
    and d: "dependable K H T req" and f: "faithful K H T req"
    and z: "0 \<notin> n_index ` set (d_nodes req)" and t: "0 < d_threshold req"
    and r: "opened K H T req r"
  shows "r = Ok (Plaintext pt)"
proof -
  from sealed_capsule_decodes [OF e l] obtain cap where c: "strict_capsule K (capsule env) = Ok cap" ..
  obtain ps where ps: "r = open_collected K req ps" "quorum_of K H T req ps" "distinct (map point ps)"
    "quorum_opens K (d_shared_a req) (d_secret_id req) (ucast (d_epoch req)) (binding_id env) cap ps"
    using opened_faithfully [OF d f r] c env(1,2) by metis
  have "ps \<noteq> [] \<and> 0 \<notin> point ` set ps"
    using ps(2) t z unfolding quorum_of_def answered_def by force
  then have "open_secret K (d_shared_a req) (d_capsule req) (d_secret_id req) (d_epoch req)
      (d_binding_id req) (d_aad req) (d_ct req) ps = Ok (Plaintext pt)"
    using sealed_opens [OF e l c] ps(3,4) env by simp
  with ps(1) show ?thesis by (simp add: open_collected_Ok)
qed

text \<open>
  Decryption of a sealed secret: any request made of what \<open>encrypt\<close> returned, to a committee with
  enough honest nodes, ends with the plaintext.
\<close>

lemma decrypt_recovers:
  assumes "encrypt K fill joint_pk (d_epoch req) pt (d_aad req) bid = Ok env" and "seal_law K"
    and "d_binding_id req = binding_id env" "d_capsule req = capsule env" "d_ct req = ct env"
    and "dependable K H T req" and "faithful K H T req"
    and "0 \<notin> n_index ` set (d_nodes req)" and "0 < d_threshold req"
    and "signs_always S" "coefficients_serialize K" and "picker_law pick"
    and "distinct (map n_index (d_nodes req))"
    and "d_threshold req \<le> length (filter (honest K H T req) (d_nodes req))"
    and "length (filter (\<lambda>n. \<not> honest K H T req n) (d_nodes req)) < d_threshold req"
  shows "fst (decrypt K H T S pick req w) = Ok (Plaintext pt)"
proof -
  obtain r w' where d: "decrypt K H T S pick req w = (r, w')" by fastforce
  note o = honest_run_opens [OF dependable_working [OF assms(6,10,11)] assms(12-15) d]
  from opened_seal [OF assms(1-9) o] d show ?thesis by simp
qed

section \<open>What the chain holds\<close>

text \<open>
  The records of one secret and of the committee of its epoch, and a node's answers to the
  runtime calls that read them: whatever happened before, the call returns bytes that decode to
  the record.
\<close>

record chain_view =
  cv_envelope :: chain_envelope
  cv_epoch :: u32
  cv_aad :: "bytes option"
  cv_dkg_output :: "bytes \<times> bytes"
  cv_threshold :: "u64 \<times> u64"
  cv_committee :: "(bytes \<times> u64) list"
  cv_registry :: "(bytes \<times> chain_node_info) list"
  cv_commitment :: "bytes \<Rightarrow> bytes option"
  cv_head :: bytes

definition reads_as ::
  "'w rpc_lib \<Rightarrow> (bytes \<Rightarrow> str + 't) \<Rightarrow> str \<Rightarrow> bytes \<Rightarrow> 't \<Rightarrow> bool" where
  "reads_as R dec method_name args x \<longleftrightarrow>
     (\<forall>w. \<exists>bs w'. rp_state_call R method_name args w = (Ok bs, w') \<and> dec bs = Ok x)"

definition chain_holds :: "scale_codec \<Rightarrow> 'w rpc_lib \<Rightarrow> u128 \<Rightarrow> chain_view \<Rightarrow> bool" where
  "chain_holds Z R secret_id v \<longleftrightarrow>
     reads_as R (dec_envelope Z) ''SecretsApi_secret_payload'' (enc_u128 Z secret_id) (Some (cv_envelope v)) \<and>
     reads_as R (dec_u32 Z) ''SecretsApi_secret_epoch'' (enc_u128 Z secret_id) (Some (cv_epoch v)) \<and>
     reads_as R (dec_bytes Z) ''SecretsApi_secret_aad'' (enc_u128 Z secret_id) (cv_aad v) \<and>
     reads_as R (dec_dkg_output Z) ''KgcApi_dkg_output_at_epoch'' (enc_u32 Z (cv_epoch v)) (Some (cv_dkg_output v)) \<and>
     reads_as R (dec_threshold Z) ''KgcApi_threshold_params_at_epoch'' (enc_u32 Z (cv_epoch v)) (cv_threshold v) \<and>
     reads_as R (dec_committee Z) ''KgcApi_committee_at_epoch'' (enc_u32 Z (cv_epoch v)) (cv_committee v) \<and>
     reads_as R (dec_registry Z) ''KgcApi_kgc_nodes'' [] (cv_registry v) \<and>
     (\<forall>(i, dkg_index) \<in> set (cv_committee v).
        reads_as R (dec_bytes Z) ''KgcApi_share_commitment'' (enc_u32_account Z (cv_epoch v) i) (cv_commitment v i)) \<and>
     (\<forall>w. \<exists>w'. rp_finalized_head R w = (Ok (cv_head v), w'))"

text \<open>
  The nodes of the committee: its members with a usable endpoint in the registry, each with its
  commitment, in index order. Every such member has a commitment.
\<close>

definition view_endpoint :: "chain_view \<Rightarrow> bytes \<Rightarrow> str option" where
  "view_endpoint v i = Option.bind (map_of (cv_registry v) i) (\<lambda>info. parse_endpoint (cn_endpoint info))"

definition view_nodes :: "chain_view \<Rightarrow> node list" where
  "view_nodes v =
     sort_key (\<lambda>n. unat (n_index n))
       (map (\<lambda>(i, dkg_index). \<lparr>n_index = dkg_index, n_endpoint = the (view_endpoint v i),
               share_commitment = the (cv_commitment v i)\<rparr>)
         (filter (\<lambda>(i, _). view_endpoint v i \<noteq> None) (cv_committee v)))"

definition committed :: "chain_view \<Rightarrow> bool" where
  "committed v \<longleftrightarrow>
     (\<forall>(i, _) \<in> set (cv_committee v). view_endpoint v i \<noteq> None \<longrightarrow> cv_commitment v i \<noteq> None)"

text \<open>The request that recovery has to make of these records.\<close>

definition view_request :: "chain_view \<Rightarrow> u128 \<Rightarrow> aad \<Rightarrow> decrypt_request" where
  "view_request v secret_id a =
     \<lparr>d_secret_id = secret_id, d_epoch = cv_epoch v, d_binding_id = ce_binding_id (cv_envelope v),
      d_aad = aad_as_bytes a, d_capsule = ce_capsule (cv_envelope v), d_ct = ce_ct (cv_envelope v),
      d_shared_a = snd (cv_dkg_output v), d_block_hash = cv_head v,
      d_threshold = unat (snd (cv_threshold v)), d_nodes = view_nodes v\<rparr>"

lemma state_call_reads:
  "reads_as R dec method_name args x \<Longrightarrow> \<exists>w'. state_call R dec method_name args w = (Ok x, w')"
  unfolding reads_as_def state_call_def by (fastforce simp: res_simps)

lemma chain_reads:
  assumes "chain_holds Z R secret_id v"
  shows "reads_as R (dec_envelope Z) SECRET_PAYLOAD (enc_u128 Z secret_id) (Some (cv_envelope v))"
    and "reads_as R (dec_u32 Z) SECRET_EPOCH (enc_u128 Z secret_id) (Some (cv_epoch v))"
    and "reads_as R (dec_bytes Z) SECRET_AAD (enc_u128 Z secret_id) (cv_aad v)"
    and "reads_as R (dec_dkg_output Z) DKG_OUTPUT_AT_EPOCH (enc_u32 Z (cv_epoch v)) (Some (cv_dkg_output v))"
    and "reads_as R (dec_threshold Z) THRESHOLD_AT_EPOCH (enc_u32 Z (cv_epoch v)) (cv_threshold v)"
    and "reads_as R (dec_committee Z) COMMITTEE_AT_EPOCH (enc_u32 Z (cv_epoch v)) (cv_committee v)"
    and "reads_as R (dec_registry Z) KGC_NODES [] (cv_registry v)"
  using assms
  by (simp_all add: chain_holds_def SECRET_PAYLOAD_def SECRET_EPOCH_def SECRET_AAD_def DKG_OUTPUT_AT_EPOCH_def
      THRESHOLD_AT_EPOCH_def COMMITTEE_AT_EPOCH_def KGC_NODES_def)

lemma read_secret_holds:
  assumes "chain_holds Z R secret_id v"
  shows "\<exists>w'. read_secret Z R secret_id w =
    (Ok \<lparr>st_envelope = \<lparr>binding_id = ce_binding_id (cv_envelope v), capsule = ce_capsule (cv_envelope v),
            proof_blob = ce_proof (cv_envelope v), ct = ce_ct (cv_envelope v)\<rparr>,
         st_epoch = cv_epoch v, st_aad = (case cv_aad v of Some bs \<Rightarrow> bs | None \<Rightarrow> [])\<rparr>, w')"
proof -
  note reads = chain_reads [OF assms, THEN state_call_reads]
  obtain w1 where 1: "state_call R (dec_envelope Z) SECRET_PAYLOAD (enc_u128 Z secret_id) w = (Ok (Some (cv_envelope v)), w1)"
    using reads(1) by blast
  obtain w2 where 2: "state_call R (dec_u32 Z) SECRET_EPOCH (enc_u128 Z secret_id) w1 = (Ok (Some (cv_epoch v)), w2)"
    using reads(2) by blast
  obtain w3 where 3: "state_call R (dec_bytes Z) SECRET_AAD (enc_u128 Z secret_id) w2 = (Ok (cv_aad v), w3)"
    using reads(3) by blast
  from 1 2 3 show ?thesis by (simp add: read_secret_def abind_def apure_def)
qed

lemma read_commitments_holds:
  assumes "\<forall>(i, d) \<in> set ms. reads_as R (dec_bytes Z) SHARE_COMMITMENT (enc_u32_account Z epoch i) (g i)"
  shows "\<exists>w'. read_commitments Z R epoch ms acc w =
    (Ok (acc @ concat (map (\<lambda>(i, d). case g i of Some g_j \<Rightarrow> [(i, g_j)] | None \<Rightarrow> []) ms)), w')"
  using assms
proof (induction ms arbitrary: acc w)
  case Nil
  then show ?case by (simp add: apure_def)
next
  case (Cons m ms)
  obtain i d where m: "m = (i, d)" by (cases m)
  with Cons.prems obtain w1 where
    "state_call R (dec_bytes Z) SHARE_COMMITMENT (enc_u32_account Z epoch i) w = (Ok (g i), w1)"
    using state_call_reads by fastforce
  moreover from Cons.prems have "\<forall>(i, d) \<in> set ms. reads_as R (dec_bytes Z) SHARE_COMMITMENT (enc_u32_account Z epoch i) (g i)"
    by simp
  note Cons.IH [OF this, of "case g i of Some g_j \<Rightarrow> acc @ [(i, g_j)] | None \<Rightarrow> acc" w1]
  ultimately show ?case by (cases "g i") (simp_all add: m abind_def)
qed

lemma table_lookup_commitments:
  "table_lookup (concat (map (\<lambda>(i, d). case g i of Some g_j \<Rightarrow> [(i, g_j)] | None \<Rightarrow> []) ms)) i =
     (if i \<in> fst ` set ms then g i else None)"
proof (induction ms)
  case Nil
  then show ?case by (simp add: table_lookup_def)
next
  case (Cons m ms)
  obtain k d where m: "m = (k, d)" by (cases m)
  show ?case
  proof (cases "g k")
    case None
    then show ?thesis using Cons.IH by (auto simp: m)
  next
    case (Some g_k)
    then show ?thesis using Cons.IH by (auto simp: m table_lookup_def)
  qed
qed

lemma table_lookup_registry:
  "table_lookup (map (\<lambda>(i, info). (i, cn_endpoint info)) registry) i = map_option cn_endpoint (map_of registry i)"
  by (induction registry) (auto simp: table_lookup_def)

lemma view_member_endpoint:
  "member_endpoint (map (\<lambda>(i, info). (i, cn_endpoint info)) (cv_registry v)) m = view_endpoint v (fst m)"
  by (cases "map_of (cv_registry v) (fst m)")
    (simp_all add: member_endpoint_def view_endpoint_def table_lookup_registry)

lemma assemble_view:
  assumes "committed v"
  shows "assemble_nodes (cv_committee v) (map (\<lambda>(i, info). (i, cn_endpoint info)) (cv_registry v))
    (concat (map (\<lambda>(i, d). case cv_commitment v i of Some g_j \<Rightarrow> [(i, g_j)] | None \<Rightarrow> []) (cv_committee v)))
    epoch = Ok (view_nodes v)"
proof -
  let ?eps = "map (\<lambda>(i, info). (i, cn_endpoint info)) (cv_registry v)"
  let ?gs = "concat (map (\<lambda>(i, d). case cv_commitment v i of Some g_j \<Rightarrow> [(i, g_j)] | None \<Rightarrow> []) (cv_committee v))"
  have g: "table_lookup ?gs (fst m) = cv_commitment v (fst m)" if "m \<in> set (cv_committee v)" for m
    using that by (simp add: table_lookup_commitments)
  have "find (\<lambda>m. member_endpoint ?eps m \<noteq> None \<and> table_lookup ?gs (fst m) = None) (cv_committee v) = None"
    using assms g unfolding find_None_iff committed_def view_member_endpoint by fastforce
  moreover have "List.map_filter (member_node ?eps ?gs) ms =
      map (\<lambda>(i, dkg_index). \<lparr>n_index = dkg_index, n_endpoint = the (view_endpoint v i),
               share_commitment = the (cv_commitment v i)\<rparr>)
         (filter (\<lambda>(i, _). view_endpoint v i \<noteq> None) ms)" if "set ms \<subseteq> set (cv_committee v)" for ms
    using that
  proof (induction ms)
    case (Cons m ms)
    then have "view_endpoint v (fst m) \<noteq> None \<longrightarrow> cv_commitment v (fst m) \<noteq> None"
      using assms unfolding committed_def by fastforce
    with Cons g [of m] show ?case
      by (cases m) (auto simp: map_filter_simps member_node_def view_member_endpoint split: option.splits)
  qed (simp add: map_filter_simps)
  from this [OF order_refl] calculation show ?thesis
    by (simp add: assemble_nodes_def assemble_loop_spec view_nodes_def)
qed

lemma fetch_committee_holds:
  assumes h: "chain_holds Z R secret_id v" and c: "committed v"
    and t: "0 < unat (snd (cv_threshold v))" "unat (snd (cv_threshold v)) \<le> length (view_nodes v)"
  shows "\<exists>w'. fetch_committee_info Z R (cv_epoch v) w =
    (Ok \<lparr>ci_epoch = cv_epoch v, ci_threshold = unat (snd (cv_threshold v)), ci_shared_a = snd (cv_dkg_output v),
         ci_nodes = view_nodes v, ci_block_hash = cv_head v\<rparr>, w')"
proof -
  note reads = chain_reads [OF h, THEN state_call_reads]
  obtain w1 where 1: "state_call R (dec_dkg_output Z) DKG_OUTPUT_AT_EPOCH (enc_u32 Z (cv_epoch v)) w =
      (Ok (Some (cv_dkg_output v)), w1)"
    using reads(4) by blast
  obtain w2 where 2: "state_call R (dec_threshold Z) THRESHOLD_AT_EPOCH (enc_u32 Z (cv_epoch v)) w1 = (Ok (cv_threshold v), w2)"
    using reads(5) by blast
  obtain w3 where 3: "state_call R (dec_committee Z) COMMITTEE_AT_EPOCH (enc_u32 Z (cv_epoch v)) w2 = (Ok (cv_committee v), w3)"
    using reads(6) by blast
  obtain w4 where 4: "state_call R (dec_registry Z) KGC_NODES [] w3 = (Ok (cv_registry v), w4)"
    using reads(7) by blast
  have "\<forall>(i, d) \<in> set (cv_committee v).
      reads_as R (dec_bytes Z) SHARE_COMMITMENT (enc_u32_account Z (cv_epoch v) i) (cv_commitment v i)"
    using h unfolding chain_holds_def SHARE_COMMITMENT_def by blast
  from read_commitments_holds [OF this, of "[]" w4] obtain w5 where
    5: "read_commitments Z R (cv_epoch v) (cv_committee v) [] w4 =
      (Ok (concat (map (\<lambda>(i, d). case cv_commitment v i of Some g_j \<Rightarrow> [(i, g_j)] | None \<Rightarrow> []) (cv_committee v))), w5)"
    by auto
  obtain w6 where 6: "rp_finalized_head R w5 = (Ok (cv_head v), w6)"
    using h unfolding chain_holds_def by blast
  have "cv_committee v \<noteq> []" using t by (auto simp: view_nodes_def)
  with 1 2 3 4 5 6 assemble_view [OF c] t show ?thesis
    by (simp add: fetch_committee_info_def abind_def apure_def amap_err_def)
qed

section \<open>Property\<close>

text \<open>
  C4. What was sealed is recovered: when the chain's record of a secret holds what \<open>encrypt\<close>
  returned, with the tag it was sealed under, an empty tag or none, and the members of its
  epoch's committee that have a usable endpoint and a commitment include at least a threshold of
  honest nodes and fewer than a threshold of others, then \<open>Secrets::recover\<close> reads all of it and
  returns the plaintext. That the chain holds the records is said of the raw answers of the RPC
  node, not of the SDK's reads. Of the honest nodes it is assumed that they are active, answer
  for the epoch with hex, and that a quorum of their own answers opens; of the others only that
  they fail openly: never active, or answering with errors or for other epochs, at any time and
  in any order. A node that answers for the epoch with a wrong partial is not covered: the code
  fails on it.
\<close>

theorem stored_secret_is_recovered:
  assumes "encrypt K fill joint_pk epoch pt (aad_as_bytes a) bid = Ok env" and "seal_law K"
    and "c_signer c = Some s" and "signs_always (key_auth K H s)" and "coefficients_serialize K"
    and "picker_law pick"
    and "chain_holds Z R secret_id v" and "committed v"
    and "cv_envelope v = \<lparr>ce_binding_id = binding_id env, ce_capsule = capsule env, ce_proof = proof_blob env,
      ce_ct = ct env\<rparr>"
    and "cv_epoch v = epoch" and "cv_aad v \<in> {None, Some [], Some (aad_as_bytes a)}"
    and "req = view_request v secret_id a" and "T = reqwest_transport C"
    and "dependable K H T req" and "faithful K H T req"
    and "distinct (map n_index (view_nodes v))" "0 \<notin> n_index ` set (view_nodes v)" "0 < unat (snd (cv_threshold v))"
    and "unat (snd (cv_threshold v)) \<le> length (filter (honest K H T req) (view_nodes v))"
    and "length (filter (\<lambda>n. \<not> honest K H T req n) (view_nodes v)) < unat (snd (cv_threshold v))"
  shows "fst (secrets_recover K H pick Z R C c secret_id a w) = Ok (Plaintext pt)"
proof -
  have "\<lparr>binding_id = binding_id env, capsule = capsule env, proof_blob = proof_blob env, ct = ct env\<rparr> = env"
    by (cases env) simp
  with read_secret_holds [OF assms(7), of w] assms(9) obtain w1 where r: "read_secret Z R secret_id w =
      (Ok \<lparr>st_envelope = env, st_epoch = cv_epoch v,
           st_aad = (case cv_aad v of Some bs \<Rightarrow> bs | None \<Rightarrow> [])\<rparr>, w1)"
    by auto
  have "unat (snd (cv_threshold v)) \<le> length (view_nodes v)"
    using assms(19) length_filter_le le_trans by blast
  from fetch_committee_holds [OF assms(7,8,18) this] obtain w2 where f: "fetch_committee_info Z R (cv_epoch v) w1 =
      (Ok \<lparr>ci_epoch = cv_epoch v, ci_threshold = unat (snd (cv_threshold v)),
           ci_shared_a = snd (cv_dkg_output v), ci_nodes = view_nodes v, ci_block_hash = cv_head v\<rparr>, w2)"
    by blast
  have "fst (decrypt K H T (key_auth K H s) pick req w2) = Ok (Plaintext pt)"
    using assms unfolding assms(12)
    by (intro decrypt_recovers [where env = env]) (simp_all add: view_request_def)
  moreover have "check_aad secret_id (case cv_aad v of Some bs \<Rightarrow> bs | None \<Rightarrow> []) a = Ok ()"
    using assms(11) by (auto simp: check_aad_def)
  ultimately show ?thesis
    using r f assms(3,9,12,13)
    by (simp add: secrets_recover_def abind_def apure_def require_signer_def recover_secret_def
        recovery_request_def view_request_def)
qed

section \<open>Witness\<close>

text \<open>
  A chain whose record is what the reference library seals, and three nodes behind a client: two
  answer every probe and every request, the third refuses every connection.
\<close>

definition sealed_ref :: encrypted_secret where
  "sealed_ref =
     \<lparr>binding_id = replicate 32 5, capsule = [1, 2], proof_blob = 0 # replicate 32 5,
      ct = replicate 12 0 @ [3] @ [7, 8] @ aad_as_bytes EnvV1\<rparr>"

definition view_ref :: chain_view where
  "view_ref =
     \<lparr>cv_envelope = \<lparr>ce_binding_id = binding_id sealed_ref, ce_capsule = capsule sealed_ref,
        ce_proof = proof_blob sealed_ref, ce_ct = ct sealed_ref\<rparr>,
      cv_epoch = 3, cv_aad = Some (aad_as_bytes EnvV1), cv_dkg_output = ([1], [2]), cv_threshold = (3, 2),
      cv_committee = [([3], 30), ([1], 10), ([2], 20)],
      cv_registry =
        [([1], \<lparr>cn_endpoint = str_bytes ''http://a/'', cn_dkg_index = 10\<rparr>),
         ([2], \<lparr>cn_endpoint = str_bytes ''http://b'', cn_dkg_index = 20\<rparr>),
         ([3], \<lparr>cn_endpoint = str_bytes ''http://c'', cn_dkg_index = 30\<rparr>)],
      cv_commitment = Some, cv_head = replicate 32 5\<rparr>"

definition stored_ref :: scale_codec where
  "stored_ref = codec_ref
     \<lparr>enc_u128 := (\<lambda>_. aad_as_bytes EnvV1), dec_u32 := (\<lambda>_. Ok (Some 3)),
      dec_envelope := (\<lambda>_. Ok (Some (cv_envelope view_ref))),
      dec_committee := (\<lambda>_. Ok (cv_committee view_ref)),
      dec_registry := (\<lambda>_. Ok (cv_registry view_ref))\<rparr>"

definition online_ref :: "nat http_client" where
  "online_ref =
     \<lparr>http_send = (\<lambda>m url body w.
        (if starts_with ''http://b'' url then Err ''refused''
         else Ok \<lparr>status_error = None, content_length = None, chunks = []\<rparr>, w + 1)),
      json_request = (\<lambda>_. []),
      json_health = (\<lambda>_. Ok \<lparr>h_status = ''active'', h_epoch = 3, h_protocol = 1\<rparr>),
      json_response = (\<lambda>_. Ok \<lparr>r_partial = ''0x04'', r_proof = ''0x04'', r_served_epoch = 3\<rparr>)\<rparr>"

lemma sealed_ref: "encrypt kgc_ref (\<lambda>n. replicate n 5) [1, 2] 3 [7, 8] (aad_as_bytes EnvV1) None = Ok sealed_ref"
proof -
  have "length (aad_as_bytes EnvV1) = 24" by code_simp
  then show ?thesis
    by (simp add: encrypt_def kgc_ref_def bound_def DEFAULT_BINDING_ID_LEN_def Let_def sealed_ref_def)
qed

lemma seal_law_ref: "seal_law kgc_ref"
  by (auto simp: seal_law_def kgc_ref_def)

lemma online_calls:
  "ep \<in> {''http://a'', ''http://c''} \<Longrightarrow> t_health (reqwest_transport online_ref) ep w =
     (Ok \<lparr>h_status = ''active'', h_epoch = 3, h_protocol = 1\<rparr>, w + 1)"
  "ep \<in> {''http://a'', ''http://c''} \<Longrightarrow> t_partial_decrypt (reqwest_transport online_ref) ep rq w =
     (Ok \<lparr>r_partial = ''0x04'', r_proof = ''0x04'', r_served_epoch = 3\<rparr>, w + 1)"
  "t_health (reqwest_transport online_ref) ''http://b'' w = (Err (Transport ''http://b'' ''refused''), w + 1)"
  by (auto simp: reqwest_transport_def http_call_def read_json_def online_ref_def trim_end_matches_def starts_with_def)

lemma online_signs: "signs_always (key_auth kgc_ref hex_ref key_ref)"
  by (simp add: signs_always_def key_auth_def key_ref_def)

lemma ref_serializes: "coefficients_serialize kgc_ref"
  by (simp add: coefficients_serialize_def lagrange_for_def ref_library)

lemma online_honest:
  "d_epoch req = 3 \<Longrightarrow> n_endpoint n \<in> {''http://a'', ''http://c''} \<Longrightarrow>
     honest kgc_ref hex_ref (reqwest_transport online_ref) req n \<and> sends_hex hex_ref (reqwest_transport online_ref) n"
  by (simp add: honest_def sends_hex_def online_calls speaks_our_protocol_def ref_library is_active_def ref_hex)

lemma offline_fails:
  "n_endpoint n = ''http://b'' \<Longrightarrow> \<not> honest kgc_ref hex_ref (reqwest_transport online_ref) req n \<and>
     fails_openly kgc_ref (reqwest_transport online_ref) req n"
  by (simp add: honest_def fails_openly_def seen_active_def online_calls)

lemma online_dependable:
  assumes "d_epoch req = 3" "n_endpoint ` set (d_nodes req) \<subseteq> {''http://a'', ''http://b'', ''http://c''}"
  shows "dependable kgc_ref hex_ref (reqwest_transport online_ref) req"
  unfolding dependable_def
proof
  fix n assume "n \<in> set (d_nodes req)"
  then have "n_endpoint n \<in> {''http://a'', ''http://c''} \<or> n_endpoint n = ''http://b''" using assms(2) by blast
  then show "honest kgc_ref hex_ref (reqwest_transport online_ref) req n \<and>
      sends_hex hex_ref (reqwest_transport online_ref) n \<or>
      fails_openly kgc_ref (reqwest_transport online_ref) req n"
    using online_honest [OF assms(1)] offline_fails by blast
qed

lemma ref_quorum_opens:
  assumes "2 \<le> length ps" and "length sa \<le> MAX_DECODE_BYTES"
    and "\<forall>p \<in> set ps. partial p = [4] \<and> p_proof p = [4] \<and> length (commitment p) \<le> MAX_DECODE_BYTES"
  shows "quorum_opens kgc_ref sa i ep bid cap ps"
proof -
  let ?es = "map (\<lambda>p. \<lparr>e_partial = [4], e_proof = [4], e_commitment = commitment p,
    e_lambda = lagrange_coefficient kgc_ref (point p) (map point ps)\<rparr>) ps"
  have "list_all2 (\<lambda>p e. decode_partial kgc_ref (map point ps) p = Ok e) ps ?es"
    using assms(3) by (auto simp: list_all2_conv_all_nth decode_partial_Ok kgc_ref_def MAX_DECODE_BYTES_def)
  then show ?thesis
    using assms(1,2) unfolding quorum_opens_def
    by (intro conjI exI [of _ sa] exI [of _ ?es]) (auto simp: kgc_ref_def)
qed

lemma online_faithful:
  assumes "d_epoch req = 3" "d_threshold req = 2" "length (d_shared_a req) \<le> MAX_DECODE_BYTES"
    and "n_endpoint ` set (d_nodes req) \<subseteq> {''http://a'', ''http://b'', ''http://c''}"
    and "\<forall>n \<in> set (d_nodes req). length (share_commitment n) \<le> MAX_DECODE_BYTES"
  shows "faithful kgc_ref hex_ref (reqwest_transport online_ref) req"
  unfolding faithful_def
proof (intro allI impI)
  let ?T = "reqwest_transport online_ref"
  fix cap ps
  assume q: "quorum_of kgc_ref hex_ref ?T req ps"
    and h: "\<forall>p \<in> set ps. \<exists>n \<in> set (d_nodes req). honest kgc_ref hex_ref ?T req n \<and>
      answered kgc_ref hex_ref ?T req (map point ps) n p"
  have "partial p = [4] \<and> p_proof p = [4] \<and> length (commitment p) \<le> MAX_DECODE_BYTES" if "p \<in> set ps" for p
  proof -
    from h that obtain n where n: "n \<in> set (d_nodes req)" "honest kgc_ref hex_ref ?T req n"
      "answered kgc_ref hex_ref ?T req (map point ps) n p" by blast
    then have "n_endpoint n \<in> {''http://a'', ''http://c''}" using assms(4) offline_fails by blast
    with n assms(5) show ?thesis by (auto simp: answered_def online_calls ref_hex)
  qed
  with q assms(2,3) show "quorum_opens kgc_ref (d_shared_a req) (d_secret_id req) (ucast (d_epoch req))
      (d_binding_id req) cap ps"
    by (intro ref_quorum_opens) (simp_all add: quorum_of_def)
qed

lemma view_ref_endpoints:
  "view_endpoint view_ref [1] = Some ''http://a''" "view_endpoint view_ref [2] = Some ''http://b''"
  "view_endpoint view_ref [3] = Some ''http://c''"
  by code_simp+

lemma view_ref_nodes: "view_nodes view_ref =
   [\<lparr>n_index = 10, n_endpoint = ''http://a'', share_commitment = [1]\<rparr>,
    \<lparr>n_index = 20, n_endpoint = ''http://b'', share_commitment = [2]\<rparr>,
    \<lparr>n_index = 30, n_endpoint = ''http://c'', share_commitment = [3]\<rparr>]"
proof -
  have "cv_committee view_ref = [([3], 30), ([1], 10), ([2], 20)]" "cv_commitment view_ref = Some"
    by (simp_all add: view_ref_def)
  then show ?thesis by (simp add: view_nodes_def view_ref_endpoints)
qed

lemma view_ref_held: "chain_holds stored_ref rpc_ref 9 view_ref"
  by (simp add: chain_holds_def reads_as_def stored_ref_def codec_ref_def rpc_ref_def)
    (simp add: view_ref_def)

theorem stored_secret_is_recovered_witness:
  "fst (secrets_recover kgc_ref hex_ref ref_pick stored_ref rpc_ref online_ref
     (client_ref (\<lambda>_. None) [] Direct) 9 EnvV1 0) = Ok (Plaintext [7, 8])"
proof -
  let ?T = "reqwest_transport online_ref" and ?req = "view_request view_ref 9 EnvV1"
  have q: "d_epoch ?req = 3" "d_threshold ?req = 2" "d_shared_a ?req = [2]" "d_nodes ?req = view_nodes view_ref"
    by (simp_all add: view_request_def view_ref_def)
  have e: "n_endpoint ` set (d_nodes ?req) \<subseteq> {''http://a'', ''http://b'', ''http://c''}"
    by (simp add: q view_ref_nodes)
  have f: "faithful kgc_ref hex_ref ?T ?req"
    using online_faithful [OF q(1,2) _ e] by (simp add: q view_ref_nodes MAX_DECODE_BYTES_def)
  have s: "c_signer (client_ref (\<lambda>_. None) [] Direct) = Some key_ref" by simp
  have c: "committed view_ref" by (simp add: committed_def view_ref_def)
  have h: "map (honest kgc_ref hex_ref ?T ?req) (view_nodes view_ref) = [True, False, True]"
    using online_honest [OF q(1)] offline_fails by (simp add: view_ref_nodes)
  have v: "cv_envelope view_ref = \<lparr>ce_binding_id = binding_id sealed_ref, ce_capsule = capsule sealed_ref,
      ce_proof = proof_blob sealed_ref, ce_ct = ct sealed_ref\<rparr>" "cv_epoch view_ref = 3"
    "cv_aad view_ref \<in> {None, Some [], Some (aad_as_bytes EnvV1)}" "unat (snd (cv_threshold view_ref)) = 2"
    by (simp_all add: view_ref_def)
  show ?thesis
    by (rule stored_secret_is_recovered [OF sealed_ref seal_law_ref s online_signs ref_serializes ref_picker_law
        view_ref_held c v(1-3) refl refl online_dependable [OF q(1) e] f])
      (use h in \<open>simp_all add: view_ref_nodes v(4)\<close>)
qed

end
