(* ===== verification/E2e_Harness.thy ===== *)
theory E2e_Harness
  imports Round_Trip
begin

text \<open>
  \<open>examples/rust-e2e/src/main.rs\<close>: the live harness that seals a secret, stores it with a paid
  extrinsic, reads it back, joins the committee of its epoch by itself and checks that the
  threshold decrypt returns the bytes it sealed. It spends real funds, so it has a guard of its
  own. Its lines on the terminal are not modelled; everything it reads, submits and decides is.
\<close>

section \<open>The libraries of the harness\<close>

text \<open>
  The chain through \<open>subxt\<close> and its legacy RPC methods: connecting (the RPC client, then the
  online client), the best-effort balance line, a state call with optional arguments, and a
  submission that is watched until it is finalized and yields its events. Errors are rendered.
\<close>

record ('w, 'v, 'kp) harness_chain =
  hc_rpc :: "str \<Rightarrow> 'w \<Rightarrow> (str + unit) \<times> 'w"
  hc_online :: "'w \<Rightarrow> (str + unit) \<times> 'w"
  hc_balance :: "bytes \<Rightarrow> 'w \<Rightarrow> 'w"
  hc_state_call :: "str \<Rightarrow> bytes option \<Rightarrow> 'w \<Rightarrow> (str + bytes) \<times> 'w"
  hc_submit :: "'v call_payload \<Rightarrow> 'kp \<Rightarrow> 'w \<Rightarrow> (str + (str + event_details) list) \<times> 'w"
  hc_finalized_head :: "'w \<Rightarrow> (str + bytes) \<times> 'w"

text \<open>The SCALE decoders beyond those of the SDK, and \<open>Keypair::from_uri\<close> of a secret URI.\<close>

record 'kp harness_lib =
  hl_dec_epoch :: "bytes \<Rightarrow> str + u32"
  hl_dec_u128 :: "bytes \<Rightarrow> str + u128"
  hl_keypair :: "str \<Rightarrow> str + 'kp"

datatype harness_error = Message str | Library str | FromCore core_error | FromSdk sdk_error

definition DEFAULT_SECRET :: str where
  "DEFAULT_SECRET = ''API_KEY=swordfish'' @ [CHR 0x0A] @ ''DATABASE_URL=postgres://prod''"

definition RT_JOINT_PK :: str where "RT_JOINT_PK = ''KgcApi_joint_pk''"
definition RT_DKG_EPOCH :: str where "RT_DKG_EPOCH = ''KgcApi_dkg_epoch''"
definition RT_KGC_NODES :: str where "RT_KGC_NODES = ''KgcApi_kgc_nodes''"
definition RT_DKG_OUTPUT_AT_EPOCH :: str where "RT_DKG_OUTPUT_AT_EPOCH = ''KgcApi_dkg_output_at_epoch''"
definition RT_COMMITTEE_AT_EPOCH :: str where "RT_COMMITTEE_AT_EPOCH = ''KgcApi_committee_at_epoch''"
definition RT_THRESHOLD :: str where "RT_THRESHOLD = ''KgcApi_threshold_params_at_epoch''"
definition RT_SHARE_COMMITMENT :: str where "RT_SHARE_COMMITMENT = ''KgcApi_share_commitment''"
definition RT_SECRET_PAYLOAD :: str where "RT_SECRET_PAYLOAD = ''SecretsApi_secret_payload''"
definition RT_SECRET_EPOCH :: str where "RT_SECRET_EPOCH = ''SecretsApi_secret_epoch''"

section \<open>Settings\<close>

definition guard_mainnet :: "(str \<Rightarrow> str option) \<Rightarrow> str \<Rightarrow> harness_error + unit" where
  "guard_mainnet env rpc_url =
     (let network = (case env ''MATTER_NETWORK'' of Some v \<Rightarrow> v | None \<Rightarrow> ''testnet'') in
      if \<not> (network = ''mainnet'' \<or> has_substr rpc_url ''mainnet'') then Ok ()
      else if env ''MATTER_CONFIRM'' = Some ''yes'' then Ok ()
      else Err (Message (''refusing to run a gas-paying harness against mainnet ('' @ rpc_url @
             '') without explicit confirmation: set MATTER_CONFIRM=yes. This spends real funds.'')))"

definition harness_network :: "(str \<Rightarrow> str option) \<Rightarrow> harness_error + network" where
  "harness_network env =
     (case env ''MATTER_NETWORK'' of
        None \<Rightarrow> Ok Testnet
      | Some v \<Rightarrow>
          if v = ''mainnet'' then Ok Mainnet
          else if v = ''testnet'' then Ok Testnet
          else Err (Message (''MATTER_NETWORK must be testnet or mainnet, got '' @ v)))"

text \<open>The URL, the seed text and the secret; the named networks have a default URL.\<close>

definition harness_settings :: "(str \<Rightarrow> str option) \<Rightarrow> harness_error + str \<times> str \<times> str" where
  "harness_settings env =
     rbind (harness_network env) (\<lambda>network.
     let rpc_url = (case env ''MATTER_RPC_URL'' of
                      Some u \<Rightarrow> u | None \<Rightarrow> the (default_rpc_url network)) in
     rbind (guard_mainnet env rpc_url) (\<lambda>_.
     rbind (ok_or (Message ''set MATTER_SIGNER_SEED or TEST_KEY (0x-hex seed or mnemonic / SURI)'')
              (case env ''MATTER_SIGNER_SEED'' of Some v \<Rightarrow> Some v | None \<Rightarrow> env ''TEST_KEY'')) (\<lambda>seed_str.
     Ok (rpc_url, seed_str,
         case env ''MATTER_SECRET'' of Some v \<Rightarrow> v | None \<Rightarrow> DEFAULT_SECRET))))"

section \<open>Reads\<close>

definition harness_call ::
  "('w, 'v, 'kp) harness_chain \<Rightarrow> str \<Rightarrow> bytes option \<Rightarrow> 'w \<Rightarrow> (harness_error + bytes) \<times> 'w" where
  "harness_call X method_name args = amap_err Library (hc_state_call X method_name args)"

definition harness_decode :: "(bytes \<Rightarrow> str + 't) \<Rightarrow> bytes \<Rightarrow> harness_error + 't" where
  "harness_decode dec bs = map_err Library (dec bs)"

definition decode_opt_bytes :: "scale_codec \<Rightarrow> bytes \<Rightarrow> bytes option" where
  "decode_opt_bytes Z bs = (case dec_bytes Z bs of Inr r \<Rightarrow> r | Inl _ \<Rightarrow> None)"

fun secret_id_from_events :: "'kp harness_lib \<Rightarrow> (str + event_details) list \<Rightarrow> harness_error + u128" where
  "secret_id_from_events Y [] =
     Err (Message ''storeSecret landed but emitted no Secrets.SecretStored event'')"
| "secret_id_from_events Y (Inl e # evs) = Err (Library e)"
| "secret_id_from_events Y (Inr ev # evs) =
     (if ev_pallet ev = ''Secrets'' \<and> ev_variant ev = ''SecretStored''
      then map_err Library (hl_dec_u128 Y (ev_field_bytes ev))
      else secret_id_from_events Y evs)"

definition normalize_endpoint :: "str \<Rightarrow> str" where
  "normalize_endpoint raw =
     (let s = trim raw;
          with_scheme = (if has_substr s ''://'' then s else ''https://'' @ s) in
      trim_end_matches (CHR ''/'') with_scheme)"

section \<open>Store\<close>

text \<open>Seal under the chain's current joint key and publish; the id is read off the events.\<close>

definition harness_store ::
  "'o kgc \<Rightarrow> (nat \<Rightarrow> bytes) \<Rightarrow> 'v scale_lib \<Rightarrow> scale_codec \<Rightarrow> 'kp harness_lib
     \<Rightarrow> ('w, 'v, 'kp) harness_chain \<Rightarrow> 'kp \<Rightarrow> str \<Rightarrow> 'w \<Rightarrow> (harness_error + u128) \<times> 'w" where
  "harness_store K fill V Z Y X keypair secret =
     abind (harness_call X RT_JOINT_PK None) (\<lambda>bs.
     abind (apure (ok_or (Message ''KGC DKG not finalised on chain (joint_pk is None)'')
                     (decode_opt_bytes Z bs))) (\<lambda>joint_pk.
     abind (harness_call X RT_DKG_EPOCH None) (\<lambda>bs.
     abind (apure (harness_decode (hl_dec_epoch Y) bs)) (\<lambda>epoch.
     abind (apure (map_err FromCore
              (encrypt K fill joint_pk epoch (str_bytes secret) (aad_as_bytes EnvV1) None))) (\<lambda>env.
     abind (amap_err Library (hc_submit X (dynamic_tx ''Secrets'' ''store_secret''
              [envelope_value V env, v_u128 V (ucast epoch), from_bytes V (str_bytes ''matter-sdk e2e''),
               from_bytes V (aad_as_bytes EnvV1)]) keypair)) (\<lambda>events.
     apure (secret_id_from_events Y events)))))))"

section \<open>Read back and decrypt\<close>

fun harness_nodes ::
  "scale_codec \<Rightarrow> ('w, 'v, 'kp) harness_chain \<Rightarrow> u32 \<Rightarrow> (bytes \<times> chain_node_info) list
     \<Rightarrow> (bytes \<times> u64) list \<Rightarrow> node list \<Rightarrow> 'w \<Rightarrow> (harness_error + node list) \<times> 'w" where
  "harness_nodes Z X epoch registry [] acc = apure (Ok acc)"
| "harness_nodes Z X epoch registry ((acct, dkg_index) # rest) acc =
     (case find (\<lambda>(i, _). i = acct) registry of
        None \<Rightarrow> harness_nodes Z X epoch registry rest acc
      | Some (_, info) \<Rightarrow>
          abind (harness_call X RT_SHARE_COMMITMENT (Some (enc_u32_account Z epoch acct))) (\<lambda>bs.
          abind (apure (ok_or (Message ''missing share commitment for a committee member'')
                          (decode_opt_bytes Z bs))) (\<lambda>g_j.
          harness_nodes Z X epoch registry rest
            (acc @ [\<lparr>n_index = dkg_index,
                     n_endpoint = normalize_endpoint (from_utf8_lossy (cn_endpoint info)),
                     share_commitment = g_j\<rparr>]))))"

text \<open>The request for the stored secret, from the chain's records of the secret and its epoch.\<close>

definition harness_request ::
  "scale_codec \<Rightarrow> ('w, 'v, 'kp) harness_chain \<Rightarrow> u128 \<Rightarrow> 'w
     \<Rightarrow> (harness_error + decrypt_request) \<times> 'w" where
  "harness_request Z X secret_id =
     abind (harness_call X RT_SECRET_EPOCH (Some (enc_u128 Z secret_id))) (\<lambda>bs.
     abind (apure (harness_decode (dec_u32 Z) bs)) (\<lambda>found.
     abind (apure (ok_or (Message ''stored secret has no epoch'') found)) (\<lambda>epoch.
     abind (harness_call X RT_SECRET_PAYLOAD (Some (enc_u128 Z secret_id))) (\<lambda>bs.
     abind (apure (harness_decode (dec_envelope Z) bs)) (\<lambda>found.
     abind (apure (ok_or (Message ''stored secret not found on chain'') found)) (\<lambda>wire.
     abind (harness_call X RT_DKG_OUTPUT_AT_EPOCH (Some (enc_u32 Z epoch))) (\<lambda>bs.
     abind (apure (harness_decode (dec_dkg_output Z) bs)) (\<lambda>found.
     abind (apure (ok_or (Message ''no DKG output at the secret's epoch'') found)) (\<lambda>output.
     abind (harness_call X RT_THRESHOLD (Some (enc_u32 Z epoch))) (\<lambda>bs.
     abind (apure (harness_decode (dec_threshold Z) bs)) (\<lambda>params.
     abind (harness_call X RT_COMMITTEE_AT_EPOCH (Some (enc_u32 Z epoch))) (\<lambda>bs.
     abind (apure (harness_decode (dec_committee Z) bs)) (\<lambda>committee.
     abind (harness_call X RT_KGC_NODES None) (\<lambda>bs.
     abind (apure (harness_decode (dec_registry Z) bs)) (\<lambda>registry.
     abind (harness_nodes Z X epoch registry committee []) (\<lambda>nodes.
     abind (amap_err Library (hc_finalized_head X)) (\<lambda>head.
     apure (Ok \<lparr>d_secret_id = secret_id, d_epoch = epoch, d_binding_id = ce_binding_id wire,
                d_aad = aad_as_bytes EnvV1, d_capsule = ce_capsule wire, d_ct = ce_ct wire,
                d_shared_a = snd output, d_block_hash = head, d_threshold = unat (snd params),
                d_nodes = sort_key (\<lambda>n. unat (n_index n)) nodes\<rparr>))))))))))))))))))"

definition harness_verify ::
  "'o kgc \<Rightarrow> hex_lib \<Rightarrow> 'w transport \<Rightarrow> 'w signer \<Rightarrow> 'w picker \<Rightarrow> str \<Rightarrow> decrypt_request \<Rightarrow> 'w
     \<Rightarrow> (harness_error + unit) \<times> 'w" where
  "harness_verify K H T S pick secret req =
     abind (amap_err FromSdk (decrypt K H T S pick req)) (\<lambda>recovered.
     apure (if expose recovered \<noteq> str_bytes secret
            then Err (Message ''MISMATCH: recovered plaintext != original'') else Ok ()))"

section \<open>The run\<close>

definition harness_run ::
  "'o kgc \<Rightarrow> (nat \<Rightarrow> bytes) \<Rightarrow> hex_lib \<Rightarrow> ('kp, 'm, 'j) signer_lib \<Rightarrow> (str \<Rightarrow> bool) \<Rightarrow> 'v scale_lib
     \<Rightarrow> scale_codec \<Rightarrow> 'kp harness_lib \<Rightarrow> 'w http_client \<Rightarrow> 'w picker \<Rightarrow> (str \<Rightarrow> str option)
     \<Rightarrow> ('w, 'v, 'kp) harness_chain \<Rightarrow> 'w \<Rightarrow> (harness_error + unit) \<times> 'w" where
  "harness_run K fill H L uni V Z Y C pick env X =
     abind (apure (harness_settings env)) (\<lambda>(rpc_url, seed_str, secret).
     abind (apure (map_err Library (hl_keypair Y (trim seed_str)))) (\<lambda>keypair.
     abind (apure (map_err FromSdk (dev_signer_from_uri H L uni (trim seed_str)))) (\<lambda>committee_key.
     abind (amap_err Library (hc_rpc X rpc_url)) (\<lambda>_.
     abind (amap_err Library (hc_online X)) (\<lambda>_.
     abind (\<lambda>w. (Ok (), hc_balance X (public_key L keypair) w)) (\<lambda>_.
     abind (harness_store K fill V Z Y X keypair secret) (\<lambda>secret_id.
     abind (harness_request Z X secret_id) (\<lambda>req.
     harness_verify K H (reqwest_transport C) (dev_signer K H L committee_key) pick secret req))))))))"

section \<open>Properties\<close>

lemma named_network_has_url: "harness_network env = Ok n \<Longrightarrow> \<exists>u. default_rpc_url n = Some u"
  by (auto simp: harness_network_def split: option.splits if_splits)

text \<open>
  C16. The harness spends nothing on mainnet by accident: without \<open>MATTER_CONFIRM=yes\<close>, a run that
  names mainnet, or whose URL mentions it under whatever network name, ends with an error before
  a connection is opened, and so before anything is signed or submitted.
\<close>

theorem harness_guards_mainnet:
  assumes "env ''MATTER_CONFIRM'' \<noteq> Some ''yes''"
    and "env ''MATTER_NETWORK'' = Some ''mainnet'' \<or> (\<exists>u. env ''MATTER_RPC_URL'' = Some u \<and> has_substr u ''mainnet'')"
  shows "\<exists>m. harness_run K fill H L uni V Z Y C pick env X w = (Err (Message m), w)"
proof -
  have guard: "\<exists>m. guard_mainnet env u = Err (Message m)"
    if "env ''MATTER_NETWORK'' = Some ''mainnet'' \<or> has_substr u ''mainnet''" for u
    using assms(1) that by (auto simp: guard_mainnet_def Let_def)
  have "\<exists>m. harness_settings env = Err (Message m)"
  proof (cases "harness_network env")
    case (Inl e)
    then show ?thesis by (auto simp: harness_settings_def harness_network_def split: option.splits if_splits)
  next
    case (Inr n)
    define u where "u = (case env ''MATTER_RPC_URL'' of Some u \<Rightarrow> u | None \<Rightarrow> the (default_rpc_url n))"
    obtain m where "guard_mainnet env u = Err (Message m)"
      using guard [of u] assms(2) by (auto simp: u_def)
    then show ?thesis using Inr by (simp add: harness_settings_def Let_def u_def)
  qed
  then show ?thesis by (auto simp: harness_run_def abind_def apure_def)
qed

text \<open>
  On a healthy committee the check passes: when the request read back holds what was sealed and
  enough nodes are honest and the others fail openly, the recovered bytes are the secret.
\<close>

theorem harness_passes:
  assumes "encrypt K fill joint_pk (d_epoch req) (str_bytes secret) (d_aad req) None = Ok env" and "seal_law K"
    and "d_binding_id req = binding_id env" "d_capsule req = capsule env" "d_ct req = ct env"
    and "dependable K H T req" and "faithful K H T req"
    and "0 \<notin> n_index ` set (d_nodes req)" and "0 < d_threshold req"
    and "signs_always S" "coefficients_serialize K" and "picker_law pick"
    and "distinct (map n_index (d_nodes req))"
    and "d_threshold req \<le> length (filter (honest K H T req) (d_nodes req))"
    and "length (filter (\<lambda>n. \<not> honest K H T req n) (d_nodes req)) < d_threshold req"
  shows "fst (harness_verify K H T S pick secret req w) = Ok ()"
proof -
  have "fst (decrypt K H T S pick req w) = Ok (Plaintext (str_bytes secret))"
    by (rule decrypt_recovers [OF assms])
  then show ?thesis
    by (cases "decrypt K H T S pick req w") (simp add: harness_verify_def abind_def amap_err_def apure_def)
qed

text \<open>A run that ends well submitted what it sealed and recovered it from the record it stored.\<close>

lemma harness_run_Ok:
  assumes "harness_run K fill H L uni V Z Y C pick env X w = (Ok u, w')"
  shows "\<exists>url seed secret keypair key sid req w1 w2 w3.
    harness_settings env = Ok (url, seed, secret) \<and> dev_signer_from_uri H L uni (trim seed) = Ok key \<and>
    harness_store K fill V Z Y X keypair secret w1 = (Ok sid, w2) \<and>
    harness_request Z X sid w2 = (Ok req, w3) \<and> d_secret_id req = sid \<and>
    decrypt K H (reqwest_transport C) (dev_signer K H L key) pick req w3 = (Ok (Plaintext (str_bytes secret)), w')"
proof -
  from assms obtain url seed secret keypair key sid req w1 w2 w3 where
    r: "harness_settings env = Ok (url, seed, secret)" "dev_signer_from_uri H L uni (trim seed) = Ok key"
      "harness_store K fill V Z Y X keypair secret w1 = (Ok sid, w2)"
      "harness_request Z X sid w2 = (Ok req, w3)"
      "harness_verify K H (reqwest_transport C) (dev_signer K H L key) pick secret req w3 = (Ok u, w')"
    unfolding harness_run_def by (elim abind_OkE) (auto simp: res_simps elim!: abind_OkE)
  from r(5) obtain pt where
    "decrypt K H (reqwest_transport C) (dev_signer K H L key) pick req w3 = (Ok pt, w')" "expose pt = str_bytes secret"
    unfolding harness_verify_def by (auto simp: res_simps split: if_splits)
  moreover have "d_secret_id req = sid"
    using r(4) unfolding harness_request_def by (elim abind_OkE) (auto simp: apure_eq)
  ultimately show ?thesis using r(1-4) by (metis plaintext.expand plaintext.sel)
qed

section \<open>Witnesses\<close>

definition harness_chain_ref :: "(nat, tval, bytes) harness_chain" where
  "harness_chain_ref =
     \<lparr>hc_rpc = (\<lambda>_ w. (Ok (), w + 1)), hc_online = (\<lambda>w. (Ok (), w + 1)), hc_balance = (\<lambda>_ w. w + 1),
      hc_state_call = (\<lambda>_ _ w. (Ok [], w + 1)), hc_submit = (\<lambda>_ _ w. (Ok [], w + 1)),
      hc_finalized_head = (\<lambda>w. (Ok [], w + 1))\<rparr>"

definition harness_lib_ref :: "bytes harness_lib" where
  "harness_lib_ref = \<lparr>hl_dec_epoch = (\<lambda>_. Ok 3), hl_dec_u128 = (\<lambda>_. Ok 9), hl_keypair = (\<lambda>s. Ok (str_bytes s))\<rparr>"

theorem harness_guards_mainnet_witness:
  "\<exists>m. harness_run kgc_ref (\<lambda>n. replicate n 5) hex_ref keys_ref (\<lambda>_. False) scale_ref codec_ref harness_lib_ref
     online_ref ref_pick (\<lambda>k. if k = ''MATTER_RPC_URL'' then Some MAINNET_RPC else None) harness_chain_ref 0 =
     (Err (Message m), 0)"
proof (rule harness_guards_mainnet)
  have "has_substr MAINNET_RPC ''mainnet''" by code_simp
  then show "(if ''MATTER_NETWORK'' = ''MATTER_RPC_URL'' then Some MAINNET_RPC else None) = Some ''mainnet'' \<or>
    (\<exists>u. (if ''MATTER_RPC_URL'' = ''MATTER_RPC_URL'' then Some MAINNET_RPC else None) = Some u \<and> has_substr u ''mainnet'')"
    by simp
qed simp

definition harness_request_ref :: decrypt_request where
  "harness_request_ref =
     \<lparr>d_secret_id = 9, d_epoch = 3, d_binding_id = binding_id sealed_ref, d_aad = aad_as_bytes EnvV1,
      d_capsule = capsule sealed_ref, d_ct = ct sealed_ref, d_shared_a = [2], d_block_hash = replicate 32 5,
      d_threshold = 2, d_nodes = [ref_node 10 ''http://a'', ref_node 30 ''http://c'']\<rparr>"

theorem harness_passes_witness:
  "fst (harness_verify kgc_ref hex_ref (reqwest_transport online_ref) (key_auth kgc_ref hex_ref key_ref)
     ref_pick [CHR 0x07, CHR 0x08] harness_request_ref 0) = Ok ()"
proof -
  let ?T = "reqwest_transport online_ref"
  have q: "d_epoch harness_request_ref = 3" "d_threshold harness_request_ref = 2" "d_shared_a harness_request_ref = [2]"
    "d_nodes harness_request_ref = [ref_node 10 ''http://a'', ref_node 30 ''http://c'']"
    by (simp_all add: harness_request_ref_def)
  have n: "n_endpoint ` set (d_nodes harness_request_ref) \<subseteq> {''http://a'', ''http://b'', ''http://c''}"
    by (simp add: q ref_node_def)
  have f: "faithful kgc_ref hex_ref ?T harness_request_ref"
    using online_faithful [OF q(1,2) _ n] by (simp add: q ref_node_def MAX_DECODE_BYTES_def)
  have h: "map (honest kgc_ref hex_ref ?T harness_request_ref) (d_nodes harness_request_ref) = [True, True]"
    using online_honest [OF q(1)] by (simp add: q ref_node_def)
  have "str_bytes [CHR 0x07, CHR 0x08] = [7, 8]" by code_simp
  then have e: "encrypt kgc_ref (\<lambda>n. replicate n 5) [1, 2] (d_epoch harness_request_ref)
      (str_bytes [CHR 0x07, CHR 0x08]) (d_aad harness_request_ref) None = Ok sealed_ref"
    using sealed_ref by (simp add: harness_request_ref_def)
  show ?thesis
    by (rule harness_passes [OF e seal_law_ref _ _ _ online_dependable [OF q(1) n] f _ _ online_signs
        ref_serializes ref_picker_law])
      (use h in \<open>simp_all add: harness_request_ref_def ref_node_def\<close>)
qed

end
