(* ===== verification/Facade.thy ===== *)
theory Facade
  imports Recover
begin

text \<open>
  \<open>crates/matter-sdk/src/chain/facade.rs\<close>: the typed operations per domain. Each converts its
  arguments to dynamic values and delegates to \<open>tx\<close>; they are the calls the SDK is used for, so
  the properties here say what a delegated key may and may not do through them.
\<close>

section \<open>Secrets\<close>

text \<open>What every operation does with the environment: the result of \<open>tx\<close>, the client after it.\<close>

type_synonym ('w, 'v, 'e, 'p, 'h, 'b) sending =
  "'w \<Rightarrow> (sdk_error + receipt) \<times> ('w, 'v, 'e, 'p, 'h, 'b) client \<times> 'w"

definition secrets_store ::
  "'v scale_lib \<Rightarrow> hex_lib \<Rightarrow> ('w, (sdk_error + 'b) \<times> mode) timer \<Rightarrow> ('w, 'v, 'e, 'p, 'h, 'b) client
     \<Rightarrow> store_secret \<Rightarrow> ('w, 'v, 'e, 'p, 'h, 'b) sending" where
  "secrets_store V H timer c args =
    tx V H timer c ''Secrets'' ''store_secret'' (store_secret_to_values V args)"

definition secrets_rotate ::
  "'v scale_lib \<Rightarrow> hex_lib \<Rightarrow> ('w, (sdk_error + 'b) \<times> mode) timer \<Rightarrow> ('w, 'v, 'e, 'p, 'h, 'b) client
     \<Rightarrow> u128 \<Rightarrow> encrypted_secret \<Rightarrow> u32 \<Rightarrow> aad \<Rightarrow> ('w, 'v, 'e, 'p, 'h, 'b) sending" where
  "secrets_rotate V H timer c secret_id env epoch a =
     tx V H timer c ''Secrets'' ''rotate_secret''
       [v_u128 V secret_id, envelope_value V env, v_u128 V (ucast epoch), from_bytes V (aad_as_bytes a)]"

definition secrets_grant ::
  "'v scale_lib \<Rightarrow> hex_lib \<Rightarrow> ('w, (sdk_error + 'b) \<times> mode) timer \<Rightarrow> ('w, 'v, 'e, 'p, 'h, 'b) client
     \<Rightarrow> u128 \<Rightarrow> grant_target \<Rightarrow> ('w, 'v, 'e, 'p, 'h, 'b) sending" where
  "secrets_grant V H timer c secret_id target =
     tx V H timer c ''Secrets'' ''grant_access'' [v_u128 V secret_id, grant_target_value V target]"

definition secrets_grant_to_user ::
  "'v scale_lib \<Rightarrow> hex_lib \<Rightarrow> ('w, (sdk_error + 'b) \<times> mode) timer \<Rightarrow> ('w, 'v, 'e, 'p, 'h, 'b) client
     \<Rightarrow> u128 \<Rightarrow> account_id \<Rightarrow> ('w, 'v, 'e, 'p, 'h, 'b) sending" where
  "secrets_grant_to_user V H timer c secret_id acct =
    secrets_grant V H timer c secret_id (User (as_bytes acct))"

definition secrets_grant_to_deployment ::
  "'v scale_lib \<Rightarrow> hex_lib \<Rightarrow> ('w, (sdk_error + 'b) \<times> mode) timer \<Rightarrow> ('w, 'v, 'e, 'p, 'h, 'b) client
     \<Rightarrow> u128 \<Rightarrow> u128 \<Rightarrow> ('w, 'v, 'e, 'p, 'h, 'b) sending" where
  "secrets_grant_to_deployment V H timer c secret_id deployment =
    secrets_grant V H timer c secret_id (Deployment deployment)"

definition secrets_revoke ::
  "'v scale_lib \<Rightarrow> hex_lib \<Rightarrow> ('w, (sdk_error + 'b) \<times> mode) timer \<Rightarrow> ('w, 'v, 'e, 'p, 'h, 'b) client
     \<Rightarrow> u128 \<Rightarrow> grant_target \<Rightarrow> ('w, 'v, 'e, 'p, 'h, 'b) sending" where
  "secrets_revoke V H timer c secret_id target =
    tx V H timer c ''Secrets'' ''revoke_access'' [v_u128 V secret_id, grant_target_value V target]"

definition secrets_delete ::
  "'v scale_lib \<Rightarrow> hex_lib \<Rightarrow> ('w, (sdk_error + 'b) \<times> mode) timer \<Rightarrow> ('w, 'v, 'e, 'p, 'h, 'b) client
     \<Rightarrow> u128 \<Rightarrow> ('w, 'v, 'e, 'p, 'h, 'b) sending" where
  "secrets_delete V H timer c secret_id =
    tx V H timer c ''Secrets'' ''delete_secret'' [v_u128 V secret_id]"

section \<open>Deployments\<close>

definition deployments_request ::
  "'v scale_lib \<Rightarrow> hex_lib \<Rightarrow> ('w, (sdk_error + 'b) \<times> mode) timer \<Rightarrow> ('w, 'v, 'e, 'p, 'h, 'b) client
     \<Rightarrow> 'v \<Rightarrow> ('w, 'v, 'e, 'p, 'h, 'b) sending" where
  "deployments_request V H timer c request =
    tx V H timer c ''Jobs'' ''request_deployment'' [request]"

definition deployments_cancel ::
  "'v scale_lib \<Rightarrow> hex_lib \<Rightarrow> ('w, (sdk_error + 'b) \<times> mode) timer \<Rightarrow> ('w, 'v, 'e, 'p, 'h, 'b) client
     \<Rightarrow> u128 \<Rightarrow> ('w, 'v, 'e, 'p, 'h, 'b) sending" where
  "deployments_cancel V H timer c deployment =
    tx V H timer c ''Jobs'' ''cancel_deployment'' [v_u128 V deployment]"

definition deployments_set_secret_ref ::
  "'v scale_lib \<Rightarrow> hex_lib \<Rightarrow> ('w, (sdk_error + 'b) \<times> mode) timer \<Rightarrow> ('w, 'v, 'e, 'p, 'h, 'b) client
     \<Rightarrow> u128 \<Rightarrow> u128 option \<Rightarrow> ('w, 'v, 'e, 'p, 'h, 'b) sending" where
  "deployments_set_secret_ref V H timer c deployment secret_ref =
    tx V H timer c ''Jobs'' ''set_deployment_secret_ref'' [v_u128 V deployment, option_u128 V secret_ref]"

definition deployments_set_env ::
  "'v scale_lib \<Rightarrow> hex_lib \<Rightarrow> ('w, (sdk_error + 'b) \<times> mode) timer \<Rightarrow> ('w, 'v, 'e, 'p, 'h, 'b) client
     \<Rightarrow> u128 \<Rightarrow> 'v option \<Rightarrow> ('w, 'v, 'e, 'p, 'h, 'b) sending" where
  "deployments_set_env V H timer c deployment env =
    tx V H timer c ''Jobs'' ''set_deployment_env'' [v_u128 V deployment, option_value V env]"

definition deployments_register_wg_peer ::
  "'v scale_lib \<Rightarrow> hex_lib \<Rightarrow> ('w, (sdk_error + 'b) \<times> mode) timer \<Rightarrow> ('w, 'v, 'e, 'p, 'h, 'b) client
     \<Rightarrow> u128 \<Rightarrow> bytes \<Rightarrow> bytes \<Rightarrow> ('w, 'v, 'e, 'p, 'h, 'b) sending" where
  "deployments_register_wg_peer V H timer c deployment pubkey pq_ciphertext =
    tx V H timer c ''Jobs'' ''register_wg_peer'' [v_u128 V deployment, from_bytes V pubkey, from_bytes V pq_ciphertext]"

section \<open>Resources\<close>

definition resources_register ::
  "'v scale_lib \<Rightarrow> hex_lib \<Rightarrow> ('w, (sdk_error + 'b) \<times> mode) timer \<Rightarrow> ('w, 'v, 'e, 'p, 'h, 'b) client
     \<Rightarrow> account_id \<Rightarrow> 'v \<Rightarrow> str \<Rightarrow> ('w, 'v, 'e, 'p, 'h, 'b) sending" where
  "resources_register V H timer c resource ownership_proof name =
    tx V H timer c ''Resources'' ''register_resource''
      [from_bytes V (as_bytes resource), ownership_proof, from_bytes V (str_bytes name)]"

definition resources_update_sku ::
  "'v scale_lib \<Rightarrow> hex_lib \<Rightarrow> ('w, (sdk_error + 'b) \<times> mode) timer \<Rightarrow> ('w, 'v, 'e, 'p, 'h, 'b) client
     \<Rightarrow> u128 \<Rightarrow> 'v \<Rightarrow> ('w, 'v, 'e, 'p, 'h, 'b) sending" where
  "resources_update_sku V H timer c uuid sku =
    tx V H timer c ''Resources'' ''update_sku'' [v_u128 V uuid, sku]"

definition resources_report_capacity ::
  "'v scale_lib \<Rightarrow> hex_lib \<Rightarrow> ('w, (sdk_error + 'b) \<times> mode) timer \<Rightarrow> ('w, 'v, 'e, 'p, 'h, 'b) client
     \<Rightarrow> 'v \<Rightarrow> ('w, 'v, 'e, 'p, 'h, 'b) sending" where
  "resources_report_capacity V H timer c capacity =
    tx V H timer c ''Resources'' ''report_capacity'' [capacity]"

definition resources_set_privacy ::
  "'v scale_lib \<Rightarrow> hex_lib \<Rightarrow> ('w, (sdk_error + 'b) \<times> mode) timer \<Rightarrow> ('w, 'v, 'e, 'p, 'h, 'b) client
     \<Rightarrow> account_id \<Rightarrow> bool \<Rightarrow> ('w, 'v, 'e, 'p, 'h, 'b) sending" where
  "resources_set_privacy V H timer c resource is_private =
    tx V H timer c ''Resources'' ''set_resource_privacy'' [from_bytes V (as_bytes resource), v_bool V is_private]"

definition resources_allow ::
  "'v scale_lib \<Rightarrow> hex_lib \<Rightarrow> ('w, (sdk_error + 'b) \<times> mode) timer \<Rightarrow> ('w, 'v, 'e, 'p, 'h, 'b) client
     \<Rightarrow> account_id \<Rightarrow> account_id \<Rightarrow> ('w, 'v, 'e, 'p, 'h, 'b) sending" where
  "resources_allow V H timer c resource user =
    tx V H timer c ''Resources'' ''add_to_whitelist'' [from_bytes V (as_bytes resource), from_bytes V (as_bytes user)]"

definition resources_disallow ::
  "'v scale_lib \<Rightarrow> hex_lib \<Rightarrow> ('w, (sdk_error + 'b) \<times> mode) timer \<Rightarrow> ('w, 'v, 'e, 'p, 'h, 'b) client
     \<Rightarrow> account_id \<Rightarrow> account_id \<Rightarrow> ('w, 'v, 'e, 'p, 'h, 'b) sending" where
  "resources_disallow V H timer c resource user =
    tx V H timer c ''Resources'' ''remove_from_whitelist'' [from_bytes V (as_bytes resource), from_bytes V (as_bytes user)]"

section \<open>Staking\<close>

definition staking_bond ::
  "'v scale_lib \<Rightarrow> hex_lib \<Rightarrow> ('w, (sdk_error + 'b) \<times> mode) timer \<Rightarrow> ('w, 'v, 'e, 'p, 'h, 'b) client
     \<Rightarrow> u128 \<Rightarrow> 'v \<Rightarrow> ('w, 'v, 'e, 'p, 'h, 'b) sending" where
  "staking_bond V H timer c amount payee =
    tx V H timer c ''Staking'' ''bond'' [v_u128 V amount, payee]"

definition staking_bond_extra ::
  "'v scale_lib \<Rightarrow> hex_lib \<Rightarrow> ('w, (sdk_error + 'b) \<times> mode) timer \<Rightarrow> ('w, 'v, 'e, 'p, 'h, 'b) client
     \<Rightarrow> u128 \<Rightarrow> ('w, 'v, 'e, 'p, 'h, 'b) sending" where
  "staking_bond_extra V H timer c max_additional =
    tx V H timer c ''Staking'' ''bond_extra'' [v_u128 V max_additional]"

definition staking_unbond ::
  "'v scale_lib \<Rightarrow> hex_lib \<Rightarrow> ('w, (sdk_error + 'b) \<times> mode) timer \<Rightarrow> ('w, 'v, 'e, 'p, 'h, 'b) client
     \<Rightarrow> u128 \<Rightarrow> ('w, 'v, 'e, 'p, 'h, 'b) sending" where
  "staking_unbond V H timer c amount =
    tx V H timer c ''Staking'' ''unbond'' [v_u128 V amount]"

definition staking_withdraw_unbonded ::
  "'v scale_lib \<Rightarrow> hex_lib \<Rightarrow> ('w, (sdk_error + 'b) \<times> mode) timer \<Rightarrow> ('w, 'v, 'e, 'p, 'h, 'b) client
     \<Rightarrow> u32 \<Rightarrow> ('w, 'v, 'e, 'p, 'h, 'b) sending" where
  "staking_withdraw_unbonded V H timer c num_slashing_spans =
     tx V H timer c ''Staking'' ''withdraw_unbonded'' [v_u128 V (ucast num_slashing_spans)]"

definition staking_nominate ::
  "'v scale_lib \<Rightarrow> hex_lib \<Rightarrow> ('w, (sdk_error + 'b) \<times> mode) timer \<Rightarrow> ('w, 'v, 'e, 'p, 'h, 'b) client
     \<Rightarrow> account_id list \<Rightarrow> ('w, 'v, 'e, 'p, 'h, 'b) sending" where
  "staking_nominate V H timer c targets =
    tx V H timer c ''Staking'' ''nominate''
      [unnamed_composite V (map (\<lambda>t. unnamed_variant V ''Id'' [from_bytes V (as_bytes t)]) targets)]"

definition staking_chill ::
  "'v scale_lib \<Rightarrow> hex_lib \<Rightarrow> ('w, (sdk_error + 'b) \<times> mode) timer \<Rightarrow> ('w, 'v, 'e, 'p, 'h, 'b) client
     \<Rightarrow> ('w, 'v, 'e, 'p, 'h, 'b) sending" where
  "staking_chill V H timer c =
    tx V H timer c ''Staking'' ''chill'' []"

definition staking_join_pool ::
  "'v scale_lib \<Rightarrow> hex_lib \<Rightarrow> ('w, (sdk_error + 'b) \<times> mode) timer \<Rightarrow> ('w, 'v, 'e, 'p, 'h, 'b) client
     \<Rightarrow> u128 \<Rightarrow> u32 \<Rightarrow> ('w, 'v, 'e, 'p, 'h, 'b) sending" where
  "staking_join_pool V H timer c amount pool_id =
     tx V H timer c ''NominationPools'' ''join'' [v_u128 V amount, v_u128 V (ucast pool_id)]"

definition staking_claim_pool_payout ::
  "'v scale_lib \<Rightarrow> hex_lib \<Rightarrow> ('w, (sdk_error + 'b) \<times> mode) timer \<Rightarrow> ('w, 'v, 'e, 'p, 'h, 'b) client
     \<Rightarrow> ('w, 'v, 'e, 'p, 'h, 'b) sending" where
  "staking_claim_pool_payout V H timer c =
    tx V H timer c ''NominationPools'' ''claim_payout'' []"

section \<open>Organizations and budgets\<close>

definition orgs_create ::
  "'v scale_lib \<Rightarrow> hex_lib \<Rightarrow> ('w, (sdk_error + 'b) \<times> mode) timer \<Rightarrow> ('w, 'v, 'e, 'p, 'h, 'b) client
     \<Rightarrow> ('w, 'v, 'e, 'p, 'h, 'b) sending" where
  "orgs_create V H timer c =
    tx V H timer c ''Organizations'' ''create_org'' []"

definition orgs_add_member ::
  "'v scale_lib \<Rightarrow> hex_lib \<Rightarrow> ('w, (sdk_error + 'b) \<times> mode) timer \<Rightarrow> ('w, 'v, 'e, 'p, 'h, 'b) client
     \<Rightarrow> bytes \<Rightarrow> account_id \<Rightarrow> 'v \<Rightarrow> ('w, 'v, 'e, 'p, 'h, 'b) sending" where
  "orgs_add_member V H timer c org who role =
    tx V H timer c ''Organizations'' ''add_member'' [from_bytes V org, from_bytes V (as_bytes who), role]"

definition orgs_remove_member ::
  "'v scale_lib \<Rightarrow> hex_lib \<Rightarrow> ('w, (sdk_error + 'b) \<times> mode) timer \<Rightarrow> ('w, 'v, 'e, 'p, 'h, 'b) client
     \<Rightarrow> bytes \<Rightarrow> account_id \<Rightarrow> ('w, 'v, 'e, 'p, 'h, 'b) sending" where
  "orgs_remove_member V H timer c org who =
    tx V H timer c ''Organizations'' ''remove_member'' [from_bytes V org, from_bytes V (as_bytes who)]"

definition orgs_allot ::
  "'v scale_lib \<Rightarrow> hex_lib \<Rightarrow> ('w, (sdk_error + 'b) \<times> mode) timer \<Rightarrow> ('w, 'v, 'e, 'p, 'h, 'b) client
     \<Rightarrow> bytes \<Rightarrow> bytes \<Rightarrow> u128 \<Rightarrow> ('w, 'v, 'e, 'p, 'h, 'b) sending" where
  "orgs_allot V H timer c org project amount =
    tx V H timer c ''Budgets'' ''allot'' [from_bytes V org, from_bytes V project, v_u128 V amount]"

definition orgs_authorize_secrets_agent ::
  "'v scale_lib \<Rightarrow> hex_lib \<Rightarrow> ('w, (sdk_error + 'b) \<times> mode) timer \<Rightarrow> ('w, 'v, 'e, 'p, 'h, 'b) client
     \<Rightarrow> bytes \<Rightarrow> bytes \<Rightarrow> account_id \<Rightarrow> ('w, 'v, 'e, 'p, 'h, 'b) sending" where
  "orgs_authorize_secrets_agent V H timer c org project who =
    tx V H timer c ''Budgets'' ''authorize_project_secrets_agent''
      [from_bytes V org, from_bytes V project, from_bytes V (as_bytes who)]"

definition orgs_revoke_secrets_agent ::
  "'v scale_lib \<Rightarrow> hex_lib \<Rightarrow> ('w, (sdk_error + 'b) \<times> mode) timer \<Rightarrow> ('w, 'v, 'e, 'p, 'h, 'b) client
     \<Rightarrow> bytes \<Rightarrow> bytes \<Rightarrow> account_id \<Rightarrow> ('w, 'v, 'e, 'p, 'h, 'b) sending" where
  "orgs_revoke_secrets_agent V H timer c org project who =
    tx V H timer c ''Budgets'' ''revoke_project_secrets_agent''
      [from_bytes V org, from_bytes V project, from_bytes V (as_bytes who)]"

section \<open>Keys\<close>

definition keys_authorize ::
  "'v scale_lib \<Rightarrow> hex_lib \<Rightarrow> ('w, (sdk_error + 'b) \<times> mode) timer \<Rightarrow> ('w, 'v, 'e, 'p, 'h, 'b) client
     \<Rightarrow> account_id \<Rightarrow> scope_set \<Rightarrow> ('w, 'v, 'e, 'p, 'h, 'b) sending" where
  "keys_authorize V H timer c key scopes =
    tx V H timer c ''Budgets'' ''authorize_agent_key'' [from_bytes V (as_bytes key), v_u128 V (ucast (bits scopes))]"

definition keys_revoke ::
  "'v scale_lib \<Rightarrow> hex_lib \<Rightarrow> ('w, (sdk_error + 'b) \<times> mode) timer \<Rightarrow> ('w, 'v, 'e, 'p, 'h, 'b) client
     \<Rightarrow> account_id \<Rightarrow> ('w, 'v, 'e, 'p, 'h, 'b) sending" where
  "keys_revoke V H timer c key =
    tx V H timer c ''Budgets'' ''revoke_agent_key'' [from_bytes V (as_bytes key)]"

text \<open>\<open>MatterClient::agent_key\<close>, and \<open>Keys::lookup\<close>, which calls it.\<close>

definition agent_key ::
  "'v scale_lib \<Rightarrow> ('w, 'v, 'e, 'p, 'h, 'b) client \<Rightarrow> account_id \<Rightarrow> 'w
     \<Rightarrow> (sdk_error + (account_id \<times> scope_set) option) \<times> 'w" where
  "agent_key V c key = lookup V (c_api c) key"

definition keys_lookup ::
  "'v scale_lib \<Rightarrow> ('w, 'v, 'e, 'p, 'h, 'b) client \<Rightarrow> account_id \<Rightarrow> 'w
     \<Rightarrow> (sdk_error + (account_id \<times> scope_set) option) \<times> 'w" where
  "keys_lookup V c key = agent_key V c key"

section \<open>Properties\<close>

text \<open>A signing client in delegated mode.\<close>

abbreviation acting_for ::
  "('w, 'v, 'e, 'p, 'h, 'b) client \<Rightarrow> 'w dyn_signer \<Rightarrow> account_id \<Rightarrow> scope_set \<Rightarrow> ('w, 'v, 'e, 'p, 'h, 'b) client" where
  "acting_for c s who scopes \<equiv> c\<lparr>c_signer := Some s, c_mode := Delegated who scopes\<rparr>"

lemma delegated_tx_refused:
  "required_scopes V pallet call args = None \<Longrightarrow>
     tx V H timer (acting_for c s who scopes) pallet call args w =
       (Err (NeverAdmitted pallet call), acting_for c s who scopes, w)"
  by (simp add: tx_def require_signer_def build_payload_def)

lemma delegated_tx_uncovered:
  "required_scopes V pallet call args = Some req \<Longrightarrow> \<not> is_superset scopes req \<Longrightarrow>
     tx V H timer (acting_for c s who scopes) pallet call args w =
       (Err (NotPermitted pallet call req scopes), acting_for c s who scopes, w)"
proof -
  assume r: "required_scopes V pallet call args = Some req" "\<not> is_superset scopes req"
  then have "pallet \<notin> set [''Proxy'', ''Utility'', ''EthSigning'']"
    using required_scopes_unscoped [of pallet V call args] by (auto simp: SCOPED_PALLETS_def)
  with r show ?thesis by (simp add: tx_def require_signer_def build_payload_def)
qed

lemma single_needs: "is_superset scopes (write_scope s) \<longleftrightarrow> contains scopes s Write"
proof -
  have "contains (write_scope s) sc a \<longleftrightarrow> sc = s \<and> a = Write" for sc a
    by (simp add: write_scope_def single_def contains_bit bit_scope_bit grant_index_inj)
  then show ?thesis
    using sg.covers_holds [of "write_scope s" scopes] write_scope_facts [of s] by auto
qed

text \<open>
  C10. No key widens itself or moves money: through every scope set and whatever the arguments, a
  delegated client is refused locally when it mints or revokes keys, authorizes secrets agents,
  creates an organization, prices a resource, reports capacity, or stakes in any way.
\<close>

theorem delegated_facade_is_confined:
  "keys_authorize V H timer (acting_for c s who scopes) key wanted w =
     (Err (NeverAdmitted ''Budgets'' ''authorize_agent_key''), acting_for c s who scopes, w) \<and>
   keys_revoke V H timer (acting_for c s who scopes) key w =
     (Err (NeverAdmitted ''Budgets'' ''revoke_agent_key''), acting_for c s who scopes, w) \<and>
   orgs_authorize_secrets_agent V H timer (acting_for c s who scopes) org project acct w =
     (Err (NeverAdmitted ''Budgets'' ''authorize_project_secrets_agent''), acting_for c s who scopes, w) \<and>
   orgs_revoke_secrets_agent V H timer (acting_for c s who scopes) org project acct w =
     (Err (NeverAdmitted ''Budgets'' ''revoke_project_secrets_agent''), acting_for c s who scopes, w) \<and>
   orgs_create V H timer (acting_for c s who scopes) w =
     (Err (NeverAdmitted ''Organizations'' ''create_org''), acting_for c s who scopes, w) \<and>
   resources_update_sku V H timer (acting_for c s who scopes) uuid sku w =
     (Err (NeverAdmitted ''Resources'' ''update_sku''), acting_for c s who scopes, w) \<and>
   resources_report_capacity V H timer (acting_for c s who scopes) capacity w =
     (Err (NeverAdmitted ''Resources'' ''report_capacity''), acting_for c s who scopes, w) \<and>
   staking_bond V H timer (acting_for c s who scopes) amount payee w =
     (Err (NeverAdmitted ''Staking'' ''bond''), acting_for c s who scopes, w) \<and>
   staking_bond_extra V H timer (acting_for c s who scopes) amount w =
     (Err (NeverAdmitted ''Staking'' ''bond_extra''), acting_for c s who scopes, w) \<and>
   staking_unbond V H timer (acting_for c s who scopes) amount w =
     (Err (NeverAdmitted ''Staking'' ''unbond''), acting_for c s who scopes, w) \<and>
   staking_withdraw_unbonded V H timer (acting_for c s who scopes) spans w =
     (Err (NeverAdmitted ''Staking'' ''withdraw_unbonded''), acting_for c s who scopes, w) \<and>
   staking_nominate V H timer (acting_for c s who scopes) targets w =
     (Err (NeverAdmitted ''Staking'' ''nominate''), acting_for c s who scopes, w) \<and>
   staking_chill V H timer (acting_for c s who scopes) w =
     (Err (NeverAdmitted ''Staking'' ''chill''), acting_for c s who scopes, w) \<and>
   staking_join_pool V H timer (acting_for c s who scopes) amount pool w =
     (Err (NeverAdmitted ''NominationPools'' ''join''), acting_for c s who scopes, w) \<and>
   staking_claim_pool_payout V H timer (acting_for c s who scopes) w =
     (Err (NeverAdmitted ''NominationPools'' ''claim_payout''), acting_for c s who scopes, w)"
  unfolding keys_authorize_def keys_revoke_def orgs_authorize_secrets_agent_def orgs_revoke_secrets_agent_def
    orgs_create_def resources_update_sku_def resources_report_capacity_def staking_bond_def
    staking_bond_extra_def staking_unbond_def staking_withdraw_unbonded_def staking_nominate_def
    staking_chill_def staking_join_pool_def staking_claim_pool_payout_def
  by (intro conjI; rule delegated_tx_refused;
      simp add: required_scopes_def BILLING_WRITES_def ORGANIZATION_WRITES_def RESOURCE_WRITES_def)

lemma deploy_with_secret_needs:
  "is_superset scopes DEPLOY_WITH_SECRET \<longleftrightarrow> contains scopes Deployments Write \<and> contains scopes Secrets Read"
proof -
  have "contains DEPLOY_WITH_SECRET sc a \<longleftrightarrow> (sc, a) = (Deployments, Write) \<or> (sc, a) = (Secrets, Read)" for sc a
    using sg.holds_add [of "write_scope Deployments" "(Secrets, Read)" "(sc, a)"]
    by (auto simp: DEPLOY_WITH_SECRET_def write_scope_def single_def contains_bit bit_scope_bit grant_index_inj)
  then show ?thesis
    using sg.covers_holds [of DEPLOY_WITH_SECRET scopes] deploy_with_secret_facts by auto
qed

text \<open>The refusal of a delegated call, as an alternative to holding what it needs.\<close>

lemma covered_or_refused:
  assumes "required_scopes V pallet call args = Some req" and "is_superset scopes req \<longleftrightarrow> P"
  shows "P \<or> tx V H timer (acting_for c s who scopes) pallet call args w =
    (Err (NotPermitted pallet call req scopes), acting_for c s who scopes, w)"
  using delegated_tx_uncovered [OF assms(1), where scopes = scopes] assms(2)
  by (cases P) simp_all

lemmas facade_needs = covered_or_refused [OF _ single_needs] covered_or_refused [OF _ deploy_with_secret_needs]

lemmas table_simps = required_scopes_def DEPLOYMENT_WRITES_def BILLING_WRITES_def ORGANIZATION_WRITES_def
  RESOURCE_WRITES_def

text \<open>
  C27. The other operations say what is missing: a delegated client either holds the write grant
  of the operation's domain or is refused locally with the requirement and the held scopes in
  the error; pointing a deployment at a secret needs \<open>secrets:r\<close> as well, clearing the reference
  and the plaintext environment do not.
\<close>

theorem delegated_facade_names_the_scope:
  assumes "scale_values V"
  shows
   "(contains scopes Secrets Write \<or> secrets_store V H timer (acting_for c s who scopes) args w =
       (Err (NotPermitted ''Secrets'' ''store_secret'' (write_scope Secrets) scopes),
        acting_for c s who scopes, w)) \<and>
    (contains scopes Secrets Write \<or> secrets_grant V H timer (acting_for c s who scopes) i target w =
       (Err (NotPermitted ''Secrets'' ''grant_access'' (write_scope Secrets) scopes),
        acting_for c s who scopes, w)) \<and>
    (contains scopes Secrets Write \<or> secrets_revoke V H timer (acting_for c s who scopes) i target w =
       (Err (NotPermitted ''Secrets'' ''revoke_access'' (write_scope Secrets) scopes),
        acting_for c s who scopes, w)) \<and>
    (contains scopes Secrets Write \<or> secrets_delete V H timer (acting_for c s who scopes) i w =
       (Err (NotPermitted ''Secrets'' ''delete_secret'' (write_scope Secrets) scopes),
        acting_for c s who scopes, w)) \<and>
    (contains scopes Deployments Write \<or> deployments_cancel V H timer (acting_for c s who scopes) d w =
       (Err (NotPermitted ''Jobs'' ''cancel_deployment'' (write_scope Deployments) scopes),
        acting_for c s who scopes, w)) \<and>
    (contains scopes Deployments Write \<or> deployments_set_env V H timer (acting_for c s who scopes) d env w =
       (Err (NotPermitted ''Jobs'' ''set_deployment_env'' (write_scope Deployments) scopes),
        acting_for c s who scopes, w)) \<and>
    (contains scopes Deployments Write \<and> contains scopes Secrets Read \<or>
       deployments_set_secret_ref V H timer (acting_for c s who scopes) d (Some i) w =
       (Err (NotPermitted ''Jobs'' ''set_deployment_secret_ref'' DEPLOY_WITH_SECRET scopes),
        acting_for c s who scopes, w)) \<and>
    (contains scopes Deployments Write \<or> deployments_set_secret_ref V H timer (acting_for c s who scopes) d None w =
       (Err (NotPermitted ''Jobs'' ''set_deployment_secret_ref'' (write_scope Deployments) scopes),
        acting_for c s who scopes, w)) \<and>
    (contains scopes Networking Write \<or> deployments_register_wg_peer V H timer (acting_for c s who scopes) d pub pq w =
       (Err (NotPermitted ''Jobs'' ''register_wg_peer'' (write_scope Networking) scopes),
        acting_for c s who scopes, w)) \<and>
    (contains scopes Resources Write \<or> resources_set_privacy V H timer (acting_for c s who scopes) res p w =
       (Err (NotPermitted ''Resources'' ''set_resource_privacy'' (write_scope Resources) scopes),
        acting_for c s who scopes, w)) \<and>
    (contains scopes Organization Write \<or> orgs_add_member V H timer (acting_for c s who scopes) org acct role w =
       (Err (NotPermitted ''Organizations'' ''add_member'' (write_scope Organization) scopes),
        acting_for c s who scopes, w)) \<and>
    (contains scopes Billing Write \<or> orgs_allot V H timer (acting_for c s who scopes) org project amount w =
       (Err (NotPermitted ''Budgets'' ''allot'' (write_scope Billing) scopes),
        acting_for c s who scopes, w))"
proof -
  have none: "is_none V (Some (unnamed_variant V x vs)) \<longleftrightarrow> x = ''None''" for x vs
    by (simp add: is_none_def scale_values.view_variant [OF assms(1)])
  show ?thesis
    unfolding secrets_store_def secrets_grant_def secrets_revoke_def secrets_delete_def
      deployments_cancel_def deployments_set_env_def deployments_set_secret_ref_def
      deployments_register_wg_peer_def resources_set_privacy_def orgs_add_member_def orgs_allot_def
    by (intro conjI; rule facade_needs; simp add: table_simps none)
qed

theorem delegated_facade_names_the_scope_witness:
  "deployments_set_secret_ref scale_ref hex_ref timer_ref
     (acting_for (client_ref (\<lambda>_. None) [] Direct) key_ref member_ref (write_scope Deployments)) 4 (Some 7) 0 =
   (Err (NotPermitted ''Jobs'' ''set_deployment_secret_ref'' DEPLOY_WITH_SECRET (write_scope Deployments)),
    acting_for (client_ref (\<lambda>_. None) [] Direct) key_ref member_ref (write_scope Deployments), 0)"
  using delegated_facade_names_the_scope [OF scaler.scale_values_axioms, where scopes = "write_scope Deployments"
      and H = hex_ref and timer = timer_ref and c = "client_ref (\<lambda>_. None) [] Direct" and s = key_ref
      and who = member_ref and d = 4 and i = 7 and w = 0]
    deployments_without_secrets by blast

lemma ucast_u32_back: "ucast (ucast (a :: u32) :: u128) = a"
  by transfer simp

text \<open>
  What reaches the runtime is what was asked for: the scope argument of an authorization
  decodes to the same scope set, distinct grant targets and sealed envelopes are distinct
  arguments, and the two convenience grants are the general one at their target.
\<close>

theorem facade_arguments_are_faithful:
  assumes "scale_values V"
  shows "(v_u128 V (ucast (bits a)) = v_u128 V (ucast (bits b))) = (a = b) \<and>
    Scopes.from_bits (ucast (ucast (bits a) :: u128)) = a \<and>
    (grant_target_value V t = grant_target_value V t') = (t = t') \<and>
    (store_secret_to_values V s = store_secret_to_values V s') = (s = s') \<and>
    secrets_grant_to_user V H timer c i acct = secrets_grant V H timer c i (User (as_bytes acct)) \<and>
    secrets_grant_to_deployment V H timer c i d = secrets_grant V H timer c i (Deployment d)"
  using scale_values.grant_target_value_inj [OF assms] scale_values.store_secret_to_values_inj [OF assms]
  by (auto simp: scale_values.u128_inj [OF assms] ucast_u32_u128 ucast_u32_back secrets_grant_to_user_def
      secrets_grant_to_deployment_def from_bits_def intro: scope_set.expand)

theorem facade_arguments_are_faithful_witness:
  "(v_u128 scale_ref (ucast (bits SET_ALL)) = v_u128 scale_ref (ucast (bits b))) = (SET_ALL = b)"
  using facade_arguments_are_faithful [OF scaler.scale_values_axioms] by blast

end
