(* ===== verification/Demos.thy ===== *)
theory Demos
  imports Facade
begin

text \<open>
  The two programs that use the client the way the documentation does:
  \<open>examples/client-rust/src/main.rs\<close>, which reads from a chain and sends a call only when asked
  to, and \<open>examples/delegated-e2e/src/main.rs\<close>, which shows what a scoped key can and cannot do.
  Their lines on the terminal are not modelled; their settings, the calls they make and the
  verdict they end with are. A panic is the value \<open>None\<close>.
\<close>

section \<open>Settings\<close>

definition SUBMIT_ENV :: str where "SUBMIT_ENV = ''MATTER_SUBMIT''"
definition SUBMIT_VALUE :: str where "SUBMIT_VALUE = ''yes''"

definition submitting :: "(str \<Rightarrow> str option) \<Rightarrow> bool" where
  "submitting env \<longleftrightarrow> env SUBMIT_ENV = Some SUBMIT_VALUE"

definition demo_network :: "(str \<Rightarrow> str option) \<Rightarrow> network" where
  "demo_network env = (if env ''MATTER_NETWORK'' = Some ''mainnet'' then Mainnet else Testnet)"

text \<open>
  The ways the programs fail: an error of the SDK, a missing or malformed key (the variable it
  came from in the context), and the verdicts of the delegated program, by what they report.
\<close>

datatype demo_error =
    Failed sdk_error
  | NoKey
  | BadKey str key_error
  | ResolvedDirect str
  | NotRefused "sdk_error + receipt"
  | RevokedMeanwhile
  | NobodyPays str
  | Unexpected sdk_error

section \<open>The client program\<close>

definition client_demo_config :: "(str \<Rightarrow> str option) \<Rightarrow> matter_config" where
  "client_demo_config env =
     (case env ''MATTER_RPC_URL'' of
        Some url \<Rightarrow> (for_network (demo_network env))\<lparr>mc_rpc_url := Some url\<rparr>
      | None \<Rightarrow> for_network (demo_network env))"

fun read_key ::
  "(str \<Rightarrow> key_error + 'kp api_key) \<Rightarrow> (str \<Rightarrow> str option) \<Rightarrow> str list \<Rightarrow> demo_error + 'kp api_key option" where
  "read_key parse env [] = Ok None"
| "read_key parse env (var # vars) =
     (case env var of
        Some value \<Rightarrow>
          if trim value \<noteq> [] then
            (case parse value of Inl e \<Rightarrow> Err (BadKey var e) | Inr k \<Rightarrow> Ok (Some k))
          else read_key parse env vars
      | None \<Rightarrow> read_key parse env vars)"

definition KEY_VARS :: "str list" where
  "KEY_VARS = [''MATTER_API_KEY'', ''MATTER_SIGNER_SEED'', ''TEST_KEY'']"

definition read_state ::
  "'v scale_lib \<Rightarrow> ('w, 'v, 'e, 'p, 'h, 'b) client \<Rightarrow> ('w, 'v, 'e, 'd) reads \<Rightarrow> 'w
     \<Rightarrow> (demo_error + unit) \<times> 'w" where
  "read_state V c R =
     abind (amap_err Failed (query c R ''Secrets'' ''NextSecretId'' [])) (\<lambda>_.
     abind (case client_account c of
              Some acct \<Rightarrow>
                abind (amap_err Failed (query c R ''System'' ''Account'' [from_bytes V (as_bytes acct)]))
                  (\<lambda>_. apure (Ok ()))
            | None \<Rightarrow> apure (Ok ())) (\<lambda>_.
     abind (amap_err Failed (runtime_api c R ''KgcApi'' ''dkg_epoch'' [])) (\<lambda>_.
     abind (apure (map_err Failed (constant_value c R ''Balances'' ''ExistentialDeposit''))) (\<lambda>_.
     apure (Ok ())))))"

text \<open>One token and a parsed amount, unwrapped; the over-precise amount may fail as it likes.\<close>

definition demonstrate_amounts :: "('w, 'v, 'e, 'p, 'h, 'b) client \<Rightarrow> unit option" where
  "demonstrate_amounts c =
     (case client_one_token c of
        None \<Rightarrow> None
      | Some one \<Rightarrow>
          (case client_parse_amount c ''1.5'' of Inl e \<Rightarrow> None | Inr v \<Rightarrow> Some ()))"

definition maybe_submit ::
  "'v scale_lib \<Rightarrow> hex_lib \<Rightarrow> ('w, (sdk_error + 'b) \<times> mode) timer \<Rightarrow> (str \<Rightarrow> str option)
     \<Rightarrow> ('w, 'v, 'e, 'p, 'h, 'b) client \<Rightarrow> 'w \<Rightarrow> (demo_error + unit) \<times> 'w" where
  "maybe_submit V H timer env c w =
     (if client_account c = None then (Ok (), w)
      else if \<not> submitting env then (Ok (), w)
      else (case staking_chill V H timer c w of
              (Inl e, c', w') \<Rightarrow> (Err (Failed e), w')
            | (Inr receipt, c', w') \<Rightarrow> (Ok (), w')))"

text \<open>\<open>main\<close>: the environment is that of the connection, so one set of libraries serves both.\<close>

definition client_demo ::
  "('kp, 'm, 'j) signer_lib \<Rightarrow> (str \<Rightarrow> bool) \<Rightarrow> 'v libs \<Rightarrow> ('w, 'v, 'e, 'p, 'h, 'b) connector
     \<Rightarrow> ('w, 'v, 'e, 'd) reads \<Rightarrow> ('w, (sdk_error + 'b) \<times> mode) timer \<Rightarrow> 'w
     \<Rightarrow> (demo_error + unit) option \<times> 'w" where
  "client_demo L uni E K R timer w =
     (case abind (apure (read_key (api_key_parse (l_hex E) L uni) (l_env E) KEY_VARS)) (\<lambda>key.
             amap_err Failed
              (case key of
                 Some k \<Rightarrow> connect_with_api_key L E K (client_demo_config (l_env E)) k
               | None \<Rightarrow> connect E K (client_demo_config (l_env E)))) w of
        (Inl e, w1) \<Rightarrow> (Some (Err e), w1)
      | (Inr c, w1) \<Rightarrow>
          (case read_state (l_values E) c R w1 of
             (Inl e, w2) \<Rightarrow> (Some (Err e), w2)
           | (Inr _, w2) \<Rightarrow>
               (case demonstrate_amounts c of
                  None \<Rightarrow> (None, w2)
                | Some _ \<Rightarrow>
                    (case maybe_submit (l_values E) (l_hex E) timer (l_env E) c w2 of
                       (r, w3) \<Rightarrow> (Some r, w3)))))"

section \<open>The delegated program\<close>

definition ABSENT_DEPLOYMENT :: u128 where
  "ABSENT_DEPLOYMENT = - 1"

definition delegated_demo_config :: "(str \<Rightarrow> str option) \<Rightarrow> matter_config" where
  "delegated_demo_config env =
     (case env ''MATTER_RPC_URL'' of
        Some url \<Rightarrow> for_url url
      | None \<Rightarrow> for_network (demo_network env))
     \<lparr>mc_confirm_mainnet := env ''MATTER_CONFIRM'' = Some ''yes''\<rparr>"

record grant =
  g_principal :: account_id
  can_write_deployments :: bool

definition describe_grant :: "('w, 'v, 'e, 'p, 'h, 'b) client \<Rightarrow> demo_error + grant" where
  "describe_grant c =
     (case c_mode c of
        Direct \<Rightarrow> Err (ResolvedDirect (chain_name (c_properties c)))
      | Delegated who scopes \<Rightarrow>
          Ok \<lparr>g_principal = who, can_write_deployments = contains scopes Deployments Write\<rparr>)"

text \<open>The client is shared with the calls, so its refreshed mode goes on to the next step.\<close>

definition refusals_that_never_reach_the_chain ::
  "'v scale_lib \<Rightarrow> hex_lib \<Rightarrow> ('w, (sdk_error + 'b) \<times> mode) timer \<Rightarrow> ('w, 'v, 'e, 'p, 'h, 'b) client \<Rightarrow> 'w
     \<Rightarrow> (demo_error + unit) \<times> ('w, 'v, 'e, 'p, 'h, 'b) client \<times> 'w" where
  "refusals_that_never_reach_the_chain V H timer c w =
     (case tx V H timer c ''Balances'' ''transfer_all'' [v_bool V False] w of
        (Inl (NeverAdmitted pallet call), c1, w1) \<Rightarrow>
          (case tx V H timer c1 ''Volumes'' ''retire_volume'' [v_u128 V 1] w1 of
             (_, c2, w2) \<Rightarrow> (Ok (), c2, w2))
      | (other, c1, w1) \<Rightarrow> (Err (NotRefused other), c1, w1))"

definition a_wrapped_write ::
  "'v scale_lib \<Rightarrow> hex_lib \<Rightarrow> ('w, (sdk_error + 'b) \<times> mode) timer \<Rightarrow> ('w, 'v, 'e, 'p, 'h, 'b) client
     \<Rightarrow> grant \<Rightarrow> 'w \<Rightarrow> (demo_error + unit) \<times> ('w, 'v, 'e, 'p, 'h, 'b) client \<times> 'w" where
  "a_wrapped_write V H timer c g w =
     (if \<not> can_write_deployments g then (Ok (), c, w)
      else
       (case tx V H timer c ''Jobs'' ''cancel_deployment'' [v_u128 V ABSENT_DEPLOYMENT] w of
          (r, c', w') \<Rightarrow>
            (case r of
               Inl (Dispatch pallet call detail) \<Rightarrow> Ok ()
             | Inl KeyRevoked \<Rightarrow> Err RevokedMeanwhile
             | Inl (Unsponsored who pallet call) \<Rightarrow> Err (NobodyPays who)
             | Inl other \<Rightarrow> Err (Unexpected other)
             | Inr receipt \<Rightarrow> Ok (), c', w')))"

definition delegated_demo ::
  "('kp, 'm, 'j) signer_lib \<Rightarrow> (str \<Rightarrow> bool) \<Rightarrow> 'v libs \<Rightarrow> ('w, 'v, 'e, 'p, 'h, 'b) connector
     \<Rightarrow> ('w, (sdk_error + 'b) \<times> mode) timer \<Rightarrow> 'w \<Rightarrow> (demo_error + unit) \<times> 'w" where
  "delegated_demo L uni E K timer =
     abind (apure (ok_or NoKey (l_env E ''MATTER_API_KEY''))) (\<lambda>raw.
     abind (apure (map_err (BadKey ''MATTER_API_KEY'') (api_key_parse (l_hex E) L uni raw))) (\<lambda>key.
     abind (amap_err Failed (connect_with_api_key L E K (delegated_demo_config (l_env E)) key)) (\<lambda>c.
     abind (apure (describe_grant c)) (\<lambda>g.
     if \<not> submitting (l_env E) then apure (Ok ())
     else (\<lambda>w.
       (case refusals_that_never_reach_the_chain (l_values E) (l_hex E) timer c w of
          (Inl e, c1, w1) \<Rightarrow> (Err e, w1)
        | (Inr _, c1, w1) \<Rightarrow>
            (case a_wrapped_write (l_values E) (l_hex E) timer c1 g w1 of (r, c2, w2) \<Rightarrow> (r, w2))))))))"

section \<open>Properties\<close>

lemma retire_volume_needs: "required_scopes V ''Volumes'' ''retire_volume'' args = Some (write_scope Volumes)"
  by (simp add: required_scopes_def)

lemma transfer_all_refused: "required_scopes V ''Balances'' ''transfer_all'' args = None"
  by (simp add: required_scopes_def)

text \<open>
  C17. The delegated program's first promise holds for every scoped key: moving the balance is
  refused as never admitted, so the step ends well, and unless the key holds \<open>volumes:w\<close> the
  second call is refused locally as well, and neither the chain nor the client was touched.
\<close>

theorem refusals_stay_local:
  "fst (refusals_that_never_reach_the_chain V H timer (acting_for c s who scopes) w) = Ok () \<and>
   (contains scopes Volumes Write \<or>
    refusals_that_never_reach_the_chain V H timer (acting_for c s who scopes) w =
      (Ok (), acting_for c s who scopes, w))"
proof -
  note none = delegated_tx_refused [where H = H and timer = timer and c = c and s = s and who = who
      and scopes = scopes, OF transfer_all_refused [of V]]
  have "contains scopes Volumes Write \<or>
     tx V H timer (acting_for c s who scopes) ''Volumes'' ''retire_volume'' [v_u128 V 1] w =
       (Err (NotPermitted ''Volumes'' ''retire_volume'' (write_scope Volumes) scopes), acting_for c s who scopes, w)"
    by (rule facade_needs) (rule retire_volume_needs)
  then show ?thesis
    by (auto simp: refusals_that_never_reach_the_chain_def none split: prod.splits)
qed

text \<open>
  The client program runs to its end only on chains with 1 to 38 decimals: its amounts are
  unwrapped, so it panics when the chain reports none, where one and a half tokens does not
  exist, or more than a \<open>u128\<close> can hold.
\<close>

lemma one_and_a_half: "decimal_text (without_prefix ''+'' (trim ''1.5'')) ''1'' ''5''"
  by code_simp

theorem amounts_demo_needs_decimals:
  "demonstrate_amounts c \<noteq> None \<longleftrightarrow>
     0 < token_decimals_effective (c_properties c) \<and> token_decimals_effective (c_properties c) \<le> 38"
proof -
  let ?d = "token_decimals_effective (c_properties c)"
  have bounds: "0 < ?d \<longleftrightarrow> 1 \<le> unat ?d" "?d \<le> 38 \<longleftrightarrow> unat ?d \<le> 38"
    by (simp_all add: word_less_nat_alt word_le_nat_alt Suc_le_eq)
  show ?thesis
  proof (cases "unat ?d \<le> 38")
    case False
    then have "parse_amount ''1.5'' ?d = Err (bad_amount ''chain reports more decimals than a u128 can hold'')"
      by (simp add: parse_amount_def MAX_DECIMALS_def Let_def)
    with False show ?thesis
      by (simp add: demonstrate_amounts_def client_parse_amount_def bounds split: option.splits)
  next
    case True
    have p: "(10 :: nat) ^ unat ?d \<le> 10 ^ 38" using True by (rule power_increasing) simp
    then have one: "client_one_token c \<noteq> None"
      by (auto simp: client_one_token_def one_token_def)
    have v: "digits_value (''1'' @ ''5'') = 15" by code_simp
    have "(10 :: nat) ^ (unat ?d - 1) \<le> 10 ^ 37" using True by (intro power_increasing) simp_all
    then have "15 * (10 :: nat) ^ (unat ?d - 1) < 2 ^ 128" by simp
    then have "(\<exists>a. client_parse_amount c ''1.5'' = Ok a) \<longleftrightarrow> 1 \<le> unat ?d"
      unfolding client_parse_amount_def parse_amount_decimal [OF one_and_a_half True] v by auto
    with one True show ?thesis
      by (cases "client_parse_amount c ''1.5''") (auto simp: demonstrate_amounts_def bounds)
  qed
qed

lemma maybe_submit_default: "\<not> submitting env \<Longrightarrow> maybe_submit V H timer env c w = (Ok (), w)"
  by (simp add: maybe_submit_def)

text \<open>
  Without \<open>MATTER_SUBMIT=yes\<close> both programs only read: no call is built, signed or submitted,
  so their result does not depend on how long a submission may take or on what it would answer.
\<close>

theorem demos_read_by_default:
  assumes "\<not> submitting (l_env E)"
  shows "client_demo L uni E K R timer w = client_demo L uni E K R timer' w \<and>
    delegated_demo L uni E K timer w = delegated_demo L uni E K timer' w"
proof
  show "client_demo L uni E K R timer w = client_demo L uni E K R timer' w"
    using assms by (auto simp: client_demo_def maybe_submit_default split: prod.splits sum.splits option.splits)
  show "delegated_demo L uni E K timer w = delegated_demo L uni E K timer' w"
    using assms by (simp add: delegated_demo_def)
qed

text \<open>
  The verdict on the wrapped write: it ends well exactly when the call went through or failed on
  chain, or when there was nothing to try; a revoked key, an unpaid fee and everything else
  are its own errors.
\<close>

theorem wrapped_write_verdict:
  "fst (a_wrapped_write V H timer c g w) = Ok () \<longleftrightarrow>
     \<not> can_write_deployments g \<or>
     (case fst (tx V H timer c ''Jobs'' ''cancel_deployment'' [v_u128 V ABSENT_DEPLOYMENT] w) of
        Inl e \<Rightarrow> (\<exists>p call d. e = Dispatch p call d)
      | Inr _ \<Rightarrow> True)"
  by (auto simp: a_wrapped_write_def split: prod.splits sum.splits sdk_error.splits)

end
