(* ===== verification/Local_Committee.thy ===== *)
theory Local_Committee
  imports Quorum Calls
begin

text \<open>
  \<open>examples/rust/src/main.rs\<close>: the demo that seals a secret and recovers it from a committee in
  the same process. Its second half plays the nodes: the key generation, the table of
  endpoints, and a \<open>Transport\<close> whose \<open>partial_decrypt\<close> computes the answer of a node with the
  cryptographic library, a parameter as everywhere. A panic (\<open>unwrap\<close>, \<open>expect\<close>, an index out of
  range, the last assertion) is the value \<open>None\<close>; terminal output is left out.
\<close>

section \<open>The library of a node\<close>

record 'o dkg_output =
  o_joint_pk :: 'o
  o_key_share :: 'o
  o_share_commitment :: 'o

text \<open>What \<open>matter_crypto\<close> and \<open>matter_kgc_config\<close> offer to a node; what draws randomness acts on \<open>'w\<close>.\<close>

record ('w, 'o) dkg_lib =
  crt_gen :: 'o
  derive_shared_a :: "bytes \<Rightarrow> u32 \<Rightarrow> 'o"
  generate_contribution :: "'o \<Rightarrow> u64 \<Rightarrow> u64 list \<Rightarrow> nat \<Rightarrow> 'o \<Rightarrow> 'w \<Rightarrow> 'o \<times> 'w"
  contribution_nonce :: "'o \<Rightarrow> 'o"
  commit_to_contribution :: "'o \<Rightarrow> bytes \<Rightarrow> 'o \<Rightarrow> 'o"
  process_contributions ::
    "'o \<Rightarrow> u64 \<Rightarrow> u64 list \<Rightarrow> 'o list \<Rightarrow> 'o list \<Rightarrow> bytes \<Rightarrow> 'o \<Rightarrow> nat \<Rightarrow> 'w \<Rightarrow> (str + 'o dkg_output) \<times> 'w"
  bincode_capsule :: "bytes \<Rightarrow> str + 'o"
  decode_tagged :: "bytes \<Rightarrow> str + 'o"
  zkp_aware_smudge_bits :: "nat \<Rightarrow> nat"
  produce_proven_partial ::
    "'o \<Rightarrow> 'o \<Rightarrow> 'o \<Rightarrow> 'o \<Rightarrow> 'o \<Rightarrow> 'o \<Rightarrow> 'o \<Rightarrow> 'o \<Rightarrow> nat \<Rightarrow> bytes \<Rightarrow> bytes \<Rightarrow> u64 \<Rightarrow> 'w
      \<Rightarrow> (str + 'o \<times> 'o) \<times> 'w"

section \<open>Key generation\<close>

definition DEMO_N :: nat where "DEMO_N = 5"
definition DEMO_T :: nat where "DEMO_T = 3"
definition DEMO_EPOCH :: u32 where "DEMO_EPOCH = 0"
definition DEMO_SEED :: bytes where "DEMO_SEED = str_bytes ''matter-sdk-example-committee''"

text \<open>\<open>1..=N\<close>.\<close>

definition demo_points :: "u64 list" where
  "demo_points = map word_of_nat [1..<DEMO_N + 1]"

fun contribute_all ::
  "('w, 'o) dkg_lib \<Rightarrow> 'o \<Rightarrow> u64 list \<Rightarrow> nat \<Rightarrow> 'o \<Rightarrow> u64 list \<Rightarrow> 'w \<Rightarrow> 'o list \<times> 'w" where
  "contribute_all D ctx points t sa [] w = ([], w)"
| "contribute_all D ctx points t sa (pt # pts) w =
     (let (c, w1) = generate_contribution D ctx pt points t sa w;
          (cs, w2) = contribute_all D ctx points t sa pts w1 in (c # cs, w2))"

definition prior_commitments :: "('w, 'o) dkg_lib \<Rightarrow> bytes \<Rightarrow> 'o list \<Rightarrow> 'o list" where
  "prior_commitments D ssid cs = map (\<lambda>c. commit_to_contribution D c ssid (contribution_nonce D c)) cs"

fun finalise_all ::
  "('w, 'o) dkg_lib \<Rightarrow> 'o \<Rightarrow> u64 list \<Rightarrow> 'o list \<Rightarrow> bytes \<Rightarrow> 'o \<Rightarrow> nat \<Rightarrow> u64 list \<Rightarrow> 'w
     \<Rightarrow> ('o dkg_output list \<times> 'w) option" where
  "finalise_all D ctx points cs ssid sa t [] w = Some ([], w)"
| "finalise_all D ctx points cs ssid sa t (pt # pts) w =
     (case process_contributions D ctx pt points cs (prior_commitments D ssid cs) ssid sa t w of
        (Inl e, w1) \<Rightarrow> None
      | (Inr out, w1) \<Rightarrow>
          map_option (\<lambda>(outs, w2). (out # outs, w2)) (finalise_all D ctx points cs ssid sa t pts w1))"

definition demo_ssid :: bytes where
  "demo_ssid = DEMO_SEED @ str_bytes ''/ssid'' @ to_be 4 (unat DEMO_EPOCH)"

definition run_dkg :: "('w, 'o) dkg_lib \<Rightarrow> 'o \<Rightarrow> 'w \<Rightarrow> ('o dkg_output list \<times> 'w) option" where
  "run_dkg D ctx w =
     (let shared_a = derive_shared_a D DEMO_SEED DEMO_EPOCH;
          (contributions, w1) = contribute_all D ctx demo_points DEMO_T shared_a demo_points w in
      finalise_all D ctx demo_points contributions demo_ssid shared_a DEMO_T demo_points w1)"

section \<open>The committee\<close>

record 'o local_committee =
  lc_ctx :: 'o
  lc_outputs :: "'o dkg_output list"
  lc_shared_a :: 'o
  lc_capsule :: 'o
  lc_capsule_proof :: 'o
  lc_binding_id :: bytes
  lc_secret_id :: u128
  lc_by_endpoint :: "(str \<times> u64) list"

text \<open>\<open>Result::unwrap\<close> and \<open>expect\<close>; and indexing a vector.\<close>

definition unwrap :: "'e + 'a \<Rightarrow> 'a option" where
  "unwrap r = (case r of Inl e \<Rightarrow> None | Inr x \<Rightarrow> Some x)"

definition index_at :: "'a list \<Rightarrow> nat \<Rightarrow> 'a option" where
  "index_at xs i = (if i < length xs then Some (xs ! i) else None)"

definition demo_endpoint :: "u64 \<Rightarrow> str" where
  "demo_endpoint p = ''http://node-'' @ show_nat (unat p)"

definition local_committee_new ::
  "('w, 'o) dkg_lib \<Rightarrow> 'o \<Rightarrow> 'o dkg_output list \<Rightarrow> 'o \<Rightarrow> bytes \<Rightarrow> bytes \<Rightarrow> bytes \<Rightarrow> u128
     \<Rightarrow> 'o local_committee option" where
  "local_committee_new D ctx outputs sa capsule_bytes proof_bytes bid secret_id =
     Option.bind (unwrap (bincode_capsule D capsule_bytes)) (\<lambda>cap.
     Option.bind (unwrap (decode_tagged D proof_bytes)) (\<lambda>cap_proof.
     Some \<lparr>lc_ctx = ctx, lc_outputs = outputs, lc_shared_a = sa, lc_capsule = cap,
           lc_capsule_proof = cap_proof, lc_binding_id = bid, lc_secret_id = secret_id,
           lc_by_endpoint = map (\<lambda>p. (demo_endpoint p, p)) demo_points\<rparr>))"

definition local_node :: "'o kgc \<Rightarrow> 'o local_committee \<Rightarrow> u64 \<Rightarrow> node option" where
  "local_node K lc p =
     Option.bind (index_at (lc_outputs lc) (unat (p - 1))) (\<lambda>out.
     Option.bind (unwrap (bincode_ser K (o_share_commitment out))) (\<lambda>bs.
     Some \<lparr>n_index = p, n_endpoint = demo_endpoint p, share_commitment = bs\<rparr>))"

definition local_nodes :: "'o kgc \<Rightarrow> 'o local_committee \<Rightarrow> node list option" where
  "local_nodes K lc = traverse_opt (local_node K lc) demo_points"

text \<open>\<open>Transport for LocalCommittee\<close>. Of an answer, the fields the SDK reads.\<close>

definition local_health :: "str \<Rightarrow> 'w \<Rightarrow> (sdk_error + health) \<times> 'w" where
  "local_health endpoint w =
     (Ok \<lparr>h_status = ''active'', h_epoch = DEMO_EPOCH, h_protocol = 2\<rparr>, w)"

definition local_answer ::
  "'o kgc \<Rightarrow> ('w, 'o) dkg_lib \<Rightarrow> hex_lib \<Rightarrow> 'o local_committee \<Rightarrow> str \<Rightarrow> pd_request \<Rightarrow> 'w
     \<Rightarrow> (pd_response \<times> 'w) option" where
  "local_answer K D H lc endpoint rq w =
     Option.bind (map_of (lc_by_endpoint lc) endpoint) (\<lambda>point.
     let lambda = lagrange_coefficient K point (q_subset rq);
         smudge = zkp_aware_smudge_bits D (length (q_subset rq)) in
     Option.bind (index_at (lc_outputs lc) (unat (point - 1))) (\<lambda>out.
     let (r, w1) = produce_proven_partial D (lc_ctx lc) (o_joint_pk out) (o_key_share out) lambda
           (lc_capsule lc) (lc_capsule_proof lc) (lc_shared_a lc) (o_share_commitment out) smudge
           (lc_binding_id lc) (u128_to_be_bytes (lc_secret_id lc)) (ucast DEMO_EPOCH) w in
     Option.bind (unwrap r) (\<lambda>(part, pf).
     Option.bind (unwrap (bincode_ser K part)) (\<lambda>part_bytes.
     Option.bind (unwrap (bincode_ser K pf)) (\<lambda>proof_bytes.
     Some (\<lparr>r_partial = to_0x H part_bytes, r_proof = to_0x H proof_bytes,
            r_served_epoch = DEMO_EPOCH\<rparr>, w1))))))"

text \<open>
  A panic of a node unwinds through \<open>decrypt\<close> and ends the program. In the environment it is a
  flag beside the world: once set, whatever the remaining steps compute is discarded.
\<close>

definition local_transport ::
  "'o kgc \<Rightarrow> ('w, 'o) dkg_lib \<Rightarrow> hex_lib \<Rightarrow> 'o local_committee \<Rightarrow> ('w \<times> bool) transport" where
  "local_transport K D H lc =
     \<lparr>t_health = local_health,
      t_partial_decrypt = (\<lambda>endpoint rq (w, panicked).
        case local_answer K D H lc endpoint rq w of
          None \<Rightarrow> (Err (Transport endpoint ''panicked''), (w, True))
        | Some (resp, w1) \<Rightarrow> (Ok resp, (w1, panicked)))\<rparr>"

definition beside_flag :: "'w picker \<Rightarrow> ('w \<times> bool) picker" where
  "beside_flag pick n k = (\<lambda>(w, panicked). case pick n k w of (is, w1) \<Rightarrow> (is, (w1, panicked)))"

section \<open>The demo\<close>

definition DEMO_PLAINTEXT :: bytes where
  "DEMO_PLAINTEXT = str_bytes (''DATABASE_URL=postgres://prod'' @ [CHR 0x0A] @ ''API_KEY=swordfish'')"

definition DEMO_SECRET_ID :: u128 where
  "DEMO_SECRET_ID = 0xc0ffee"

definition demo_request :: "encrypted_secret \<Rightarrow> bytes \<Rightarrow> node list \<Rightarrow> decrypt_request" where
  "demo_request env shared_a_bytes nodes =
     \<lparr>d_secret_id = DEMO_SECRET_ID, d_epoch = DEMO_EPOCH, d_binding_id = binding_id env,
      d_aad = aad_as_bytes EnvV1, d_capsule = capsule env, d_ct = ct env,
      d_shared_a = shared_a_bytes, d_block_hash = replicate 32 0x11, d_threshold = DEMO_T,
      d_nodes = nodes\<rparr>"

text \<open>The last step: \<open>decrypt\<close>, its \<open>expect\<close>, and the assertion.\<close>

definition demo_recover ::
  "'o kgc \<Rightarrow> ('w, 'o) dkg_lib \<Rightarrow> hex_lib \<Rightarrow> ('w \<times> bool) signer \<Rightarrow> 'w picker \<Rightarrow> 'o local_committee
     \<Rightarrow> decrypt_request \<Rightarrow> 'w \<Rightarrow> 'w option" where
  "demo_recover K D H S pick lc req w =
     (case decrypt K H (local_transport K D H lc) S (beside_flag pick) req (w, False) of
        (r, (w1, panicked)) \<Rightarrow>
          if panicked then None
          else Option.bind (unwrap r) (\<lambda>recovered.
                 if expose recovered = DEMO_PLAINTEXT then Some w1 else None))"

text \<open>\<open>main\<close>: the arguments it would submit, and the world it leaves.\<close>

definition local_demo ::
  "'o kgc \<Rightarrow> ('w, 'o) dkg_lib \<Rightarrow> hex_lib \<Rightarrow> ('kp, 'm, 'j) signer_lib \<Rightarrow> 'w picker \<Rightarrow> (nat \<Rightarrow> bytes) \<Rightarrow> 'w
     \<Rightarrow> (store_secret \<times> 'w) option" where
  "local_demo K D H L pick fill w =
     (let ctx = crt_gen D in
      Option.bind (run_dkg D ctx w) (\<lambda>(outputs, w1).
      let shared_a = derive_shared_a D DEMO_SEED DEMO_EPOCH in
      Option.bind (index_at outputs 0) (\<lambda>first.
      Option.bind (unwrap (bincode_ser K (o_joint_pk first))) (\<lambda>joint_pk.
      Option.bind (unwrap (encrypt K fill joint_pk DEMO_EPOCH DEMO_PLAINTEXT (aad_as_bytes EnvV1) None)) (\<lambda>env.
      let store = store_secret_new env DEMO_EPOCH (str_bytes ''prod-env'') EnvV1 in
      Option.bind (local_committee_new D ctx outputs shared_a (capsule env) (proof_blob env)
                     (binding_id env) DEMO_SECRET_ID) (\<lambda>committee.
      Option.bind (local_nodes K committee) (\<lambda>nodes.
      Option.bind (unwrap (bincode_ser K shared_a)) (\<lambda>shared_a_bytes.
      Option.bind (unwrap (dev_signer_from_seed L (replicate 32 42))) (\<lambda>key.
      Option.bind (demo_recover K D H (dev_signer K H L key) pick committee
                     (demo_request env shared_a_bytes nodes) w1) (\<lambda>w2.
      Some (store, w2)))))))))))"


section \<open>What the library promises\<close>

text \<open>
  A committee of the library: distinct nonzero points, at least a threshold of them, and one
  honest contribution of each; what one of its members ends with.
\<close>

definition contributed ::
  "('w, 'o) dkg_lib \<Rightarrow> u64 list \<Rightarrow> nat \<Rightarrow> bytes \<Rightarrow> u32 \<Rightarrow> 'o list \<Rightarrow> bool" where
  "contributed D points t seed ep cs \<longleftrightarrow>
     distinct points \<and> 0 \<notin> set points \<and> 0 < t \<and> t \<le> length points \<and>
     list_all2 (\<lambda>p c. \<exists>w w'.
       generate_contribution D (crt_gen D) p points t (derive_shared_a D seed ep) w = (c, w')) points cs"

definition finalised ::
  "('w, 'o) dkg_lib \<Rightarrow> u64 list \<Rightarrow> nat \<Rightarrow> bytes \<Rightarrow> u32 \<Rightarrow> bytes \<Rightarrow> 'o list \<Rightarrow> u64 \<Rightarrow> 'o dkg_output \<Rightarrow> bool" where
  "finalised D points t seed ep ssid cs p out \<longleftrightarrow>
     (\<exists>w w'. process_contributions D (crt_gen D) p points cs (prior_commitments D ssid cs) ssid
        (derive_shared_a D seed ep) t w = (Ok out, w'))"

text \<open>An object that is sent as bytes and read back by \<open>dec\<close>, within the limit of the decoders.\<close>

definition transmits :: "'o kgc \<Rightarrow> (bytes \<Rightarrow> str + 'o) \<Rightarrow> 'o \<Rightarrow> bool" where
  "transmits K dec x \<longleftrightarrow>
     (\<exists>bs. bincode_ser K x = Ok bs \<and> dec bs = Ok x \<and> length bs \<le> MAX_DECODE_BYTES)"

text \<open>Key generation among honest members finishes, with one joint key and objects that encode.\<close>

definition dkg_law :: "'o kgc \<Rightarrow> ('w, 'o) dkg_lib \<Rightarrow> bool" where
  "dkg_law K D \<longleftrightarrow>
     (\<forall>seed ep. transmits K (strict_shared_a K) (derive_shared_a D seed ep)) \<and>
     (\<forall>points t seed ep ssid cs. contributed D points t seed ep cs \<longrightarrow>
        (\<forall>p \<in> set points. \<forall>w. \<exists>out w'.
           process_contributions D (crt_gen D) p points cs (prior_commitments D ssid cs) ssid
             (derive_shared_a D seed ep) t w = (Ok out, w')) \<and>
        (\<forall>p \<in> set points. \<forall>out. finalised D points t seed ep ssid cs p out \<longrightarrow>
           transmits K (bincode_pk K) (o_joint_pk out) \<and>
           transmits K (strict_commitment K) (o_share_commitment out) \<and>
           (\<forall>q \<in> set points. \<forall>out'. finalised D points t seed ep ssid cs q out' \<longrightarrow>
              o_joint_pk out' = o_joint_pk out)))"

text \<open>
  What is sealed under the joint key of such a committee, by \<open>seal_secret\<close> for its epoch.
\<close>

definition sealed_for ::
  "'o kgc \<Rightarrow> ('w, 'o) dkg_lib \<Rightarrow> u64 list \<Rightarrow> nat \<Rightarrow> bytes \<Rightarrow> u32 \<Rightarrow> bytes \<Rightarrow> 'o list \<Rightarrow> bytes \<Rightarrow> bytes
     \<Rightarrow> bytes \<Rightarrow> 'o \<Rightarrow> 'o \<Rightarrow> sealed_secrets \<Rightarrow> bool" where
  "sealed_for K D points t seed ep ssid cs bid aad pt cap pf sealed \<longleftrightarrow>
     contributed D points t seed ep cs \<and>
     (\<exists>p \<in> set points. \<exists>out. finalised D points t seed ep ssid cs p out \<and>
        seal_secret K (o_joint_pk out) bid aad (ucast ep) pt = (cap, pf, sealed))"

text \<open>Short texts sealed with a default binding id fit the bounds, and every decoder reads them back.\<close>

definition sealing_law :: "'o kgc \<Rightarrow> ('w, 'o) dkg_lib \<Rightarrow> bool" where
  "sealing_law K D \<longleftrightarrow>
     DEFAULT_BINDING_ID_LEN \<le> MAX_BINDING_ID K \<and>
     (\<forall>points t seed ep ssid cs bid aad pt cap pf sealed.
        sealed_for K D points t seed ep ssid cs bid aad pt cap pf sealed \<longrightarrow>
        length bid = DEFAULT_BINDING_ID_LEN \<longrightarrow> length pt \<le> 64 \<longrightarrow> length aad \<le> 64 \<longrightarrow>
        length (nonce sealed) = 12 \<and> 12 + length (ciphertext sealed) \<le> MAX_CIPHERTEXT K \<and>
        (\<exists>bs. bincode_ser K cap = Ok bs \<and> length bs \<le> MAX_CAPSULE K \<and>
           strict_capsule K bs = Ok cap \<and> bincode_capsule D bs = Ok cap) \<and>
        (\<exists>bs. encode_tagged K pf = Ok bs \<and> length bs \<le> MAX_PROOF K \<and> decode_tagged D bs = Ok pf))"

text \<open>
  The answer of a member to a request for a subset, and the entry it makes in an aggregate.
\<close>

definition member_partial ::
  "'o kgc \<Rightarrow> ('w, 'o) dkg_lib \<Rightarrow> bytes \<Rightarrow> u32 \<Rightarrow> 'o dkg_output \<Rightarrow> 'o \<Rightarrow> 'o \<Rightarrow> bytes \<Rightarrow> bytes
     \<Rightarrow> u64 list \<Rightarrow> u64 \<Rightarrow> 'w \<Rightarrow> (str + 'o \<times> 'o) \<times> 'w" where
  "member_partial K D seed ep out cap pf bid sid subs p =
     produce_proven_partial D (crt_gen D) (o_joint_pk out) (o_key_share out) (lagrange_coefficient K p subs)
       cap pf (derive_shared_a D seed ep) (o_share_commitment out) (zkp_aware_smudge_bits D (length subs)) bid sid (ucast ep)"

definition member_entry ::
  "'o kgc \<Rightarrow> ('w, 'o) dkg_lib \<Rightarrow> bytes \<Rightarrow> u32 \<Rightarrow> 'o dkg_output \<Rightarrow> 'o \<Rightarrow> 'o \<Rightarrow> bytes \<Rightarrow> bytes
     \<Rightarrow> u64 list \<Rightarrow> u64 \<Rightarrow> 'o entry \<Rightarrow> bool" where
  "member_entry K D seed ep out cap pf bid sid subs p e \<longleftrightarrow>
     (\<exists>w w'. member_partial K D seed ep out cap pf bid sid subs p w = (Ok (e_partial e, e_proof e), w')) \<and>
     e_commitment e = o_share_commitment out \<and> e_lambda e = lagrange_coefficient K p subs"

text \<open>
  The threshold scheme: for a subset of exactly a threshold of members, each member produces a
  partial that encodes, and the entries of all of them open what was sealed for the committee.
\<close>

definition threshold_law :: "'o kgc \<Rightarrow> ('w, 'o) dkg_lib \<Rightarrow> bool" where
  "threshold_law K D \<longleftrightarrow>
     (\<forall>points t seed ep ssid cs bid aad pt cap pf sealed i subs.
        sealed_for K D points t seed ep ssid cs bid aad pt cap pf sealed \<longrightarrow>
        distinct subs \<longrightarrow> set subs \<subseteq> set points \<longrightarrow> length subs = t \<longrightarrow>
        (\<forall>p \<in> set subs. (\<exists>bs. bincode_ser K (lagrange_coefficient K p subs) = Ok bs) \<and>
           (\<forall>out w. finalised D points t seed ep ssid cs p out \<longrightarrow>
              (\<exists>part pv w'. member_partial K D seed ep out cap pf bid (u128_to_be_bytes i) subs p w = (Ok (part, pv), w') \<and>
                 transmits K (strict_partial K) part \<and> transmits K (strict_partial_proof K) pv))) \<and>
        (\<forall>es. list_all2 (\<lambda>p e. \<exists>out. finalised D points t seed ep ssid cs p out \<and>
             member_entry K D seed ep out cap pf bid (u128_to_be_bytes i) subs p e)
           subs es \<longrightarrow>
           verify_aggregate_open K es cap (derive_shared_a D seed ep) (u128_to_be_bytes i) (ucast ep)
             bid aad sealed = Ok pt))"

lemma threshold_lawD:
  assumes "threshold_law K D"
    and "sealed_for K D points t seed ep ssid cs bid aad pt cap pf sealed"
    and "distinct subs" "set subs \<subseteq> set points" "length subs = t"
  shows "p \<in> set subs \<Longrightarrow> \<exists>bs. bincode_ser K (lagrange_coefficient K p subs) = Ok bs"
    and "p \<in> set subs \<Longrightarrow> finalised D points t seed ep ssid cs p out \<Longrightarrow>
      \<exists>part pv w'. member_partial K D seed ep out cap pf bid (u128_to_be_bytes i) subs p w = (Ok (part, pv), w') \<and>
         transmits K (strict_partial K) part \<and> transmits K (strict_partial_proof K) pv"
    and "list_all2 (\<lambda>p e. \<exists>out. finalised D points t seed ep ssid cs p out \<and>
        member_entry K D seed ep out cap pf bid (u128_to_be_bytes i) subs p e)
        subs es \<Longrightarrow>
      verify_aggregate_open K es cap (derive_shared_a D seed ep) (u128_to_be_bytes i) (ucast ep)
        bid aad sealed = Ok pt"
  using assms(1) [unfolded threshold_law_def, rule_format, OF assms(2-5), of i] by blast+

section \<open>Key generation of the demo\<close>

lemma demo_points_eval: "demo_points = [1, 2, 3, 4, 5]"
  by (simp add: demo_points_def DEMO_N_def upt_rec)

lemma contribute_all_honest:
  "contribute_all D ctx points t sa pts w = (cs, w') \<Longrightarrow>
     list_all2 (\<lambda>p c. \<exists>w w'. generate_contribution D ctx p points t sa w = (c, w')) pts cs"
  by (induction pts arbitrary: w cs) (auto simp: Let_def split: prod.splits)

lemma finalise_all_honest:
  assumes "\<And>p w. p \<in> set pts \<Longrightarrow> \<exists>out w'.
      process_contributions D (crt_gen D) p points cs (prior_commitments D ssid cs) ssid
        (derive_shared_a D seed ep) t w = (Ok out, w')"
  shows "\<exists>outs w'. finalise_all D (crt_gen D) points cs ssid (derive_shared_a D seed ep) t pts w = Some (outs, w') \<and>
    list_all2 (finalised D points t seed ep ssid cs) pts outs"
  using assms
proof (induction pts arbitrary: w)
  case (Cons p pts)
  from Cons.prems obtain out w1 where
    o: "process_contributions D (crt_gen D) p points cs (prior_commitments D ssid cs) ssid
      (derive_shared_a D seed ep) t w = (Ok out, w1)"
    by (metis list.set_intros(1))
  from Cons.IH [of w1] Cons.prems obtain outs w' where
    "finalise_all D (crt_gen D) points cs ssid (derive_shared_a D seed ep) t pts w1 = Some (outs, w')"
    "list_all2 (finalised D points t seed ep ssid cs) pts outs" by auto
  moreover have "finalised D points t seed ep ssid cs p out" using o unfolding finalised_def by blast
  ultimately show ?case using o by simp
qed simp

lemma run_dkg_honest:
  assumes "dkg_law K D"
  shows "\<exists>cs outs w'. run_dkg D (crt_gen D) w = Some (outs, w') \<and>
    contributed D demo_points DEMO_T DEMO_SEED DEMO_EPOCH cs \<and>
    list_all2 (finalised D demo_points DEMO_T DEMO_SEED DEMO_EPOCH demo_ssid cs)
      demo_points outs"
proof -
  let ?sa = "derive_shared_a D DEMO_SEED DEMO_EPOCH"
  obtain cs w1 where c: "contribute_all D (crt_gen D) demo_points DEMO_T ?sa demo_points w = (cs, w1)" by fastforce
  have h: "contributed D demo_points DEMO_T DEMO_SEED DEMO_EPOCH cs"
    using contribute_all_honest [OF c] by (simp add: contributed_def demo_points_eval DEMO_T_def)
  have "\<exists>outs w'. finalise_all D (crt_gen D) demo_points cs demo_ssid ?sa DEMO_T demo_points w1 = Some (outs, w') \<and>
    list_all2 (finalised D demo_points DEMO_T DEMO_SEED DEMO_EPOCH demo_ssid cs) demo_points outs"
    by (rule finalise_all_honest) (use assms h in \<open>simp add: dkg_law_def\<close>)
  with c h show ?thesis by (fastforce simp: run_dkg_def Let_def)
qed


section \<open>The nodes of the demo\<close>

text \<open>
  The committee \<open>main\<close> builds: the members of one key generation, behind their endpoints, with
  the capsule of a text sealed for them.
\<close>

definition demo_committee ::
  "'o kgc \<Rightarrow> ('w, 'o) dkg_lib \<Rightarrow> 'o list \<Rightarrow> bytes \<Rightarrow> bytes \<Rightarrow> sealed_secrets \<Rightarrow> 'o local_committee \<Rightarrow> bool" where
  "demo_committee K D cs aad pt sealed lc \<longleftrightarrow>
     lc_ctx lc = crt_gen D \<and> lc_shared_a lc = derive_shared_a D DEMO_SEED DEMO_EPOCH \<and>
     lc_by_endpoint lc = map (\<lambda>p. (demo_endpoint p, p)) demo_points \<and>
     list_all2 (finalised D demo_points DEMO_T DEMO_SEED DEMO_EPOCH demo_ssid cs)
       demo_points (lc_outputs lc) \<and>
     sealed_for K D demo_points DEMO_T DEMO_SEED DEMO_EPOCH demo_ssid cs (lc_binding_id lc) aad pt
       (lc_capsule lc) (lc_capsule_proof lc) sealed"

definition member_out :: "('w, 'o) dkg_lib \<Rightarrow> 'o list \<Rightarrow> 'o local_committee \<Rightarrow> u64 \<Rightarrow> 'o dkg_output \<Rightarrow> bool" where
  "member_out D cs lc p out \<longleftrightarrow>
     index_at (lc_outputs lc) (unat (p - 1)) = Some out \<and>
     finalised D demo_points DEMO_T DEMO_SEED DEMO_EPOCH demo_ssid cs p out"

lemma demo_member:
  assumes "demo_committee K D cs aad pt sealed lc" and "p \<in> set demo_points"
  shows "\<exists>out. member_out D cs lc p out"
  using assms
  by (auto simp: demo_committee_def member_out_def demo_points_eval list_all2_Cons1 index_at_def)

lemma demo_lookup:
  assumes "demo_committee K D cs aad pt sealed lc" and "p \<in> set demo_points"
  shows "map_of (lc_by_endpoint lc) (demo_endpoint p) = Some p"
  using assms
  by (auto simp: demo_committee_def demo_points_eval demo_endpoint_def show_nat.simps digit_char_def)

lemma demo_committee_sealed:
  "demo_committee K D cs aad pt sealed lc \<Longrightarrow>
     sealed_for K D demo_points DEMO_T DEMO_SEED DEMO_EPOCH demo_ssid cs
       (lc_binding_id lc) aad pt (lc_capsule lc) (lc_capsule_proof lc) sealed"
  "demo_committee K D cs aad pt sealed lc \<Longrightarrow> lc_shared_a lc = derive_shared_a D DEMO_SEED DEMO_EPOCH"
  "demo_committee K D cs aad pt sealed lc \<Longrightarrow> lc_ctx lc = crt_gen D"
  unfolding demo_committee_def by metis+

lemma sealed_for_contributed:
  "sealed_for K D points t seed ep ssid cs bid aad pt cap pf sealed \<Longrightarrow> contributed D points t seed ep cs"
  by (simp add: sealed_for_def)

text \<open>A node answers a request for a subset of a threshold of members that it is in.\<close>

definition entry_of ::
  "'o kgc \<Rightarrow> ('w, 'o) dkg_lib \<Rightarrow> 'o list \<Rightarrow> 'o local_committee \<Rightarrow> u64 list \<Rightarrow> u64 \<Rightarrow> 'o entry \<Rightarrow> bool" where
  "entry_of K D cs lc subs p e \<longleftrightarrow>
     (\<exists>out. member_out D cs lc p out \<and>
        member_entry K D DEMO_SEED DEMO_EPOCH out (lc_capsule lc) (lc_capsule_proof lc)
          (lc_binding_id lc) (u128_to_be_bytes (lc_secret_id lc)) subs p e)"

definition demo_subset :: "u64 list \<Rightarrow> bool" where
  "demo_subset subs \<longleftrightarrow> distinct subs \<and> set subs \<subseteq> set demo_points \<and> length subs = DEMO_T"

lemma node_answers:
  assumes "threshold_law K D" and c: "demo_committee K D cs aad pt sealed lc"
    and s: "demo_subset subs" "p \<in> set subs" and rq: "q_subset rq = subs"
    and out: "member_out D cs lc p out"
  shows "\<exists>pb fb e w'. local_answer K D H lc (demo_endpoint p) rq w =
      Some (\<lparr>r_partial = to_0x H pb, r_proof = to_0x H fb, r_served_epoch = DEMO_EPOCH\<rparr>, w') \<and>
    length pb \<le> MAX_DECODE_BYTES \<and> strict_partial K pb = Ok (e_partial e) \<and>
    length fb \<le> MAX_DECODE_BYTES \<and> strict_partial_proof K fb = Ok (e_proof e) \<and>
    member_entry K D DEMO_SEED DEMO_EPOCH out (lc_capsule lc) (lc_capsule_proof lc)
      (lc_binding_id lc) (u128_to_be_bytes (lc_secret_id lc)) subs p e"
proof -
  have p: "p \<in> set demo_points" using s by (auto simp: demo_subset_def)
  note sealed = demo_committee_sealed(1) [OF c] and sa = demo_committee_sealed(2) [OF c]
  obtain part pv w' where m: "member_partial K D DEMO_SEED DEMO_EPOCH out (lc_capsule lc) (lc_capsule_proof lc)
      (lc_binding_id lc) (u128_to_be_bytes (lc_secret_id lc)) subs p w =
      (Ok (part, pv), w')"
    "transmits K (strict_partial K) part" "transmits K (strict_partial_proof K) pv"
    using threshold_lawD(2) [OF assms(1) sealed _ _ _ s(2)] s(1) out
    unfolding sa demo_subset_def member_out_def by metis
  from m(2,3) obtain pb fb where b: "bincode_ser K part = Ok pb" "strict_partial K pb = Ok part"
    "length pb \<le> MAX_DECODE_BYTES" "bincode_ser K pv = Ok fb" "strict_partial_proof K fb = Ok pv"
    "length fb \<le> MAX_DECODE_BYTES"
    by (auto simp: transmits_def)
  let ?e = "\<lparr>e_partial = part, e_proof = pv, e_commitment = o_share_commitment out,
    e_lambda = lagrange_coefficient K p subs\<rparr>"
  have "local_answer K D H lc (demo_endpoint p) rq w =
      Some (\<lparr>r_partial = to_0x H pb, r_proof = to_0x H fb, r_served_epoch = DEMO_EPOCH\<rparr>, w')"
    using demo_lookup [OF c p] out m(1) b(1,4)
    by (simp add: local_answer_def member_out_def member_partial_def rq unwrap_def Let_def sa
        demo_committee_sealed(3) [OF c])
  moreover have "member_entry K D DEMO_SEED DEMO_EPOCH out (lc_capsule lc) (lc_capsule_proof lc)
      (lc_binding_id lc) (u128_to_be_bytes (lc_secret_id lc)) subs p ?e"
    using m(1) by (auto simp: member_entry_def)
  ultimately show ?thesis using b by (intro exI [of _ pb] exI [of _ fb] exI [of _ ?e] exI [of _ w']) simp
qed

section \<open>The run of the demo\<close>

lemma probe_local:
  "probe K H (local_transport K D H lc) ns w = (if speaks_our_protocol K 2 then ns else [],
     if speaks_our_protocol K 2 then [] else
       map (\<lambda>n. the (probe_verdict K H n (fst (local_health (n_endpoint n) w)))) ns, w)"
  by (induction ns) (auto simp: local_transport_def local_health_def probe_verdict_def is_active_def)

text \<open>A partial input of a round: made by a member for this subset.\<close>

definition made_by ::
  "'o kgc \<Rightarrow> ('w, 'o) dkg_lib \<Rightarrow> 'o list \<Rightarrow> 'o local_committee \<Rightarrow> u64 list \<Rightarrow> partial_input \<Rightarrow> bool" where
  "made_by K D cs lc subs p \<longleftrightarrow>
     (\<exists>e. decode_partial K subs p = Ok e \<and> entry_of K D cs lc subs (point p) e)"

lemma ask_node_local:
  assumes "dkg_law K D" and "threshold_law K D" and "hex_crate H"
    and c: "demo_committee K D cs aad pt sealed lc" and s: "demo_subset subs" "p \<in> set subs"
    and n: "local_node K lc p = Some n" and ep: "d_epoch req = DEMO_EPOCH"
  shows "\<exists>x st'. ask_node K H (local_transport K D H lc) (dev_signer K H L key) req subs n st = (Inr x, st') \<and>
    snd (rs_world st') = snd (rs_world st) \<and> point x = p \<and> made_by K D cs lc subs x"
proof -
  have p: "p \<in> set demo_points" using s by (auto simp: demo_subset_def)
  obtain out where out: "member_out D cs lc p out" using demo_member [OF c p] ..
  then have fin: "finalised D demo_points DEMO_T DEMO_SEED DEMO_EPOCH demo_ssid cs p out"
    and idx: "index_at (lc_outputs lc) (unat (p - 1)) = Some out" by (simp_all add: member_out_def)
  note sealed = demo_committee_sealed(1) [OF c]
  have "transmits K (strict_commitment K) (o_share_commitment out)"
    using assms(1) fin p sealed_for_contributed [OF sealed]
    unfolding dkg_law_def demo_committee_sealed(2) [OF c] by blast
  then obtain cb where cb: "bincode_ser K (o_share_commitment out) = Ok cb"
    "strict_commitment K cb = Ok (o_share_commitment out)" "length cb \<le> MAX_DECODE_BYTES"
    by (auto simp: transmits_def)
  then have n': "n = \<lparr>n_index = p, n_endpoint = demo_endpoint p, share_commitment = cb\<rparr>"
    using n idx by (simp add: local_node_def unwrap_def)
  have "\<exists>bs. bincode_ser K (lagrange_coefficient K p subs) = Ok bs"
    using threshold_lawD(1) [OF assms(2) sealed _ _ _ s(2)] s(1) unfolding demo_subset_def by blast
  then obtain lb where lb: "lagrange_for K p subs = Ok lb" by (auto simp: lagrange_for_def)
  obtain au where au: "api_key_authorize K H L key (signing_request_for req subs n) = Ok au"
    by (simp add: api_key_authorize_def partial_decrypt_auth_def api_key_sign_def)
  obtain w fl where st: "rs_world st = (w, fl)" by fastforce
  have "q_subset (node_request H req subs lb au) = subs" by (simp add: node_request_def)
  from node_answers [OF assms(2) c s this out, of H w] obtain pb fb e w' where
    a: "local_answer K D H lc (demo_endpoint p) (node_request H req subs lb au) w =
      Some (\<lparr>r_partial = to_0x H pb, r_proof = to_0x H fb, r_served_epoch = DEMO_EPOCH\<rparr>, w')"
    and e: "length pb \<le> MAX_DECODE_BYTES" "strict_partial K pb = Ok (e_partial e)"
      "length fb \<le> MAX_DECODE_BYTES" "strict_partial_proof K fb = Ok (e_proof e)"
      "member_entry K D DEMO_SEED DEMO_EPOCH out (lc_capsule lc) (lc_capsule_proof lc)
        (lc_binding_id lc) (u128_to_be_bytes (lc_secret_id lc)) subs p e"
    by blast
  let ?x = "\<lparr>point = p, partial = pb, p_proof = fb, commitment = cb\<rparr>"
  have "ask_node K H (local_transport K D H lc) (dev_signer K H L key) req subs n st =
      (Inr ?x, st\<lparr>rs_world := (w', fl)\<rparr>)"
    using lb au a st ep
    by (simp add: ask_node_def n' dev_signer_def local_transport_def take_response_def
        hex_crate.from_0x_to_0x [OF assms(3)])
  moreover have "made_by K D cs lc subs ?x"
    unfolding made_by_def entry_of_def
    using e cb out by (intro exI [of _ e]) (auto simp: decode_partial_Ok member_entry_def)
  ultimately show ?thesis using st by auto
qed


lemma collect_local:
  assumes "dkg_law K D" and "threshold_law K D" and "hex_crate H"
    and c: "demo_committee K D cs aad pt sealed lc" and s: "demo_subset subs"
    and "d_epoch req = DEMO_EPOCH"
    and "\<forall>n \<in> set ns. n_index n \<in> set subs \<and> local_node K lc (n_index n) = Some n"
  shows "\<exists>ps st'. collect K H (local_transport K D H lc) (dev_signer K H L key) req subs ns acc st =
      (Collected (acc @ ps), st') \<and>
    snd (rs_world st') = snd (rs_world st) \<and> map point ps = map n_index ns \<and>
    list_all (made_by K D cs lc subs) ps"
  using assms(7)
proof (induction ns arbitrary: acc st)
  case (Cons n ns)
  then have n: "n_index n \<in> set subs" "local_node K lc (n_index n) = Some n" by simp_all
  from ask_node_local [OF assms(1-3) c s n assms(6), of L key st] obtain x st1 where
    x: "ask_node K H (local_transport K D H lc) (dev_signer K H L key) req subs n st = (Inr x, st1)"
      "snd (rs_world st1) = snd (rs_world st)" "point x = n_index n" "made_by K D cs lc subs x" by blast
  from Cons.prems Cons.IH [of "acc @ [x]" st1] obtain ps st' where
    "collect K H (local_transport K D H lc) (dev_signer K H L key) req subs ns (acc @ [x]) st1 =
      (Collected ((acc @ [x]) @ ps), st')"
    "snd (rs_world st') = snd (rs_world st1)" "map point ps = map n_index ns"
    "list_all (made_by K D cs lc subs) ps" by auto
  with x show ?case by (intro exI [of _ "x # ps"] exI [of _ st']) simp
qed simp

text \<open>What a subset of a threshold of members sent opens the sealed text.\<close>

lemma made_by_opens:
  assumes "dkg_law K D" and "threshold_law K D" and "sealing_law K D"
    and c: "demo_committee K D cs aad pt sealed lc" and s: "demo_subset (map point ps)"
    and m: "list_all (made_by K D cs lc (map point ps)) ps"
    and "bincode_ser K (lc_shared_a lc) = Ok sab" and "bincode_ser K (lc_capsule lc) = Ok capb"
    and len: "length (lc_binding_id lc) = DEFAULT_BINDING_ID_LEN" "length pt \<le> 64" "length aad \<le> 64"
  shows "open_secret K sab capb (lc_secret_id lc) DEMO_EPOCH (lc_binding_id lc) aad
    (nonce sealed @ ciphertext sealed) ps = Ok (Plaintext pt)"
proof -
  note sealed = demo_committee_sealed(1) [OF c] and sa = demo_committee_sealed(2) [OF c]
  have fit: "length (nonce sealed) = 12 \<and> 12 + length (ciphertext sealed) \<le> MAX_CIPHERTEXT K \<and>
      (\<exists>bs. bincode_ser K (lc_capsule lc) = Ok bs \<and> length bs \<le> MAX_CAPSULE K \<and>
        strict_capsule K bs = Ok (lc_capsule lc) \<and> bincode_capsule D bs = Ok (lc_capsule lc))"
    using assms(3) sealed len unfolding sealing_law_def by blast
  have "\<forall>p \<in> set ps. \<exists>e. decode_partial K (map point ps) p = Ok e \<and>
      entry_of K D cs lc (map point ps) (point p) e"
    using m by (simp add: list_all_iff made_by_def)
  then obtain f where f: "\<forall>p \<in> set ps. decode_partial K (map point ps) p = Ok (f p) \<and>
      entry_of K D cs lc (map point ps) (point p) (f p)" by metis
  define es where "es = map f ps"
  have es: "list_all2 (\<lambda>p e. decode_partial K (map point ps) p = Ok e \<and>
      entry_of K D cs lc (map point ps) (point p) e) ps es"
    using f by (simp add: es_def list_all2_conv_all_nth)
  have "list_all2 (\<lambda>p e. \<exists>out. finalised D demo_points DEMO_T DEMO_SEED DEMO_EPOCH demo_ssid cs p out \<and>
      member_entry K D DEMO_SEED DEMO_EPOCH out (lc_capsule lc) (lc_capsule_proof lc)
        (lc_binding_id lc) (u128_to_be_bytes (lc_secret_id lc)) (map point ps) p e)
      (map point ps) es"
    using es by (auto simp: list_all2_map1 entry_of_def member_out_def elim!: list_all2_mono)
  then have "verify_aggregate_open K es (lc_capsule lc) (lc_shared_a lc) (u128_to_be_bytes (lc_secret_id lc))
      (ucast DEMO_EPOCH) (lc_binding_id lc) aad sealed = Ok pt"
    using threshold_lawD(3) [OF assms(2) sealed] s unfolding sa demo_subset_def by blast
  then have "verify_aggregate_open K es (lc_capsule lc) (lc_shared_a lc) (u128_to_be_bytes (lc_secret_id lc))
      (ucast DEMO_EPOCH) (lc_binding_id lc) aad
      \<lparr>nonce = nonce sealed, ciphertext = ciphertext sealed\<rparr> = Ok pt" by (cases sealed) simp
  moreover have "transmits K (strict_shared_a K) (lc_shared_a lc)"
    using assms(1) unfolding dkg_law_def sa by blast
  moreover have "list_all2 (\<lambda>p e. decode_partial K (map point ps) p = Ok e) ps es"
    using es by (rule list_all2_mono) simp
  moreover have "ps \<noteq> [] \<and> 0 \<notin> point ` set ps \<and> distinct (map point ps)"
    using s by (auto simp: demo_subset_def DEMO_T_def demo_points_eval)
  moreover have "DEFAULT_BINDING_ID_LEN \<le> MAX_BINDING_ID K"
    using assms(3) by (simp add: sealing_law_def)
  ultimately show ?thesis
    using fit assms(7,8) len(1) unfolding open_secret_Ok by (auto simp: transmits_def)
qed


lemma picker_beside_flag: "picker_law pick \<Longrightarrow> picker_law (beside_flag pick)"
  by (auto simp: picker_law_def beside_flag_def split_beta Let_def)

lemma choose_keeps_flag:
  "choose_quorum (beside_flag pick) ns t w = (chosen, w') \<Longrightarrow> snd w' = snd w"
  by (auto simp: choose_quorum_def beside_flag_def split: prod.splits)

lemma local_nodes_members:
  assumes "local_nodes K lc = Some nodes"
  shows "map n_index nodes = demo_points" "\<forall>n \<in> set nodes. local_node K lc (n_index n) = Some n"
proof -
  have "list_all2 (\<lambda>p n. local_node K lc p = Some n) demo_points nodes"
    using assms by (simp add: local_nodes_def traverse_opt_Some)
  moreover have "local_node K lc p = Some n \<Longrightarrow> n_index n = p" for p n
    by (auto simp: local_node_def split: Option.bind_splits)
  ultimately show "map n_index nodes = demo_points" "\<forall>n \<in> set nodes. local_node K lc (n_index n) = Some n"
    by (auto simp: list_all2_conv_all_nth in_set_conv_nth intro!: nth_equalityI) metis+
qed

text \<open>The first round already collects a full quorum, and no node panics.\<close>

lemma decrypt_local:
  assumes "dkg_law K D" and "threshold_law K D" and "hex_crate H" and "picker_law pick"
    and v: "speaks_our_protocol K 2" and c: "demo_committee K D cs aad pt sealed lc"
    and nodes: "local_nodes K lc = Some (d_nodes req)"
    and req: "d_epoch req = DEMO_EPOCH" "d_threshold req = DEMO_T"
  shows "\<exists>ps w'. decrypt K H (local_transport K D H lc) (dev_signer K H L key) (beside_flag pick) req (w, False) =
      (open_collected K req ps, (w', False)) \<and>
    demo_subset (map point ps) \<and> list_all (made_by K D cs lc (map point ps)) ps"
proof -
  let ?T = "local_transport K D H lc" and ?S = "dev_signer K H L key" and ?pick = "beside_flag pick"
  note mem = local_nodes_members [OF nodes]
  have t: "DEMO_T \<le> length (d_nodes req)"
    using arg_cong [OF mem(1), of length] by (simp add: DEMO_T_def demo_points_eval)
  let ?st = "\<lparr>rs_faults = [], rs_votes = [], rs_world = (w, False)\<rparr>"
  obtain chosen w1 where ch: "choose_quorum ?pick (d_nodes req) DEMO_T (w, False) = (chosen, w1)" by (meson surj_pair)
  note q = choose_quorum_sorted [OF picker_beside_flag [OF assms(4)] ch t] choose_quorum_nodes [OF ch]
  have "distinct (map n_index (d_nodes req))" unfolding mem(1) by (simp add: demo_points_eval)
  moreover have "n_index ` set chosen \<subseteq> set demo_points"
    using q(2) arg_cong [OF mem(1), of set] by auto
  ultimately have sub: "demo_subset (map n_index chosen)" using q(1) by (simp add: demo_subset_def)
  from collect_local [OF assms(1-3) c sub req(1), of chosen L key "[]" "?st\<lparr>rs_world := w1\<rparr>"] mem(2) q(2)
  obtain ps st' where co: "collect K H ?T ?S req (map n_index chosen) chosen [] (?st\<lparr>rs_world := w1\<rparr>) =
      (Collected ps, st')"
    and ps: "snd (rs_world st') = snd w1" "map point ps = map n_index chosen"
      "list_all (made_by K D cs lc (map n_index chosen)) ps"
    by auto
  have "quorum_loop K H ?T ?S ?pick req (d_nodes req) ?st = (open_collected K req ps, st')"
    using t ch co req by (subst quorum_loop.simps) simp
  then have "decrypt K H ?T ?S ?pick req (w, False) = (open_collected K req ps, rs_world st')"
    using t v req by (simp add: decrypt_def probe_local)
  moreover have "snd (rs_world st') = False" using ps(1) choose_keeps_flag [OF ch] by simp
  ultimately show ?thesis using ps sub by (metis prod.collapse)
qed

text \<open>A library of another protocol version refuses every node of this committee.\<close>

lemma demo_recover_other_version:
  assumes "\<not> speaks_our_protocol K 2" and "d_threshold req = DEMO_T"
  shows "demo_recover K D H S pick lc req w = None"
  using assms by (simp add: demo_recover_def decrypt_def probe_local DEMO_T_def unwrap_def)

lemma local_demo_other_version:
  assumes "\<not> speaks_our_protocol K 2"
  shows "local_demo K D H L pick fill w = None"
  by (auto simp: local_demo_def demo_request_def Let_def demo_recover_other_version [OF assms]
      split: Option.bind_splits)


lemma demo_recover_completes:
  assumes "dkg_law K D" and "threshold_law K D" and "sealing_law K D" and "hex_crate H" and "picker_law pick"
    and "speaks_our_protocol K 2"
    and c: "demo_committee K D cs (aad_as_bytes EnvV1) DEMO_PLAINTEXT sealed lc"
    and nodes: "local_nodes K lc = Some nodes"
    and b: "bincode_ser K (lc_shared_a lc) = Ok sab" "bincode_ser K (lc_capsule lc) = Ok (capsule env)"
    and env: "binding_id env = lc_binding_id lc" "ct env = nonce sealed @ ciphertext sealed"
      "length (binding_id env) = DEFAULT_BINDING_ID_LEN" "lc_secret_id lc = DEMO_SECRET_ID"
  shows "\<exists>w'. demo_recover K D H (dev_signer K H L key) pick lc (demo_request env sab nodes) w = Some w'"
proof -
  let ?req = "demo_request env sab nodes"
  have r: "d_epoch ?req = DEMO_EPOCH" "d_threshold ?req = DEMO_T" "local_nodes K lc = Some (d_nodes ?req)"
    using nodes by (simp_all add: demo_request_def)
  from decrypt_local [OF assms(1,2,4-6) c r(3,1,2), of L key w] obtain ps w' where
    d: "decrypt K H (local_transport K D H lc) (dev_signer K H L key) (beside_flag pick) ?req (w, False) =
      (open_collected K ?req ps, (w', False))"
    and ps: "demo_subset (map point ps)" "list_all (made_by K D cs lc (map point ps)) ps" by blast
  have "length DEMO_PLAINTEXT \<le> 64" "length (aad_as_bytes EnvV1) \<le> 64"
    by (simp_all add: DEMO_PLAINTEXT_def str_bytes_def aad_as_bytes_def)
  with made_by_opens [OF assms(1-3) c ps b] env
  have "open_collected K ?req ps = Ok (Plaintext DEMO_PLAINTEXT)"
    by (simp add: open_collected_Ok demo_request_def)
  with d show ?thesis by (simp add: demo_recover_def unwrap_def)
qed

text \<open>The seal of the demo: it fits, and \<open>LocalCommittee::new\<close> reads its capsule and proof back.\<close>

lemma demo_seal:
  assumes "sealing_law K D" and fill: "length (fill DEFAULT_BINDING_ID_LEN) = DEFAULT_BINDING_ID_LEN"
    and con: "contributed D demo_points DEMO_T DEMO_SEED DEMO_EPOCH cs"
    and p: "p \<in> set demo_points" "finalised D demo_points DEMO_T DEMO_SEED DEMO_EPOCH demo_ssid cs p out"
    and pk: "bincode_pk K joint_pk = Ok (o_joint_pk out)"
  shows "\<exists>env cap pf sealed.
    encrypt K fill joint_pk DEMO_EPOCH DEMO_PLAINTEXT (aad_as_bytes EnvV1) None = Ok env \<and>
    binding_id env = fill DEFAULT_BINDING_ID_LEN \<and> ct env = nonce sealed @ ciphertext sealed \<and>
    bincode_ser K cap = Ok (capsule env) \<and> bincode_capsule D (capsule env) = Ok cap \<and>
    decode_tagged D (proof_blob env) = Ok pf \<and>
    sealed_for K D demo_points DEMO_T DEMO_SEED DEMO_EPOCH demo_ssid cs (binding_id env) (aad_as_bytes EnvV1)
      DEMO_PLAINTEXT cap pf sealed"
proof -
  let ?bid = "fill DEFAULT_BINDING_ID_LEN"
  obtain cap pf sealed where seal: "seal_secret K (o_joint_pk out) ?bid (aad_as_bytes EnvV1) (ucast DEMO_EPOCH)
      DEMO_PLAINTEXT = (cap, pf, sealed)" using prod_cases3 by blast
  then have s: "sealed_for K D demo_points DEMO_T DEMO_SEED DEMO_EPOCH demo_ssid cs ?bid (aad_as_bytes EnvV1)
      DEMO_PLAINTEXT cap pf sealed"
    using con p unfolding sealed_for_def by blast
  have len: "length DEMO_PLAINTEXT \<le> 64" "length (aad_as_bytes EnvV1) \<le> 64"
    by (simp_all add: DEMO_PLAINTEXT_def str_bytes_def aad_as_bytes_def)
  have fits: "length (nonce sealed) = 12 \<and> 12 + length (ciphertext sealed) \<le> MAX_CIPHERTEXT K \<and>
      (\<exists>bs. bincode_ser K cap = Ok bs \<and> length bs \<le> MAX_CAPSULE K \<and>
         strict_capsule K bs = Ok cap \<and> bincode_capsule D bs = Ok cap) \<and>
      (\<exists>bs. encode_tagged K pf = Ok bs \<and> length bs \<le> MAX_PROOF K \<and> decode_tagged D bs = Ok pf)"
    using assms(1) s fill len unfolding sealing_law_def by blast
  then obtain cb pb where b: "bincode_ser K cap = Ok cb" "length cb \<le> MAX_CAPSULE K"
    "bincode_capsule D cb = Ok cap" "encode_tagged K pf = Ok pb" "length pb \<le> MAX_PROOF K"
    "decode_tagged D pb = Ok pf" by blast
  let ?env = "\<lparr>binding_id = ?bid, capsule = cb, proof_blob = pb, ct = nonce sealed @ ciphertext sealed\<rparr>"
  have "DEMO_PLAINTEXT \<noteq> []" by (simp add: DEMO_PLAINTEXT_def str_bytes_def)
  moreover have "length ?bid \<le> MAX_BINDING_ID K" using assms(1) fill by (simp add: sealing_law_def)
  ultimately have "encrypt K fill joint_pk DEMO_EPOCH DEMO_PLAINTEXT (aad_as_bytes EnvV1) None = Ok ?env"
    using pk seal b fits by (simp add: encrypt_def bound_def Let_def)
  then show ?thesis using b s
    by (intro exI [of _ ?env] exI [of _ cap] exI [of _ pf] exI [of _ sealed]) simp
qed

lemma local_nodes_serve:
  assumes "dkg_law K D" and c: "demo_committee K D cs aad pt sealed lc"
  shows "\<exists>nodes. local_nodes K lc = Some nodes"
proof -
  have con: "contributed D demo_points DEMO_T DEMO_SEED DEMO_EPOCH cs"
    using sealed_for_contributed [OF demo_committee_sealed(1) [OF c]] demo_committee_sealed(2) [OF c] by simp
  have "\<exists>n. local_node K lc p = Some n" if p: "p \<in> set demo_points" for p
  proof -
    obtain out where out: "member_out D cs lc p out" using demo_member [OF c p] ..
    then have "transmits K (strict_commitment K) (o_share_commitment out)"
      using assms(1) con p unfolding dkg_law_def member_out_def by blast
    with out show ?thesis
      by (auto simp: local_node_def member_out_def transmits_def unwrap_def)
  qed
  then have "\<And>p. p \<in> set demo_points \<Longrightarrow> local_node K lc p = Some (the (local_node K lc p))" by force
  from traverse_opt_map [of demo_points "local_node K lc" "\<lambda>p. the (local_node K lc p)", OF this]
  show ?thesis by (simp add: local_nodes_def)
qed

text \<open>Up to \<open>decrypt\<close>: the committee \<open>main\<close> builds, from its key generation and its seal.\<close>

lemma demo_built:
  assumes "dkg_law K D" and "sealing_law K D"
    and fill: "length (fill DEFAULT_BINDING_ID_LEN) = DEFAULT_BINDING_ID_LEN"
  shows "\<exists>cs outs first w1 joint_pk env lc sealed.
    run_dkg D (crt_gen D) w = Some (outs, w1) \<and> index_at outs 0 = Some first \<and>
    bincode_ser K (o_joint_pk first) = Ok joint_pk \<and>
    encrypt K fill joint_pk DEMO_EPOCH DEMO_PLAINTEXT (aad_as_bytes EnvV1) None = Ok env \<and>
    local_committee_new D (crt_gen D) outs (derive_shared_a D DEMO_SEED DEMO_EPOCH) (capsule env)
      (proof_blob env) (binding_id env) DEMO_SECRET_ID = Some lc \<and>
    demo_committee K D cs (aad_as_bytes EnvV1) DEMO_PLAINTEXT sealed lc \<and>
    bincode_ser K (lc_capsule lc) = Ok (capsule env) \<and> binding_id env = lc_binding_id lc \<and>
    ct env = nonce sealed @ ciphertext sealed \<and> length (binding_id env) = DEFAULT_BINDING_ID_LEN \<and>
    lc_secret_id lc = DEMO_SECRET_ID"
proof -
  let ?ctx = "crt_gen D" and ?sa = "derive_shared_a D DEMO_SEED DEMO_EPOCH"
  from run_dkg_honest [OF assms(1), of w] obtain cs outs w1 where
    dkg: "run_dkg D ?ctx w = Some (outs, w1)"
    and con: "contributed D demo_points DEMO_T DEMO_SEED DEMO_EPOCH cs"
    and fin: "list_all2 (finalised D demo_points DEMO_T DEMO_SEED DEMO_EPOCH demo_ssid cs) demo_points outs" by blast
  then obtain first where first: "index_at outs 0 = Some first"
    "finalised D demo_points DEMO_T DEMO_SEED DEMO_EPOCH demo_ssid cs 1 first"
    by (auto simp: demo_points_eval list_all2_Cons1 index_at_def)
  have one: "1 \<in> set demo_points" by (simp add: demo_points_eval)
  obtain joint_pk where pk: "bincode_ser K (o_joint_pk first) = Ok joint_pk" "bincode_pk K joint_pk = Ok (o_joint_pk first)"
    using assms(1) con one first(2) unfolding dkg_law_def transmits_def by blast
  from demo_seal [where fill = fill, OF assms(2) fill con one first(2) pk(2)] obtain env cap pf sealed where
    env: "encrypt K fill joint_pk DEMO_EPOCH DEMO_PLAINTEXT (aad_as_bytes EnvV1) None = Ok env"
      "binding_id env = fill DEFAULT_BINDING_ID_LEN" "ct env = nonce sealed @ ciphertext sealed"
      "bincode_ser K cap = Ok (capsule env)" "bincode_capsule D (capsule env) = Ok cap"
      "decode_tagged D (proof_blob env) = Ok pf"
    and s: "sealed_for K D demo_points DEMO_T DEMO_SEED DEMO_EPOCH demo_ssid cs (binding_id env) (aad_as_bytes EnvV1)
      DEMO_PLAINTEXT cap pf sealed" by blast
  let ?lc = "\<lparr>lc_ctx = ?ctx, lc_outputs = outs, lc_shared_a = ?sa, lc_capsule = cap, lc_capsule_proof = pf,
    lc_binding_id = binding_id env, lc_secret_id = DEMO_SECRET_ID,
    lc_by_endpoint = map (\<lambda>p. (demo_endpoint p, p)) demo_points\<rparr>"
  have "local_committee_new D ?ctx outs ?sa (capsule env) (proof_blob env) (binding_id env) DEMO_SECRET_ID = Some ?lc"
    using env by (simp add: local_committee_new_def unwrap_def)
  moreover have "demo_committee K D cs (aad_as_bytes EnvV1) DEMO_PLAINTEXT sealed ?lc"
    using fin s by (simp add: demo_committee_def)
  ultimately show ?thesis using dkg first(1) pk(1) env fill
    by (intro exI [of _ cs] exI [of _ outs] exI [of _ first] exI [of _ w1] exI [of _ joint_pk] exI [of _ env]
        exI [of _ ?lc] exI [of _ sealed]) simp
qed

section \<open>Property\<close>

text \<open>
  C20. The demo program ends well exactly for the protocol version its nodes announce: with a library
  that keeps its promises (key generation finishes, what is sealed fits, any threshold of members
  opens it), it never panics when the library speaks version 2, and with every other version it
  always does.
\<close>

theorem local_demo_completes:
  assumes "dkg_law K D" and "sealing_law K D" and "threshold_law K D"
    and "hex_crate H" and "picker_law pick" and "from_secret_key L (replicate 32 42) \<noteq> None"
    and "length (fill DEFAULT_BINDING_ID_LEN) = DEFAULT_BINDING_ID_LEN"
  shows "(\<exists>store w'. local_demo K D H L pick fill w = Some (store, w')) \<longleftrightarrow> CRYPTO_PROTOCOL_VERSION K = 2"
proof (cases "CRYPTO_PROTOCOL_VERSION K = 2")
  case False
  then have "\<not> speaks_our_protocol K 2" by (auto simp: speaks_our_protocol_def)
  with False show ?thesis by (simp add: local_demo_other_version)
next
  case True
  then have v: "speaks_our_protocol K 2" by (simp add: speaks_our_protocol_def)
  from demo_built [where fill = fill and w = w, OF assms(1,2,7)] obtain cs outs first w1 joint_pk env lc sealed where
    dkg: "run_dkg D (crt_gen D) w = Some (outs, w1)" "index_at outs 0 = Some first"
      "bincode_ser K (o_joint_pk first) = Ok joint_pk"
    and env: "encrypt K fill joint_pk DEMO_EPOCH DEMO_PLAINTEXT (aad_as_bytes EnvV1) None = Ok env"
      "local_committee_new D (crt_gen D) outs (derive_shared_a D DEMO_SEED DEMO_EPOCH) (capsule env)
        (proof_blob env) (binding_id env) DEMO_SECRET_ID = Some lc"
    and c: "demo_committee K D cs (aad_as_bytes EnvV1) DEMO_PLAINTEXT sealed lc"
    and fits: "bincode_ser K (lc_capsule lc) = Ok (capsule env)" "binding_id env = lc_binding_id lc"
      "ct env = nonce sealed @ ciphertext sealed" "length (binding_id env) = DEFAULT_BINDING_ID_LEN"
      "lc_secret_id lc = DEMO_SECRET_ID" by blast
  obtain nodes where nodes: "local_nodes K lc = Some nodes" using local_nodes_serve [OF assms(1) c] ..
  obtain sab where sab: "bincode_ser K (lc_shared_a lc) = Ok sab"
    using assms(1) unfolding dkg_law_def transmits_def demo_committee_sealed(2) [OF c] by blast
  obtain key where key: "dev_signer_from_seed L (replicate 32 42) = Ok key"
    using assms(6) by (auto simp: dev_signer_from_seed_def from_seed_def)
  from demo_recover_completes [OF assms(1,3,2,4,5) v c nodes sab fits, of L key w1] obtain w2 where
    "demo_recover K D H (dev_signer K H L key) pick lc (demo_request env sab nodes) w1 = Some w2" ..
  then show ?thesis
    using True dkg env nodes sab key demo_committee_sealed(2) [OF c]
    by (simp add: local_demo_def unwrap_def)
qed


section \<open>Witness\<close>

text \<open>
  A transparent committee: the joint key is the threshold, a partial is its own proof, and opening
  wants as many entries as the capsule says.
\<close>

definition kgc_demo :: "bytes kgc" where
  "kgc_demo = kgc_ref
     \<lparr>bincode_pk := Ok, strict_partial := Ok, MAX_CIPHERTEXT := 4096, CRYPTO_PROTOCOL_VERSION := 2,
      verify_aggregate_open := (\<lambda>es cp sa i ep bid aad sealed.
        if length es < unat (hd cp) \<or> (\<exists>e \<in> set es. e_partial e \<noteq> e_proof e)
        then Err (OpenAggregate ''rejected'')
        else if take 1 (ciphertext sealed) = [ucast ep] \<and>
                drop (length (ciphertext sealed) - length aad) (ciphertext sealed) = aad
          then Ok (take (length (ciphertext sealed) - 1 - length aad) (drop 1 (ciphertext sealed)))
          else Err OpenAead)\<rparr>"

definition dkg_demo :: "(nat, bytes) dkg_lib" where
  "dkg_demo =
     \<lparr>crt_gen = [], derive_shared_a = (\<lambda>seed ep. [2]),
      generate_contribution = (\<lambda>ctx p points t sa w. ([ucast p, word_of_nat w], w + 1)),
      contribution_nonce = (\<lambda>c. drop 1 c), commit_to_contribution = (\<lambda>c ssid r. c @ r),
      process_contributions = (\<lambda>ctx p points cs prior ssid sa t w.
        (Ok \<lparr>o_joint_pk = [word_of_nat t], o_key_share = [ucast p], o_share_commitment = [ucast p]\<rparr>, w)),
      bincode_capsule = Ok, decode_tagged = untag kgc_ref, zkp_aware_smudge_bits = (\<lambda>n. n),
      produce_proven_partial = (\<lambda>ctx pk ks la cap pf sa cm n bid i ep w. (Ok ([4], [4]), w + 1))\<rparr>"

lemma dkg_demo_finalised:
  "finalised dkg_demo points t seed ep ssid cs p out \<longleftrightarrow>
     out = \<lparr>o_joint_pk = [word_of_nat t], o_key_share = [ucast p], o_share_commitment = [ucast p]\<rparr>"
  by (auto simp: finalised_def dkg_demo_def)

lemma kgc_demo_transmits:
  "length x \<le> 1 \<Longrightarrow> dec x = Ok x \<Longrightarrow> transmits kgc_demo dec x"
  by (simp add: transmits_def kgc_demo_def kgc_ref_def MAX_DECODE_BYTES_def)

lemma dkg_law_demo: "dkg_law kgc_demo dkg_demo"
  unfolding dkg_law_def dkg_demo_finalised
  by (intro conjI allI impI ballI)
    (auto intro!: kgc_demo_transmits simp: dkg_demo_def, simp_all add: kgc_demo_def kgc_ref_def)

lemma sealed_for_demo:
  "sealed_for kgc_demo dkg_demo points t seed ep ssid cs bid aad pt cap pf sealed \<Longrightarrow>
     cap = [word_of_nat t] \<and> pf = bid \<and>
     sealed = \<lparr>nonce = replicate 12 0, ciphertext = [ucast (ucast ep :: u64)] @ pt @ aad\<rparr>"
  by (auto simp: sealed_for_def dkg_demo_finalised kgc_demo_def kgc_ref_def)

lemma sealing_law_demo: "sealing_law kgc_demo dkg_demo"
  unfolding sealing_law_def
  by (intro conjI allI impI; (drule sealed_for_demo)?)
    (auto simp: kgc_demo_def kgc_ref_def dkg_demo_def DEFAULT_BINDING_ID_LEN_def)

lemma entry_demo: "member_entry K dkg_demo seed ep out cap pf bid sid subs p e \<Longrightarrow> e_partial e = e_proof e"
  by (auto simp: member_entry_def member_partial_def dkg_demo_def)

lemma threshold_law_demo: "threshold_law kgc_demo dkg_demo"
  unfolding threshold_law_def
proof (intro allI impI conjI ballI)
  fix points t seed and ep :: u32 and ssid cs bid aad pt cap pf sealed and i :: u128 and subs es
  assume s: "sealed_for kgc_demo dkg_demo points t seed ep ssid cs bid aad pt
      cap pf sealed" and len: "length subs = t"
    and es: "list_all2 (\<lambda>p e. \<exists>out. finalised dkg_demo points t seed ep ssid cs p out \<and>
      member_entry kgc_demo dkg_demo seed ep out cap pf bid (u128_to_be_bytes i) subs p e) subs es"
  have "\<forall>e \<in> set es. e_partial e = e_proof e"
    using es entry_demo by (fastforce simp: list_all2_conv_all_nth in_set_conv_nth)
  moreover have "unat (word_of_nat t :: u8) \<le> length es"
    using list_all2_lengthD [OF es] len by (simp add: unat_of_nat)
  ultimately show "verify_aggregate_open kgc_demo es cap (derive_shared_a dkg_demo seed ep) (u128_to_be_bytes i)
      (ucast ep) bid aad sealed = Ok pt"
    using sealed_for_demo [OF s] by (simp add: kgc_demo_def not_less [symmetric])
next
  fix subs and p :: u64
  show "\<exists>bs. bincode_ser kgc_demo (lagrange_coefficient kgc_demo p subs) = Ok bs"
    by (simp add: kgc_demo_def kgc_ref_def)
next
  fix seed and ep :: u32 and out cap pf bid sid subs p and w :: nat
  show "\<exists>part pv w'. member_partial kgc_demo dkg_demo seed ep out cap pf bid sid subs p w = (Ok (part, pv), w') \<and>
      transmits kgc_demo (strict_partial kgc_demo) part \<and> transmits kgc_demo (strict_partial_proof kgc_demo) pv"
    by (auto simp: member_partial_def dkg_demo_def intro!: kgc_demo_transmits)
      (simp_all add: kgc_demo_def kgc_ref_def)
qed

theorem local_demo_completes_witness:
  "\<exists>store w'. local_demo kgc_demo dkg_demo hex_ref keys_ref ref_pick (\<lambda>n. replicate n 5) 0 = Some (store, w')"
proof -
  have k: "from_secret_key keys_ref (replicate 32 42) \<noteq> None" by (simp add: keys_ref_def list_all_iff)
  have f: "length (replicate DEFAULT_BINDING_ID_LEN (5 :: u8)) = DEFAULT_BINDING_ID_LEN" by simp
  show ?thesis
    using local_demo_completes [where fill = "\<lambda>n. replicate n 5" and w = 0, OF dkg_law_demo sealing_law_demo threshold_law_demo hexr.hex_crate_axioms
        ref_picker_law k f]
    by (simp add: kgc_demo_def)
qed

end
