(* ===== verification/Ffi_Memory.thy ===== *)
theory Ffi_Memory
  imports Prelude
begin

text \<open>
  The memory side of \<open>crates/matter-sdk-ffi/src/lib.rs\<close>: buffers that cross the C boundary, their
  release, borrowed inputs and the panic guard. The library's memory is a map from addresses to
  live blocks; the allocator is a parameter that returns a fresh address. A step outside the
  documented contract (releasing what is not a live buffer) is undefined behaviour, the value
  \<open>None\<close>. The contents a block has when it goes back to the allocator are recorded.
\<close>

section \<open>Status codes\<close>

definition MSDK_OK :: int where "MSDK_OK = 0"

definition MSDK_ERR_INVALID_ARG :: int where "MSDK_ERR_INVALID_ARG = - 1"

definition MSDK_ERR_CRYPTO :: int where "MSDK_ERR_CRYPTO = - 2"

definition MSDK_ERR_KEY :: int where "MSDK_ERR_KEY = - 3"

definition MSDK_ERR_INTERNAL :: int where "MSDK_ERR_INTERNAL = - 4"

lemmas status_defs = MSDK_OK_def MSDK_ERR_INVALID_ARG_def MSDK_ERR_CRYPTO_def MSDK_ERR_KEY_def
  MSDK_ERR_INTERNAL_def

text \<open>\<open>guard\<close>: the body's code, or the internal error when it panicked (\<open>None\<close>).\<close>

definition guard :: "int option \<times> 's \<Rightarrow> int \<times> 's" where
  "guard r = (case fst r of None \<Rightarrow> MSDK_ERR_INTERNAL | Some code \<Rightarrow> code, snd r)"

section \<open>Buffers\<close>

record buf =
  b_ptr :: nat
  b_len :: nat

definition empty_buf :: buf where
  "empty_buf = \<lparr>b_ptr = 0, b_len = 0\<rparr>"

text \<open>A handle keeps an object of type \<open>'k\<close> alive; a block keeps bytes.\<close>

record 'k memory =
  blocks :: "nat \<Rightarrow> bytes option"
  handles :: "nat \<Rightarrow> 'k option"
  released :: "bytes list"

definition live :: "'k memory \<Rightarrow> nat set" where
  "live h = dom (blocks h) \<union> dom (handles h)"

type_synonym allocator = "nat set \<Rightarrow> nat"

definition allocator_law :: "allocator \<Rightarrow> bool" where
  "allocator_law alloc \<longleftrightarrow> (\<forall>S. finite S \<longrightarrow> alloc S \<notin> S \<and> alloc S \<noteq> 0)"

text \<open>The pointer of an empty boxed slice: aligned and dangling, not null.\<close>

definition DANGLING :: nat where "DANGLING = 1"

definition into_buf :: "allocator \<Rightarrow> bytes \<Rightarrow> 'k memory \<Rightarrow> buf \<times> 'k memory" where
  "into_buf alloc v h =
     (if v = [] then (\<lparr>b_ptr = DANGLING, b_len = 0\<rparr>, h)
      else (\<lparr>b_ptr = alloc (live h), b_len = length v\<rparr>,
            h\<lparr>blocks := (blocks h)(alloc (live h) \<mapsto> v)\<rparr>))"

definition is_block :: "buf \<Rightarrow> bool" where
  "is_block b \<longleftrightarrow> b_ptr b \<noteq> 0 \<and> b_len b \<noteq> 0"

definition wipe :: "buf \<Rightarrow> 'k memory \<Rightarrow> 'k memory option" where
  "wipe b h =
     (if \<not> is_block b then Some h
      else (case blocks h (b_ptr b) of
              Some v \<Rightarrow>
                if b_len b \<le> length v
                then Some (h\<lparr>blocks := (blocks h)(b_ptr b \<mapsto> replicate (b_len b) 0 @ drop (b_len b) v)\<rparr>)
                else None
            | None \<Rightarrow> None))"

text \<open>Dropping the box gives the block, as it is then, back to the allocator.\<close>

definition drop_block :: "buf \<Rightarrow> 'k memory \<Rightarrow> 'k memory option" where
  "drop_block b h =
     (if \<not> is_block b then Some h
      else (case blocks h (b_ptr b) of
              Some v \<Rightarrow>
                if length v = b_len b
                then Some (h\<lparr>blocks := (blocks h)(b_ptr b := None), released := released h @ [v]\<rparr>)
                else None
            | None \<Rightarrow> None))"

definition msdk_free :: "buf \<Rightarrow> 'k memory \<Rightarrow> 'k memory option" where
  "msdk_free b h = Option.bind (wipe b h) (drop_block b)"

record envelope =
  v_binding_id :: buf
  v_capsule :: buf
  v_proof :: buf
  v_ct :: buf

definition empty_envelope :: envelope where
  "empty_envelope =
     \<lparr>v_binding_id = empty_buf, v_capsule = empty_buf, v_proof = empty_buf, v_ct = empty_buf\<rparr>"

definition msdk_envelope_free :: "envelope \<Rightarrow> 'k memory \<Rightarrow> 'k memory option" where
  "msdk_envelope_free env h =
     Option.bind (msdk_free (v_binding_id env) h) (\<lambda>h1.
     Option.bind (msdk_free (v_capsule env) h1) (\<lambda>h2.
     Option.bind (msdk_free (v_proof env) h2) (msdk_free (v_ct env))))"

section \<open>Borrowed inputs\<close>

text \<open>A pointer argument is null or shows the memory behind it, at least as long as announced.\<close>

datatype 'a in_ptr = Null | Ptr "'a list"

definition as_slice :: "'a in_ptr \<Rightarrow> nat \<Rightarrow> 'a list option" where
  "as_slice ptr len =
     (case ptr of Null \<Rightarrow> (if len = 0 then Some [] else None) | Ptr m \<Rightarrow> Some (take len m))"

lemma as_slice_Null: "as_slice Null len = None \<longleftrightarrow> len \<noteq> 0"
  by (simp add: as_slice_def)

section \<open>Interface: owned memory\<close>

text \<open>
  What a caller of the library relies on: \<open>put\<close> hands out an owned value, \<open>get\<close> reads a value it
  owns, \<open>free\<close> gives it back and fails on anything else. \<open>key\<close> names the block behind a value.
\<close>

locale owned_memory =
  fixes ok :: "'h \<Rightarrow> bool"
    and put :: "bytes \<Rightarrow> 'h \<Rightarrow> 'b \<times> 'h"
    and get :: "'b \<Rightarrow> 'h \<Rightarrow> bytes option"
    and free :: "'b \<Rightarrow> 'h \<Rightarrow> 'h option"
    and same :: "'h \<Rightarrow> 'h \<Rightarrow> bool"
  assumes put_ok: "ok h \<Longrightarrow> ok (snd (put v h))"
    and get_put: "ok h \<Longrightarrow> get (fst (put v h)) (snd (put v h)) = Some v"
    and get_kept: "ok h \<Longrightarrow> get b h = Some u \<Longrightarrow> get b (snd (put v h)) = Some u"
    and free_put: "ok h \<Longrightarrow> \<exists>h'. free (fst (put v h)) (snd (put v h)) = Some h' \<and> same h h'"
    and free_live: "ok h \<Longrightarrow> get b h = Some v \<Longrightarrow> \<exists>h'. free b h = Some h' \<and> ok h'"
    and same_refl: "same h h"
    and same_trans: "same h i \<Longrightarrow> same i j \<Longrightarrow> same h j"
    and free_same: "same h i \<Longrightarrow> free b h = Some h' \<Longrightarrow> \<exists>i'. free b i = Some i' \<and> same h' i'"
begin

primrec puts :: "bytes list \<Rightarrow> 'h \<Rightarrow> 'b list \<times> 'h" where
  "puts [] h = ([], h)"
| "puts (v # vs) h =
     (let (b, h1) = put v h; (bs, h2) = puts vs h1 in (b # bs, h2))"

primrec frees :: "'b list \<Rightarrow> 'h \<Rightarrow> 'h option" where
  "frees [] h = Some h"
| "frees (b # bs) h = Option.bind (free b h) (frees bs)"

lemma puts_get:
  "ok h \<Longrightarrow> puts vs h = (bs, h') \<Longrightarrow> ok h' \<and> list_all2 (\<lambda>b v. get b h' = Some v) bs vs \<and>
     (\<forall>b u. get b h = Some u \<longrightarrow> get b h' = Some u)"
proof (induction vs arbitrary: h bs h')
  case Nil
  then show ?case by simp
next
  case (Cons v vs)
  obtain b h1 where p: "put v h = (b, h1)" by fastforce
  obtain cs h2 where q: "puts vs h1 = (cs, h2)" by fastforce
  have h1: "ok h1" "get b h1 = Some v" "\<And>c u. get c h = Some u \<Longrightarrow> get c h1 = Some u"
    using put_ok [OF Cons.prems(1), of v] get_put [OF Cons.prems(1), of v]
      get_kept [OF Cons.prems(1), of _ _ v] p by auto
  from Cons.prems(2) p q have "bs = b # cs" "h' = h2" by simp_all
  with Cons.IH [OF h1(1) q] h1(2,3) show ?case by auto
qed

text \<open>What is handed out in order and released in the reverse order leaves no trace.\<close>

lemma frees_append:
  "frees (bs @ cs) h = Option.bind (frees bs h) (frees cs)"
  by (induction bs arbitrary: h) (auto split: Option.bind_splits)

lemma frees_same: "same h i \<Longrightarrow> frees bs h = Some h' \<Longrightarrow> \<exists>i'. frees bs i = Some i' \<and> same h' i'"
proof (induction bs arbitrary: h i)
  case Nil
  then show ?case by simp
next
  case (Cons b bs)
  from Cons.prems(2) obtain h1 where h1: "free b h = Some h1" "frees bs h1 = Some h'"
    by (auto simp: bind_eq_Some_conv)
  from free_same [OF Cons.prems(1) h1(1)] obtain i1 where i1: "free b i = Some i1" "same h1 i1" by blast
  from Cons.IH [OF i1(2) h1(2)] i1(1) show ?case by auto
qed

lemma puts_frees:
  "ok h \<Longrightarrow> puts vs h = (bs, h') \<Longrightarrow> \<exists>i. frees (rev bs) h' = Some i \<and> same h i"
proof (induction vs arbitrary: h bs h')
  case Nil
  then show ?case by (simp add: same_refl)
next
  case (Cons v vs)
  obtain b h1 where p: "put v h = (b, h1)" by fastforce
  obtain cs h2 where q: "puts vs h1 = (cs, h2)" by fastforce
  have ok1: "ok h1" using put_ok [OF Cons.prems(1), of v] p by simp
  from Cons.IH [OF ok1 q] obtain i where i: "frees (rev cs) h2 = Some i" "same h1 i" by blast
  from free_put [OF Cons.prems(1), of v] p obtain h0 where f: "free b h1 = Some h0" "same h h0" by auto
  from free_same [OF i(2) f(1)] obtain j where j: "free b i = Some j" "same h0 j" by blast
  have "frees (rev bs) h' = Some j"
    using Cons.prems(2) p q i(1) j(1) by (auto simp: frees_append)
  with same_trans [OF f(2) j(2)] show ?case by blast
qed

end

section \<open>The library's memory discharges it\<close>

definition mem_ok :: "'k memory \<Rightarrow> bool" where
  "mem_ok h \<longleftrightarrow> finite (live h) \<and> 0 \<notin> live h"

definition get_buf :: "buf \<Rightarrow> 'k memory \<Rightarrow> bytes option" where
  "get_buf b h =
     (if is_block b
      then (case blocks h (b_ptr b) of Some v \<Rightarrow> if length v = b_len b then Some v else None | None \<Rightarrow> None)
      else if b_len b = 0 then Some [] else None)"

definition same_memory :: "'k memory \<Rightarrow> 'k memory \<Rightarrow> bool" where
  "same_memory h i \<longleftrightarrow> blocks h = blocks i \<and> handles h = handles i"

lemma alloc_fresh:
  assumes "allocator_law alloc" "mem_ok h"
  shows "alloc (live h) \<noteq> 0" "blocks h (alloc (live h)) = None" "handles h (alloc (live h)) = None"
  using assms unfolding allocator_law_def mem_ok_def live_def by blast+

lemma live_put:
  "live (h\<lparr>blocks := (blocks h)(p \<mapsto> v)\<rparr>) = insert p (live h)"
  by (auto simp: live_def)

lemma msdk_free_eq:
  "msdk_free b h =
     (if \<not> is_block b then Some h
      else (case blocks h (b_ptr b) of
              None \<Rightarrow> None
            | Some v \<Rightarrow>
                if length v = b_len b
                then Some (h\<lparr>blocks := (blocks h)(b_ptr b := None),
                            released := released h @ [replicate (b_len b) 0]\<rparr>)
                else None))"
  by (auto simp: msdk_free_def wipe_def drop_block_def split: option.splits)

lemma into_buf_block:
  assumes "allocator_law alloc" "mem_ok h" "v \<noteq> []"
  shows "is_block (fst (into_buf alloc v h))"
  using alloc_fresh [OF assms(1,2)] assms(3) by (simp add: into_buf_def is_block_def)

lemma into_buf_len: "b_len (fst (into_buf alloc v h)) = length v"
  by (simp add: into_buf_def)

lemma msdk_free_Some:
  "msdk_free b h = Some h' \<Longrightarrow>
     (\<not> is_block b \<and> h' = h) \<or>
     (is_block b \<and> (\<exists>v. blocks h (b_ptr b) = Some v \<and> length v = b_len b) \<and>
        h' = h\<lparr>blocks := (blocks h)(b_ptr b := None), released := released h @ [replicate (b_len b) 0]\<rparr>)"
  by (auto simp: msdk_free_eq split: option.splits if_splits)

interpretation own: owned_memory "\<lambda>h. allocator_law alloc \<and> mem_ok h" "into_buf alloc" get_buf msdk_free same_memory
  for alloc
proof
  fix h i j h' :: "'k memory" and v u :: bytes and b :: buf
  show "allocator_law alloc \<and> mem_ok (snd (into_buf alloc v h))" if "allocator_law alloc \<and> mem_ok h"
    using that alloc_fresh [of alloc h] by (auto simp: into_buf_def mem_ok_def live_put)
  show "get_buf (fst (into_buf alloc v h)) (snd (into_buf alloc v h)) = Some v" if "allocator_law alloc \<and> mem_ok h"
    using that alloc_fresh [of alloc h] by (auto simp: into_buf_def get_buf_def is_block_def)
  show "get_buf b (snd (into_buf alloc v h)) = Some u" if "allocator_law alloc \<and> mem_ok h" "get_buf b h = Some u"
    using that alloc_fresh [of alloc h]
    by (auto simp: into_buf_def get_buf_def split: if_splits option.splits)
  show "\<exists>h'. msdk_free (fst (into_buf alloc v h)) (snd (into_buf alloc v h)) = Some h' \<and> same_memory h h'"
    if "allocator_law alloc \<and> mem_ok h"
  proof (cases "v = []")
    case True
    then show ?thesis by (simp add: into_buf_def msdk_free_eq is_block_def same_memory_def)
  next
    case False
    with that alloc_fresh [of alloc h] show ?thesis
      by (auto simp: into_buf_def msdk_free_eq is_block_def same_memory_def)
  qed
  show "\<exists>h'. msdk_free b h = Some h' \<and> (allocator_law alloc \<and> mem_ok h')"
    if "allocator_law alloc \<and> mem_ok h" "get_buf b h = Some v"
  proof (cases "is_block b")
    case True
    with that obtain u where "blocks h (b_ptr b) = Some u" "length u = b_len b"
      by (auto simp: get_buf_def split: option.splits if_splits)
    with True that(1) show ?thesis
      by (auto simp: msdk_free_eq mem_ok_def live_def intro: finite_subset [rotated])
  qed (use that(1) in \<open>simp add: msdk_free_eq\<close>)
  show "\<exists>i'. msdk_free b i = Some i' \<and> same_memory h' i'" if "same_memory h i" "msdk_free b h = Some h'"
    using that by (auto simp: msdk_free_eq same_memory_def split: option.splits if_splits)
qed (auto simp: same_memory_def)

section \<open>The empty memory and a reference allocator\<close>

definition new_memory :: "'k memory" where
  "new_memory = \<lparr>blocks = Map.empty, handles = Map.empty, released = []\<rparr>"

definition bump :: allocator where
  "bump S = Suc (Max (insert 0 S))"

lemma bump_law: "allocator_law bump"
proof -
  have "bump S \<notin> S" if "finite S" for S
  proof
    assume "bump S \<in> S"
    then have "bump S \<le> Max (insert 0 S)" using that by simp
    then show False by (simp add: bump_def)
  qed
  then show ?thesis by (simp add: allocator_law_def bump_def)
qed

lemma new_memory_ok: "mem_ok new_memory"
  by (simp add: mem_ok_def live_def new_memory_def)

end
