(* ===== verification/Ffi.thy ===== *)
theory Ffi
  imports Ffi_Memory Seal
begin

text \<open>
  The entry points of \<open>crates/matter-sdk-ffi/src/lib.rs\<close> over the core. An out pointer is null or
  a writable slot, returned with what it holds after the call. Whether the core call panics on
  these inputs is the argument \<open>crash\<close> of each entry point that makes one; the guard turns it
  into a code.
\<close>

type_synonym ('o, 'k) answer = "int \<times> 'o option \<times> 'k memory"

text \<open>Hand a core result to the caller, with the code its error maps to.\<close>

definition deliver ::
  "allocator \<Rightarrow> (core_error \<Rightarrow> int) \<Rightarrow> bool \<Rightarrow> core_error + bytes \<Rightarrow> 'k memory
     \<Rightarrow> int option \<times> buf option \<times> 'k memory" where
  "deliver alloc err crash r h =
     (if crash then (None, Some empty_buf, h)
      else (case r of
              Inr v \<Rightarrow> (let (b, h') = into_buf alloc v h in (Some MSDK_OK, Some b, h'))
            | Inl e \<Rightarrow> (Some (err e), Some empty_buf, h)))"

definition msdk_crypto_protocol_version :: "'o kgc \<Rightarrow> int" where
  "msdk_crypto_protocol_version K = fst (guard (Some (int (unat (CRYPTO_PROTOCOL_VERSION K))), ()))"

definition msdk_max_committee_response_bytes :: "u64 option \<Rightarrow> int \<times> u64 option" where
  "msdk_max_committee_response_bytes out =
     guard (case out of
              None \<Rightarrow> (Some MSDK_ERR_INVALID_ARG, None)
            | Some _ \<Rightarrow> (Some MSDK_OK, Some (word_of_nat MAX_COMMITTEE_RESPONSE_BYTES)))"

definition msdk_signing_payload ::
  "'o kgc \<Rightarrow> bool \<Rightarrow> allocator \<Rightarrow> u8 in_ptr \<Rightarrow> u64 in_ptr \<Rightarrow> nat \<Rightarrow> u8 in_ptr \<Rightarrow> u64 \<Rightarrow> buf option
     \<Rightarrow> 'k memory \<Rightarrow> (buf, 'k) answer" where
  "msdk_signing_payload K crash alloc secret_id subs subset_len block_hash recipient_index out h =
     guard (case out of
        None \<Rightarrow> (Some MSDK_ERR_INVALID_ARG, None, h)
      | Some _ \<Rightarrow>
          (case (as_slice secret_id 16, as_slice block_hash 32, as_slice subs subset_len) of
             (Some sid, Some bh, Some points) \<Rightarrow>
               if length sid = 16 \<and> length bh = 32
               then deliver alloc (\<lambda>_. MSDK_ERR_CRYPTO) crash
                      (Ok (signing_payload K (u128_from_be_bytes sid) points bh recipient_index)) h
               else (Some MSDK_ERR_INVALID_ARG, Some empty_buf, h)
           | _ \<Rightarrow> (Some MSDK_ERR_INVALID_ARG, Some empty_buf, h)))"

definition msdk_lagrange_for ::
  "'o kgc \<Rightarrow> bool \<Rightarrow> allocator \<Rightarrow> u64 \<Rightarrow> u64 in_ptr \<Rightarrow> nat \<Rightarrow> buf option \<Rightarrow> 'k memory \<Rightarrow> (buf, 'k) answer" where
  "msdk_lagrange_for K crash alloc p subs subset_len out h =
     guard (case out of
        None \<Rightarrow> (Some MSDK_ERR_INVALID_ARG, None, h)
      | Some _ \<Rightarrow>
          (case as_slice subs subset_len of
             None \<Rightarrow> (Some MSDK_ERR_INVALID_ARG, Some empty_buf, h)
           | Some points \<Rightarrow> deliver alloc (\<lambda>_. MSDK_ERR_CRYPTO) crash (lagrange_for K p points) h))"

text \<open>The four blobs are moved out in the order of the struct literal.\<close>

definition into_envelope :: "allocator \<Rightarrow> encrypted_secret \<Rightarrow> 'k memory \<Rightarrow> envelope \<times> 'k memory" where
  "into_envelope alloc env h =
     (let (b, h1) = into_buf alloc (binding_id env) h;
          (c, h2) = into_buf alloc (capsule env) h1;
          (p, h3) = into_buf alloc (proof_blob env) h2;
          (t, h4) = into_buf alloc (ct env) h3 in
      (\<lparr>v_binding_id = b, v_capsule = c, v_proof = p, v_ct = t\<rparr>, h4))"

fun encrypt_status :: "core_error \<Rightarrow> int" where
  "encrypt_status (Empty _) = MSDK_ERR_INVALID_ARG"
| "encrypt_status (Decode _ _) = MSDK_ERR_INVALID_ARG"
| "encrypt_status _ = MSDK_ERR_CRYPTO"

definition msdk_encrypt ::
  "'o kgc \<Rightarrow> (nat \<Rightarrow> bytes) \<Rightarrow> bool \<Rightarrow> allocator \<Rightarrow> u8 in_ptr \<Rightarrow> nat \<Rightarrow> u32 \<Rightarrow> u8 in_ptr \<Rightarrow> nat
     \<Rightarrow> u8 in_ptr \<Rightarrow> nat \<Rightarrow> u8 in_ptr \<Rightarrow> nat \<Rightarrow> envelope option \<Rightarrow> 'k memory \<Rightarrow> (envelope, 'k) answer" where
  "msdk_encrypt K fill crash alloc joint_pk joint_pk_len epoch secrets secrets_len a aad_len
       bid bid_len out h =
     guard (case out of
        None \<Rightarrow> (Some MSDK_ERR_INVALID_ARG, None, h)
      | Some _ \<Rightarrow>
          (case (as_slice joint_pk joint_pk_len, as_slice secrets secrets_len, as_slice a aad_len,
                 as_slice bid bid_len) of
             (Some pk, Some sec, Some ad, Some binding) \<Rightarrow>
               if crash then (None, Some empty_envelope, h)
               else
                 (case encrypt K fill pk epoch sec ad (if bid = Null then None else Some binding) of
                    Inr env \<Rightarrow> (let (e, h') = into_envelope alloc env h in (Some MSDK_OK, Some e, h'))
                  | Inl e \<Rightarrow> (Some (encrypt_status e), Some empty_envelope, h))
           | _ \<Rightarrow> (Some MSDK_ERR_INVALID_ARG, Some empty_envelope, h)))"

definition msdk_verify_plaintext_proof ::
  "'o kgc \<Rightarrow> bool \<Rightarrow> u8 in_ptr \<Rightarrow> nat \<Rightarrow> u8 in_ptr \<Rightarrow> nat \<Rightarrow> u8 in_ptr \<Rightarrow> nat \<Rightarrow> u8 in_ptr \<Rightarrow> nat \<Rightarrow> u32
     \<Rightarrow> u8 option \<Rightarrow> int \<times> u8 option" where
  "msdk_verify_plaintext_proof K crash joint_pk joint_pk_len cap capsule_len pf proof_len bid bid_len
       epoch out =
     guard (case out of
        None \<Rightarrow> (Some MSDK_ERR_INVALID_ARG, None)
      | Some _ \<Rightarrow>
          (case (as_slice joint_pk joint_pk_len, as_slice cap capsule_len, as_slice pf proof_len,
                 as_slice bid bid_len) of
             (Some pk, Some c, Some p, Some b) \<Rightarrow>
               if crash then (None, Some 0)
               else
                 (case verify_plaintext_proof K pk c p b epoch of
                    Inr v \<Rightarrow> (Some MSDK_OK, Some (if v then 1 else 0))
                  | Inl _ \<Rightarrow> (Some MSDK_ERR_CRYPTO, Some 0))
           | _ \<Rightarrow> (Some MSDK_ERR_INVALID_ARG, Some 0)))"

record c_partial =
  cp_point :: u64
  cp_partial :: "u8 in_ptr"
  cp_partial_len :: nat
  cp_proof :: "u8 in_ptr"
  cp_proof_len :: nat
  cp_commitment :: "u8 in_ptr"
  cp_commitment_len :: nat

definition read_partial :: "c_partial \<Rightarrow> partial_input option" where
  "read_partial p =
     (case as_slice (cp_partial p) (cp_partial_len p) of
        None \<Rightarrow> None
      | Some pd \<Rightarrow>
     (case as_slice (cp_proof p) (cp_proof_len p) of
        None \<Rightarrow> None
      | Some pf \<Rightarrow>
     (case as_slice (cp_commitment p) (cp_commitment_len p) of
        None \<Rightarrow> None
      | Some cm \<Rightarrow> Some \<lparr>point = cp_point p, partial = pd, p_proof = pf, commitment = cm\<rparr>)))"

fun open_status :: "core_error \<Rightarrow> int" where
  "open_status (InvalidSubset _) = MSDK_ERR_INVALID_ARG"
| "open_status _ = MSDK_ERR_CRYPTO"

definition msdk_open_secret ::
  "'o kgc \<Rightarrow> bool \<Rightarrow> allocator \<Rightarrow> u8 in_ptr \<Rightarrow> nat \<Rightarrow> u8 in_ptr \<Rightarrow> nat \<Rightarrow> u8 in_ptr \<Rightarrow> u32
     \<Rightarrow> u8 in_ptr \<Rightarrow> nat \<Rightarrow> u8 in_ptr \<Rightarrow> nat \<Rightarrow> u8 in_ptr \<Rightarrow> nat \<Rightarrow> c_partial in_ptr \<Rightarrow> nat
     \<Rightarrow> buf option \<Rightarrow> 'k memory \<Rightarrow> (buf, 'k) answer" where
  "msdk_open_secret K crash alloc shared_a shared_a_len cap capsule_len secret_id epoch bid bid_len
       a aad_len c ct_len partials partials_len out h =
     guard (case out of
        None \<Rightarrow> (Some MSDK_ERR_INVALID_ARG, None, h)
      | Some _ \<Rightarrow>
          (case (as_slice shared_a shared_a_len, as_slice cap capsule_len, as_slice secret_id 16,
                 as_slice bid bid_len, as_slice a aad_len, as_slice c ct_len,
                 as_slice partials partials_len) of
             (Some sa, Some cp, Some sid, Some bi, Some ad, Some cx, Some raw) \<Rightarrow>
               if length sid \<noteq> 16 then (Some MSDK_ERR_INVALID_ARG, Some empty_buf, h)
               else
                 (case traverse_opt read_partial raw of
                    None \<Rightarrow> (Some MSDK_ERR_INVALID_ARG, Some empty_buf, h)
                  | Some inputs \<Rightarrow>
                      deliver alloc open_status crash
                        (map_sum id expose
                          (open_secret K sa cp (u128_from_be_bytes sid) epoch bi ad cx inputs)) h)
           | _ \<Rightarrow> (Some MSDK_ERR_INVALID_ARG, Some empty_buf, h)))"

section \<open>What an answer can be\<close>

text \<open>A good answer hands out one buffer with these bytes; a bad one leaves nothing behind.\<close>

definition hands_out :: "allocator \<Rightarrow> bytes \<Rightarrow> 'k memory \<Rightarrow> (buf, 'k) answer \<Rightarrow> bool" where
  "hands_out alloc v h a \<longleftrightarrow>
     a = (MSDK_OK, Some (fst (into_buf alloc v h)), snd (into_buf alloc v h))"

definition refuses :: "'o \<Rightarrow> 'o option \<Rightarrow> 'k memory \<Rightarrow> ('o, 'k) answer \<Rightarrow> bool" where
  "refuses cleared out h a \<longleftrightarrow>
     fst a \<in> {MSDK_ERR_INVALID_ARG, MSDK_ERR_CRYPTO, MSDK_ERR_KEY, MSDK_ERR_INTERNAL} \<and>
     snd a = (map_option (\<lambda>_. cleared) out, h)"

lemma deliver_cases:
  assumes "\<And>e. err e \<in> {MSDK_ERR_INVALID_ARG, MSDK_ERR_CRYPTO}"
  shows "(\<exists>v. \<not> crash \<and> r = Ok v \<and> hands_out alloc v h (guard (deliver alloc err crash r h))) \<or>
    (crash \<or> (\<exists>e. r = Err e)) \<and> refuses empty_buf (Some x) h (guard (deliver alloc err crash r h))"
  using assms
  by (cases r) (auto simp: deliver_def guard_def hands_out_def refuses_def case_prod_beta)

lemma open_status_codes: "open_status e \<in> {MSDK_ERR_INVALID_ARG, MSDK_ERR_CRYPTO}"
  by (cases e) simp_all

lemma encrypt_status_codes: "encrypt_status e \<in> {MSDK_ERR_INVALID_ARG, MSDK_ERR_CRYPTO}"
  by (cases e) simp_all

lemma refuses_invalid:
  "refuses cleared out h (guard (Some MSDK_ERR_INVALID_ARG, map_option (\<lambda>_. cleared) out, h))"
  by (simp add: refuses_def guard_def)

lemma msdk_open_secret_missing:
  assumes "as_slice shared_a n1 = None \<or> as_slice cap n2 = None \<or> as_slice secret_id 16 = None \<or>
      as_slice bid n3 = None \<or> as_slice a n4 = None \<or> as_slice c n5 = None \<or> as_slice partials n6 = None"
  shows "refuses empty_buf out h
     (msdk_open_secret K crash alloc shared_a n1 cap n2 secret_id epoch bid n3 a n4 c n5 partials n6 out h)"
  using assms refuses_invalid [of empty_buf out h]
  by (cases out; elim disjE) (auto simp: msdk_open_secret_def split: option.splits)

lemma msdk_open_secret_cases:
  "(\<exists>sa cp sid bi ad cx raw inputs pt.
      as_slice shared_a n1 = Some sa \<and> as_slice cap n2 = Some cp \<and> as_slice secret_id 16 = Some sid \<and>
      as_slice bid n3 = Some bi \<and> as_slice a n4 = Some ad \<and> as_slice c n5 = Some cx \<and>
      as_slice partials n6 = Some raw \<and> length sid = 16 \<and> traverse_opt read_partial raw = Some inputs \<and>
      \<not> crash \<and> out \<noteq> None \<and> open_secret K sa cp (u128_from_be_bytes sid) epoch bi ad cx inputs = Ok pt \<and>
      hands_out alloc (expose pt) h
        (msdk_open_secret K crash alloc shared_a n1 cap n2 secret_id epoch bid n3 a n4 c n5 partials n6 out h)) \<or>
   refuses empty_buf out h
     (msdk_open_secret K crash alloc shared_a n1 cap n2 secret_id epoch bid n3 a n4 c n5 partials n6 out h)"
proof (cases "out = None \<or> as_slice shared_a n1 = None \<or> as_slice cap n2 = None \<or> as_slice secret_id 16 = None \<or>
      as_slice bid n3 = None \<or> as_slice a n4 = None \<or> as_slice c n5 = None \<or> as_slice partials n6 = None")
  case True
  then have "refuses empty_buf out h
      (msdk_open_secret K crash alloc shared_a n1 cap n2 secret_id epoch bid n3 a n4 c n5 partials n6 out h)"
  proof
    assume "out = None"
    then show ?thesis using refuses_invalid [of empty_buf None h] by (simp add: msdk_open_secret_def)
  qed (rule msdk_open_secret_missing)
  then show ?thesis ..
next
  case False
  then obtain x sa cp sid bi ad cx raw where s: "out = Some x"
    "as_slice shared_a n1 = Some sa" "as_slice cap n2 = Some cp" "as_slice secret_id 16 = Some sid"
    "as_slice bid n3 = Some bi" "as_slice a n4 = Some ad" "as_slice c n5 = Some cx"
    "as_slice partials n6 = Some raw"
    by auto
  show ?thesis
  proof (cases "length sid = 16 \<and> traverse_opt read_partial raw \<noteq> None")
    case True
    then obtain inputs where i: "length sid = 16" "traverse_opt read_partial raw = Some inputs" by auto
    let ?r = "open_secret K sa cp (u128_from_be_bytes sid) epoch bi ad cx inputs"
    have e: "msdk_open_secret K crash alloc shared_a n1 cap n2 secret_id epoch bid n3 a n4 c n5 partials n6 out h =
        guard (deliver alloc open_status crash (map_sum id expose ?r) h)"
      using s i by (simp add: msdk_open_secret_def)
    show ?thesis
      using deliver_cases [where err = open_status, OF open_status_codes, where crash = crash and r = "map_sum id expose ?r"
          and alloc = alloc and h = h and x = x] s i
      unfolding e by (cases ?r) auto
  next
    case False
    then show ?thesis using s refuses_invalid [of empty_buf "Some x" h]
      by (auto simp: msdk_open_secret_def split: option.splits)
  qed
qed

lemma refuses_not_ok: "refuses cleared out h a \<Longrightarrow> fst a \<noteq> MSDK_OK"
  by (auto simp: refuses_def status_defs)

lemma deliver_ok_or_refuses:
  assumes "\<And>e. err e \<in> {MSDK_ERR_INVALID_ARG, MSDK_ERR_CRYPTO}"
  shows "fst (guard (deliver alloc err crash r h)) = MSDK_OK \<or>
    refuses empty_buf (Some x) h (guard (deliver alloc err crash r h))"
  using deliver_cases [where err = err, OF assms, where crash = crash and r = r and alloc = alloc and h = h and x = x]
  by (auto simp: hands_out_def)

section \<open>Properties\<close>

text \<open>
  C38. A failing entry point leaves nothing behind: whatever the pointers, the inputs and the
  core do, panics included, an entry point that does not return success has handed out no
  buffer: the out parameter is cleared where there is one and the memory is what it was.
\<close>

theorem ffi_failures_leave_nothing:
  "(fst (msdk_signing_payload K crash alloc sid subs n bh i out h) = MSDK_OK \<or>
      refuses empty_buf out h (msdk_signing_payload K crash alloc sid subs n bh i out h)) \<and>
   (fst (msdk_lagrange_for K crash alloc p subs n out h) = MSDK_OK \<or>
      refuses empty_buf out h (msdk_lagrange_for K crash alloc p subs n out h)) \<and>
   (fst (msdk_open_secret K crash alloc sa n1 cap n2 sid epoch bid n3 a n4 c n5 ps n6 out h) = MSDK_OK \<or>
      refuses empty_buf out h
        (msdk_open_secret K crash alloc sa n1 cap n2 sid epoch bid n3 a n4 c n5 ps n6 out h)) \<and>
   (fst (msdk_encrypt K fill crash alloc pk n1 epoch secrets n2 a n3 bid n4 eout h) = MSDK_OK \<or>
      refuses empty_envelope eout h
        (msdk_encrypt K fill crash alloc pk n1 epoch secrets n2 a n3 bid n4 eout h))"
proof (intro conjI)
  have crypto: "MSDK_ERR_CRYPTO \<in> {MSDK_ERR_INVALID_ARG, MSDK_ERR_CRYPTO}" by simp
  note bad = refuses_invalid [of empty_buf None h] refuses_invalid [of empty_buf "Some x" h for x]
  have good: "fst (guard (deliver alloc (\<lambda>_. MSDK_ERR_CRYPTO) crash r h)) = MSDK_OK"
    if "\<not> refuses empty_buf (Some x) h (guard (deliver alloc (\<lambda>_. MSDK_ERR_CRYPTO) crash r h))" for r x
    using deliver_ok_or_refuses [of "\<lambda>_. MSDK_ERR_CRYPTO" alloc crash r h x, OF crypto] that by blast
  show "fst (msdk_signing_payload K crash alloc sid subs n bh i out h) = MSDK_OK \<or>
      refuses empty_buf out h (msdk_signing_payload K crash alloc sid subs n bh i out h)"
    using bad unfolding msdk_signing_payload_def by (auto split: option.splits intro: good)
  show "fst (msdk_lagrange_for K crash alloc p subs n out h) = MSDK_OK \<or>
      refuses empty_buf out h (msdk_lagrange_for K crash alloc p subs n out h)"
    using bad unfolding msdk_lagrange_for_def by (auto split: option.splits intro: good)
  show "fst (msdk_open_secret K crash alloc sa n1 cap n2 sid epoch bid n3 a n4 c n5 ps n6 out h) = MSDK_OK \<or>
      refuses empty_buf out h
        (msdk_open_secret K crash alloc sa n1 cap n2 sid epoch bid n3 a n4 c n5 ps n6 out h)"
    using msdk_open_secret_cases [of sa n1 cap n2 sid bid n3 a n4 c n5 ps n6 crash out K epoch alloc h]
    by (auto simp: hands_out_def)
  show "fst (msdk_encrypt K fill crash alloc pk n1 epoch secrets n2 a n3 bid n4 eout h) = MSDK_OK \<or>
      refuses empty_envelope eout h
        (msdk_encrypt K fill crash alloc pk n1 epoch secrets n2 a n3 bid n4 eout h)"
    using encrypt_status_codes
    by (auto simp: msdk_encrypt_def guard_def refuses_def case_prod_beta split: option.splits sum.splits)
qed

text \<open>
  C12. \<open>msdk_open_secret\<close> refines \<open>open_secret\<close>: on readable inputs and a core that does not panic
  it succeeds exactly when the core does, with a buffer that reads as the plaintext while every
  buffer the caller already owned still reads the same; a core error is its status code.
\<close>

theorem ffi_open_secret_refines_core:
  assumes "allocator_law alloc" and "mem_ok h"
    and "as_slice shared_a n1 = Some sa" "as_slice cap n2 = Some cp"
    and "as_slice secret_id 16 = Some (u128_to_be_bytes i)" "as_slice bid n3 = Some bi"
    and "as_slice a n4 = Some ad" "as_slice c n5 = Some cx"
    and "as_slice partials n6 = Some raw" "traverse_opt read_partial raw = Some inputs"
  shows "case open_secret K sa cp i epoch bi ad cx inputs of
      Ok pt \<Rightarrow> (\<exists>b h'. msdk_open_secret K False alloc shared_a n1 cap n2 secret_id epoch bid n3 a n4 c n5
            partials n6 (Some old) h = (MSDK_OK, Some b, h') \<and>
          get_buf b h' = Some (expose pt) \<and> mem_ok h' \<and>
          (\<forall>b' v. get_buf b' h = Some v \<longrightarrow> get_buf b' h' = Some v))
    | Err e \<Rightarrow> msdk_open_secret K False alloc shared_a n1 cap n2 secret_id epoch bid n3 a n4 c n5
            partials n6 (Some old) h = (open_status e, Some empty_buf, h)"
proof -
  have e: "msdk_open_secret K False alloc shared_a n1 cap n2 secret_id epoch bid n3 a n4 c n5 partials n6 (Some old) h =
      guard (deliver alloc open_status False (map_sum id expose (open_secret K sa cp i epoch bi ad cx inputs)) h)"
    using assms(3-10) by (simp add: msdk_open_secret_def)
  have ok: "allocator_law alloc \<and> mem_ok h" using assms(1,2) by simp
  show ?thesis
    unfolding e using own.get_put [OF ok] own.put_ok [OF ok] own.get_kept [OF ok]
    by (auto simp: deliver_def guard_def case_prod_beta split: sum.splits)
qed

definition ref_c_partial :: "u64 \<Rightarrow> c_partial" where
  "ref_c_partial p =
     \<lparr>cp_point = p, cp_partial = Ptr [4], cp_partial_len = 1, cp_proof = Ptr [4, 9], cp_proof_len = 1,
      cp_commitment = Null, cp_commitment_len = 0\<rparr>"

theorem ffi_open_secret_refines_core_witness:
  "\<exists>b h'. msdk_open_secret kgc_ref False bump Null 0 Null 0 (Ptr (u128_to_be_bytes 7)) 3 Null 0 (Ptr [9]) 1
       (Ptr (replicate 12 0 @ [3, 7, 8, 9])) 16 (Ptr [ref_c_partial 1, ref_c_partial 2]) 2 (Some empty_buf)
       (new_memory :: unit memory) = (MSDK_OK, Some b, h') \<and> get_buf b h' = Some [7, 8]"
proof -
  have s: "as_slice Null 0 = Some []" "as_slice (Ptr (u128_to_be_bytes 7)) 16 = Some (u128_to_be_bytes 7)"
    "as_slice (Ptr [9 :: u8]) 1 = Some [9]"
    "as_slice (Ptr (replicate 12 (0 :: u8) @ [3, 7, 8, 9])) 16 = Some (replicate 12 0 @ [3, 7, 8, 9])"
    "as_slice (Ptr [ref_c_partial 1, ref_c_partial 2]) 2 = Some [ref_c_partial 1, ref_c_partial 2]"
    by (simp_all add: as_slice_def length_u128_to_be_bytes)
  have r: "traverse_opt read_partial [ref_c_partial 1, ref_c_partial 2] = Some [ref_partial 1, ref_partial 2]"
    by (simp add: read_partial_def ref_c_partial_def ref_partial_def as_slice_def)
  have o: "open_secret kgc_ref [] [] 7 3 [] [9] (replicate 12 0 @ [3, 7, 8, 9]) [ref_partial 1, ref_partial 2] =
      Ok (Plaintext [7, 8])"
    by (simp add: open_secret_def subset_points_def de_def bound_def decode_partial_def
        ref_partial_def kgc_ref_def MAX_DECODE_BYTES_def Let_def)
  show ?thesis
    using ffi_open_secret_refines_core [where epoch = 3 and K = kgc_ref and old = empty_buf,
        OF bump_law new_memory_ok s(1) s(1) s(2) s(1) s(3) s(4) s(5) r]
    unfolding o by auto
qed

text \<open>
  An empty result is not null: handing out no bytes gives a non-null pointer with length
  zero, where the header promises null, e.g. for the binding id of an envelope sealed under an
  empty one; releasing it is still a no-op.
\<close>

theorem empty_results_are_not_null:
  "b_ptr (fst (into_buf alloc [] h)) \<noteq> 0 \<and> b_len (fst (into_buf alloc [] h)) = 0 \<and>
   msdk_free (fst (into_buf alloc [] h)) h = Some h \<and>
   b_ptr (v_binding_id (fst (into_envelope alloc \<lparr>binding_id = [], capsule = cp, proof_blob = pf, ct = c\<rparr> h))) \<noteq> 0 \<and>
   b_ptr empty_buf = 0"
  by (simp add: into_buf_def DANGLING_def msdk_free_eq is_block_def into_envelope_def case_prod_beta empty_buf_def)

end
