(* ===== verification/Ffi_Key.thy ===== *)
theory Ffi_Key
  imports Ffi Keys Utf8
begin

text \<open>
  The key entry points of \<open>crates/matter-sdk-ffi/src/apikey.rs\<close>, and the sessions a C caller can
  have with the library: any sequence of calls in which it releases only what it owns. A handle
  is the address of a live key; using a dead one is undefined behaviour (\<open>None\<close>). The debug
  assertions on result lengths are not part of a release build; their content is a property here.
\<close>

section \<open>Entry points\<close>

definition ACCOUNT_ID_BYTES :: nat where "ACCOUNT_ID_BYTES = 32"

definition SIGNATURE_BYTES :: nat where "SIGNATURE_BYTES = 64"

definition key_status :: "key_error \<Rightarrow> int" where
  "key_status e = MSDK_ERR_KEY"

definition box_key :: "allocator \<Rightarrow> 'k \<Rightarrow> 'k memory \<Rightarrow> nat \<times> 'k memory" where
  "box_key alloc key h = (alloc (live h), h\<lparr>handles := (handles h)(alloc (live h) \<mapsto> key)\<rparr>)"

definition msdk_apikey_parse ::
  "hex_lib \<Rightarrow> ('kp, 'm, 'j) signer_lib \<Rightarrow> (str \<Rightarrow> bool) \<Rightarrow> bool \<Rightarrow> allocator \<Rightarrow> u8 in_ptr \<Rightarrow> nat
     \<Rightarrow> nat option \<Rightarrow> 'kp api_key memory \<Rightarrow> (nat, 'kp api_key) answer" where
  "msdk_apikey_parse H L uni crash alloc key_ptr key_len out h =
     guard (case out of
        None \<Rightarrow> (Some MSDK_ERR_INVALID_ARG, None, h)
      | Some _ \<Rightarrow>
         (case key_ptr of
            Null \<Rightarrow> (Some MSDK_ERR_INVALID_ARG, Some 0, h)
          | Ptr m \<Rightarrow>
             (let raw = take key_len m in
              if \<not> utf8_valid raw then (Some MSDK_ERR_INVALID_ARG, Some 0, h)
              else if crash then (None, Some 0, h)
              else (case api_key_parse H L uni (bytes_str raw) of
                      Inr key \<Rightarrow> (let (k, h') = box_key alloc key h in (Some MSDK_OK, Some k, h'))
                    | Inl e \<Rightarrow> (Some (key_status e), Some 0, h)))))"

definition msdk_apikey_free :: "nat \<Rightarrow> 'k memory \<Rightarrow> 'k memory option" where
  "msdk_apikey_free k h =
     (if k = 0 then Some h
      else (case handles h k of
              None \<Rightarrow> None
            | Some _ \<Rightarrow> Some (h\<lparr>handles := (handles h)(k := None)\<rparr>)))"

definition msdk_apikey_account_id ::
  "allocator \<Rightarrow> nat \<Rightarrow> buf option \<Rightarrow> 'kp api_key memory \<Rightarrow> (buf, 'kp api_key) answer option" where
  "msdk_apikey_account_id alloc k out h =
     (case out of
        None \<Rightarrow> Some (guard (Some MSDK_ERR_INVALID_ARG, None, h))
      | Some _ \<Rightarrow>
          if k = 0 then Some (guard (Some MSDK_ERR_INVALID_ARG, Some empty_buf, h))
          else (case handles h k of
                  None \<Rightarrow> None
                | Some key \<Rightarrow>
                    (let (b, h') = into_buf alloc (as_bytes (account key)) h in
                     Some (guard (Some MSDK_OK, Some b, h')))))"

definition msdk_apikey_scheme ::
  "allocator \<Rightarrow> nat \<Rightarrow> buf option \<Rightarrow> 'kp api_key memory \<Rightarrow> (buf, 'kp api_key) answer option" where
  "msdk_apikey_scheme alloc k out h =
     (case out of
        None \<Rightarrow> Some (guard (Some MSDK_ERR_INVALID_ARG, None, h))
      | Some _ \<Rightarrow>
          if k = 0 then Some (guard (Some MSDK_ERR_INVALID_ARG, Some empty_buf, h))
          else (case handles h k of
                  None \<Rightarrow> None
                | Some key \<Rightarrow>
                    (let (b, h') = into_buf alloc (str_bytes (scheme_as_str (key_scheme key))) h in
                     Some (guard (Some MSDK_OK, Some b, h')))))"

definition msdk_apikey_sign ::
  "('kp, 'm, 'j) signer_lib \<Rightarrow> bool \<Rightarrow> allocator \<Rightarrow> nat \<Rightarrow> u8 in_ptr \<Rightarrow> nat \<Rightarrow> buf option
     \<Rightarrow> 'kp api_key memory \<Rightarrow> (buf, 'kp api_key) answer option" where
  "msdk_apikey_sign L crash alloc k msg_ptr msg_len out h =
     (case out of
        None \<Rightarrow> Some (guard (Some MSDK_ERR_INVALID_ARG, None, h))
      | Some _ \<Rightarrow>
          if k = 0 \<or> (msg_ptr = Null \<and> msg_len \<noteq> 0)
          then Some (guard (Some MSDK_ERR_INVALID_ARG, Some empty_buf, h))
          else
            (case handles h k of
               None \<Rightarrow> None
             | Some key \<Rightarrow>
                (let msg = (if msg_len = 0 then [] else case msg_ptr of Null \<Rightarrow> [] | Ptr m \<Rightarrow> take msg_len m) in
                 if crash then Some (guard (None, Some empty_buf, h))
                 else (case api_key_sign L key msg of
                         Inr sig \<Rightarrow> (let (b, h') = into_buf alloc sig h in
                                     Some (guard (Some MSDK_OK, Some b, h')))
                       | Inl e \<Rightarrow> Some (guard (Some (key_status e), Some empty_buf, h))))))"

section \<open>Sessions\<close>

text \<open>
  What a call can leave the caller with, in order: the buffers it wrote. The entry points that
  hand out buffers, with arbitrary arguments and writable out parameters.
\<close>

inductive buffer_call ::
  "'o kgc \<Rightarrow> ('kp, 'm, 'j) signer_lib \<Rightarrow> allocator \<Rightarrow> nat set \<Rightarrow> 'kp api_key memory \<Rightarrow> buf list
     \<Rightarrow> 'kp api_key memory \<Rightarrow> bool"
  for K L alloc ks h where
  call_payload: "msdk_signing_payload K crash alloc sid subs n bh i (Some old) h = (c, Some b, h') \<Longrightarrow>
     buffer_call K L alloc ks h [b] h'"
| call_lagrange: "msdk_lagrange_for K crash alloc p subs n (Some old) h = (c, Some b, h') \<Longrightarrow>
     buffer_call K L alloc ks h [b] h'"
| call_open: "msdk_open_secret K crash alloc sa n1 cap n2 sid epoch bid n3 a n4 ctx n5 ps n6 (Some old) h =
       (c, Some b, h') \<Longrightarrow> buffer_call K L alloc ks h [b] h'"
| call_encrypt: "msdk_encrypt K fill crash alloc pk n1 epoch secrets n2 a n3 bid n4 (Some old) h =
       (c, Some e, h') \<Longrightarrow>
     buffer_call K L alloc ks h [v_binding_id e, v_capsule e, v_proof e, v_ct e] h'"
| call_account: "k = 0 \<or> k \<in> ks \<Longrightarrow> msdk_apikey_account_id alloc k (Some old) h = Some (c, Some b, h') \<Longrightarrow>
     buffer_call K L alloc ks h [b] h'"
| call_scheme: "k = 0 \<or> k \<in> ks \<Longrightarrow> msdk_apikey_scheme alloc k (Some old) h = Some (c, Some b, h') \<Longrightarrow>
     buffer_call K L alloc ks h [b] h'"
| call_sign: "k = 0 \<or> k \<in> ks \<Longrightarrow> msdk_apikey_sign L crash alloc k msg n (Some old) h = Some (c, Some b, h') \<Longrightarrow>
     buffer_call K L alloc ks h [b] h'"

inductive session ::
  "hex_lib \<Rightarrow> 'o kgc \<Rightarrow> ('kp, 'm, 'j) signer_lib \<Rightarrow> (str \<Rightarrow> bool) \<Rightarrow> allocator
     \<Rightarrow> 'kp api_key memory \<Rightarrow> buf list \<Rightarrow> nat list \<Rightarrow> bool"
  for H K L uni alloc where
  start: "session H K L uni alloc new_memory [] []"
| receive: "session H K L uni alloc h owned ks \<Longrightarrow> buffer_call K L alloc (set ks) h bs h' \<Longrightarrow>
     session H K L uni alloc h' (rev bs @ owned) ks"
| release: "session H K L uni alloc h owned ks \<Longrightarrow> b \<in> set owned \<Longrightarrow> msdk_free b h = Some h' \<Longrightarrow>
     session H K L uni alloc h' (remove1 b owned) ks"
| parse_key: "session H K L uni alloc h owned ks \<Longrightarrow>
     msdk_apikey_parse H L uni crash alloc kp n (Some old) h = (c, Some k, h') \<Longrightarrow>
     session H K L uni alloc h' owned (if k = 0 then ks else k # ks)"
| free_key: "session H K L uni alloc h owned ks \<Longrightarrow> k \<in> set ks \<Longrightarrow> msdk_apikey_free k h = Some h' \<Longrightarrow>
     session H K L uni alloc h' owned (remove1 k ks)"

section \<open>The invariant of a session\<close>

definition owned_ok :: "'k memory \<Rightarrow> buf list \<Rightarrow> nat list \<Rightarrow> bool" where
  "owned_ok h owned ks \<longleftrightarrow>
     mem_ok h \<and>
     (\<forall>b\<in>set owned. get_buf b h \<noteq> None) \<and>
     dom (blocks h) = b_ptr ` {b \<in> set owned. is_block b} \<and>
     distinct (map b_ptr (filter is_block owned)) \<and>
     dom (handles h) = set ks \<and> distinct ks \<and>
     (\<forall>v\<in>set (released h). \<forall>x\<in>set v. x = 0)"

text \<open>One buffer written by a call: an empty one, or a fresh block.\<close>

definition writes :: "allocator \<Rightarrow> 'k memory \<Rightarrow> buf \<Rightarrow> 'k memory \<Rightarrow> bool" where
  "writes alloc h b h' \<longleftrightarrow> (b = empty_buf \<and> h' = h) \<or> (\<exists>v. into_buf alloc v h = (b, h'))"

primrec writes_all :: "allocator \<Rightarrow> 'k memory \<Rightarrow> buf list \<Rightarrow> 'k memory \<Rightarrow> bool" where
  "writes_all alloc h [] h' \<longleftrightarrow> h' = h"
| "writes_all alloc h (b # bs) h' \<longleftrightarrow> (\<exists>h1. writes alloc h b h1 \<and> writes_all alloc h1 bs h')"

lemma writes_empty [simp]: "writes alloc h empty_buf h"
  by (simp add: writes_def)

lemma writes_into: "into_buf alloc v h = (b, h') \<Longrightarrow> writes alloc h b h'"
  by (auto simp: writes_def)

lemma get_buf_empty [simp]: "get_buf empty_buf h = Some []"
  by (simp add: get_buf_def empty_buf_def is_block_def)

lemma empty_not_block [simp]: "\<not> is_block empty_buf"
  by (simp add: empty_buf_def is_block_def)

lemma get_buf_ptr: "get_buf b h \<noteq> None \<Longrightarrow> is_block b \<Longrightarrow> b_ptr b \<in> dom (blocks h)"
  by (auto simp: get_buf_def split: option.splits)

text \<open>The set of blocks a list of buffers names, and what adding or removing one does to it.\<close>

definition block_ptrs :: "buf list \<Rightarrow> nat list" where
  "block_ptrs owned = map b_ptr (filter is_block owned)"

lemma block_ptrs_simps [simp]:
  "block_ptrs [] = []"
  "block_ptrs (b # owned) = (if is_block b then b_ptr b # block_ptrs owned else block_ptrs owned)"
  by (simp_all add: block_ptrs_def)

lemma block_ptrs_set: "set (block_ptrs owned) = b_ptr ` {b \<in> set owned. is_block b}"
  by (auto simp: block_ptrs_def)

lemma block_ptrsI: "b \<in> set owned \<Longrightarrow> is_block b \<Longrightarrow> b_ptr b \<in> set (block_ptrs owned)"
  by (simp add: block_ptrs_def)

lemma block_ptrs_remove1_other: "\<not> is_block b \<Longrightarrow> block_ptrs (remove1 b owned) = block_ptrs owned"
  by (induction owned) auto

lemma block_ptrs_remove1:
  "distinct (block_ptrs owned) \<Longrightarrow> b \<in> set owned \<Longrightarrow> is_block b \<Longrightarrow>
     block_ptrs (remove1 b owned) = remove1 (b_ptr b) (block_ptrs owned)"
proof (induction owned)
  case Nil
  then show ?case by simp
next
  case (Cons a owned)
  show ?case
  proof (cases "a = b")
    case True
    then show ?thesis using Cons.prems by simp
  next
    case False
    then have b: "b \<in> set owned" using Cons.prems(2) by auto
    then have "b_ptr b \<in> set (block_ptrs owned)" using Cons.prems(3) by (rule block_ptrsI)
    then have "is_block a \<Longrightarrow> b_ptr a \<noteq> b_ptr b" using Cons.prems(1) by auto
    then show ?thesis using False b Cons by (simp split: if_splits)
  qed
qed

lemma owned_ok_alt:
  "owned_ok h owned ks \<longleftrightarrow>
     mem_ok h \<and> (\<forall>b\<in>set owned. get_buf b h \<noteq> None) \<and>
     dom (blocks h) = set (block_ptrs owned) \<and> distinct (block_ptrs owned) \<and>
     dom (handles h) = set ks \<and> distinct ks \<and> (\<forall>v\<in>set (released h). \<forall>x\<in>set v. x = 0)"
  by (auto simp: owned_ok_def block_ptrs_set block_ptrs_def)

lemma owned_ok_new: "owned_ok new_memory [] []"
  by (simp add: owned_ok_alt new_memory_def mem_ok_def live_def)

lemma owned_ok_into:
  assumes "allocator_law alloc" "owned_ok h owned ks" "into_buf alloc v h = (b, h')"
  shows "owned_ok h' (b # owned) ks"
proof -
  have ok: "allocator_law alloc \<and> mem_ok h" using assms(1,2) by (simp add: owned_ok_alt)
  have new: "mem_ok h'" "get_buf b h' = Some v" "\<And>c u. get_buf c h = Some u \<Longrightarrow> get_buf c h' = Some u"
    using own.put_ok [OF ok, of v] own.get_put [OF ok, of v] own.get_kept [OF ok, of _ _ v] assms(3)
    by auto
  have kept: "\<forall>c\<in>set owned. get_buf c h' \<noteq> None"
    using assms(2) new(3) by (fastforce simp: owned_ok_alt)
  show ?thesis
  proof (cases "v = []")
    case True
    then show ?thesis
      using assms(2,3) new(2) by (auto simp: into_buf_def owned_ok_alt is_block_def)
  next
    case False
    have fresh: "alloc (live h) \<noteq> 0" "alloc (live h) \<notin> dom (blocks h)"
      using alloc_fresh [OF assms(1), of h] ok by (simp_all add: domIff)
    have b: "b = \<lparr>b_ptr = alloc (live h), b_len = length v\<rparr>"
      "h' = h\<lparr>blocks := (blocks h)(alloc (live h) \<mapsto> v)\<rparr>"
      using assms(3) False by (simp_all add: into_buf_def)
    have "is_block b" using b(1) fresh(1) False by (simp add: is_block_def)
    then show ?thesis
      using assms(2) new(1,2) kept fresh(2) unfolding owned_ok_alt b(2) by (simp add: b(1) insert_commute)
  qed
qed

lemma owned_ok_writes:
  assumes "allocator_law alloc" "owned_ok h owned ks" "writes alloc h b h'"
  shows "owned_ok h' (b # owned) ks"
  using assms(3) unfolding writes_def
proof (elim disjE conjE exE)
  assume "b = empty_buf" "h' = h"
  then show ?thesis using assms(2) by (simp add: owned_ok_alt)
next
  fix v
  assume "into_buf alloc v h = (b, h')"
  then show ?thesis by (rule owned_ok_into [OF assms(1,2)])
qed

lemma owned_ok_writes_all:
  "allocator_law alloc \<Longrightarrow> owned_ok h owned ks \<Longrightarrow> writes_all alloc h bs h' \<Longrightarrow>
     owned_ok h' (rev bs @ owned) ks"
proof (induction bs arbitrary: h owned)
  case Nil
  then show ?case by simp
next
  case (Cons b bs)
  from Cons.prems(3) obtain h1 where w: "writes alloc h b h1" "writes_all alloc h1 bs h'" by auto
  show ?case
    using Cons.IH [OF Cons.prems(1) owned_ok_writes [OF Cons.prems(1,2) w(1)] w(2)] by simp
qed

lemma owned_ok_free:
  assumes "owned_ok h owned ks" "b \<in> set owned" "msdk_free b h = Some h'"
  shows "owned_ok h' (remove1 b owned) ks"
proof (cases "is_block b")
  case False
  with assms(3) have "h' = h" by (simp add: msdk_free_eq)
  with False assms(1) show ?thesis
    by (auto simp: owned_ok_alt block_ptrs_remove1_other dest: notin_set_remove1)
next
  case True
  then have h': "h' = h\<lparr>blocks := (blocks h)(b_ptr b := None),
      released := released h @ [replicate (b_len b) 0]\<rparr>"
    using msdk_free_Some [OF assms(3)] by simp
  let ?rest = "remove1 b owned"
  have d: "distinct (block_ptrs owned)" "dom (blocks h) = set (block_ptrs owned)"
    using assms(1) by (simp_all add: owned_ok_alt)
  have ptrs: "block_ptrs ?rest = remove1 (b_ptr b) (block_ptrs owned)"
    by (rule block_ptrs_remove1 [OF d(1) assms(2) True])
  have gone: "b_ptr b \<notin> set (block_ptrs ?rest)" using d(1) ptrs by simp
  have kept: "get_buf c h' \<noteq> None" if "c \<in> set ?rest" for c
  proof -
    have "get_buf c h \<noteq> None" using that assms(1) by (auto simp: owned_ok_alt dest: notin_set_remove1)
    moreover have "\<not> is_block c \<or> b_ptr c \<noteq> b_ptr b" using gone block_ptrsI [OF that] by metis
    ultimately show ?thesis by (cases "is_block c") (auto simp: get_buf_def h')
  qed
  have "mem_ok h'"
    using assms(1) by (auto simp: h' owned_ok_alt mem_ok_def live_def intro: finite_subset [rotated])
  moreover have "dom (blocks h') = set (block_ptrs ?rest)" using d ptrs by (simp add: h')
  ultimately show ?thesis
    using assms(1) kept d(1) ptrs by (auto simp: owned_ok_alt h')
qed

lemma owned_ok_parse:
  assumes "allocator_law alloc" "owned_ok h owned ks"
    "msdk_apikey_parse H L uni crash alloc kp n (Some old) h = (c, Some k, h')"
  shows "owned_ok h' owned (if k = 0 then ks else k # ks)"
proof -
  have "(k = 0 \<and> h' = h) \<or> (\<exists>key. (k, h') = box_key alloc key h)"
    using assms(3)
    by (auto simp: msdk_apikey_parse_def guard_def Let_def case_prod_beta prod_eq_iff
        split: in_ptr.splits if_splits sum.splits)
  then show ?thesis
  proof (elim disjE exE conjE)
    assume "k = 0" "h' = h"
    then show ?thesis using assms(2) by simp
  next
    fix key
    assume e: "(k, h') = box_key alloc key h"
    have ok: "mem_ok h" using assms(2) by (simp add: owned_ok_alt)
    note f = alloc_fresh [OF assms(1) ok]
    from e have kh: "k = alloc (live h)" "h' = h\<lparr>handles := (handles h)(k \<mapsto> key)\<rparr>"
      by (simp_all add: box_key_def)
    have "get_buf b h' = get_buf b h" for b by (simp add: kh get_buf_def)
    moreover have "mem_ok h'" using ok f(1) by (auto simp: kh mem_ok_def live_def)
    moreover have "k \<notin> set ks" using assms(2) f(3) kh(1) by (auto simp: owned_ok_alt)
    ultimately show ?thesis using assms(2) f(1) kh(1) by (simp add: owned_ok_alt kh(2))
  qed
qed

lemma owned_ok_free_key:
  assumes "owned_ok h owned ks" "k \<in> set ks" "msdk_apikey_free k h = Some h'"
  shows "owned_ok h' owned (remove1 k ks)"
proof -
  have k: "k \<in> dom (handles h)" using assms(1,2) by (simp add: owned_ok_alt)
  then have "k \<noteq> 0" using assms(1) by (auto simp: owned_ok_alt mem_ok_def live_def)
  then have h': "h' = h\<lparr>handles := (handles h)(k := None)\<rparr>"
    using assms(3) by (auto simp: msdk_apikey_free_def split: option.splits)
  have "mem_ok h'" using assms(1) by (auto simp: h' owned_ok_alt mem_ok_def live_def intro: finite_subset [rotated])
  moreover have "get_buf b h' = get_buf b h" for b by (simp add: h' get_buf_def)
  ultimately show ?thesis using assms(1) by (auto simp: owned_ok_alt h')
qed

section \<open>Every entry point writes or clears\<close>

lemma hands_out_writes: "hands_out alloc v h (c, Some b, h') \<Longrightarrow> writes alloc h b h'"
  by (simp add: hands_out_def writes_def) (metis prod.collapse)

lemma deliver_writes:
  "guard (deliver alloc err crash r h) = (c, Some b, h') \<Longrightarrow> writes alloc h b h'"
  by (auto simp: deliver_def guard_def case_prod_beta writes_def prod_eq_iff split: if_splits sum.splits)

lemma cleared_writes: "guard (x, Some empty_buf, h) = (c, Some b, h') \<Longrightarrow> writes alloc h b h'"
  by (auto simp: guard_def)

lemma into_writes:
  "(let (b, h1) = into_buf alloc v h in Some (guard (Some MSDK_OK, Some b, h1))) = Some (c, Some b', h') \<Longrightarrow>
     writes alloc h b' h'"
  by (auto simp: guard_def writes_def case_prod_beta prod_eq_iff)

lemma envelope_writes:
  "into_envelope alloc env h = (e, h') \<Longrightarrow>
     writes_all alloc h [v_binding_id e, v_capsule e, v_proof e, v_ct e] h'"
  unfolding writes_all.simps by (force simp: into_envelope_def split: prod.splits dest!: writes_into)

lemma empty_envelope_writes:
  "writes_all alloc h [v_binding_id empty_envelope, v_capsule empty_envelope, v_proof empty_envelope,
     v_ct empty_envelope] h"
  unfolding empty_envelope_def by simp (metis writes_empty)

lemma buffer_call_writes:
  assumes "buffer_call K L alloc ks h bs h'"
  shows "writes_all alloc h bs h'"
  using assms
proof cases
  case (call_payload crash sid subs n bh i old c b)
  then show ?thesis
    by (auto simp: msdk_signing_payload_def intro: deliver_writes cleared_writes split: option.splits if_splits)
next
  case (call_lagrange crash p subs n old c b)
  then show ?thesis
    by (auto simp: msdk_lagrange_for_def intro: deliver_writes cleared_writes split: option.splits)
next
  case (call_open crash sa n1 cap n2 sid epoch bid n3 a n4 ctx n5 ps n6 old c b)
  then show ?thesis
    using msdk_open_secret_cases [of sa n1 cap n2 sid bid n3 a n4 ctx n5 ps n6 crash "Some old" K epoch alloc h]
    by (auto simp: refuses_def intro: hands_out_writes)
next
  case (call_encrypt crash fill pk n1 epoch secrets n2 a n3 bid n4 old c e)
  then show ?thesis
    by (auto simp: msdk_encrypt_def guard_def case_prod_beta simp del: writes_all.simps
        intro: envelope_writes empty_envelope_writes prod_eqI split: option.splits if_splits sum.splits)
next
  case (call_account k old c b)
  then show ?thesis
    by (auto simp: msdk_apikey_account_id_def intro: into_writes cleared_writes split: option.splits if_splits)
next
  case (call_scheme k old c b)
  then show ?thesis
    by (auto simp: msdk_apikey_scheme_def intro: into_writes cleared_writes split: option.splits if_splits)
next
  case (call_sign k crash msg n old c b)
  then show ?thesis
    by (auto simp: msdk_apikey_sign_def Let_def guard_def writes_def case_prod_beta prod_eq_iff
        split: option.splits if_splits sum.splits)
qed

lemma session_owned_ok:
  assumes "allocator_law alloc" "session H K L uni alloc h owned ks"
  shows "owned_ok h owned ks"
  using assms(2)
proof induction
  case start
  show ?case by (rule owned_ok_new)
next
  case (receive h owned ks bs h')
  then show ?case using owned_ok_writes_all [OF assms(1)] buffer_call_writes by metis
next
  case (release h owned ks b h')
  show ?case by (rule owned_ok_free [OF release.IH release.hyps(2,3)])
next
  case (parse_key h owned ks crash kp n old c k h')
  show ?case by (rule owned_ok_parse [OF assms(1) parse_key.IH parse_key.hyps(2)])
next
  case (free_key h owned ks k h')
  show ?case by (rule owned_ok_free_key [OF free_key.IH free_key.hyps(2,3)])
qed

section \<open>What a session can rely on\<close>

lemma get_buf_freed:
  "get_buf b h \<noteq> None \<Longrightarrow> \<exists>h'. msdk_free b h = Some h'"
  by (auto simp: get_buf_def msdk_free_eq split: option.splits if_splits)

lemma owned_ok_handle:
  "owned_ok h owned ks \<Longrightarrow> k \<in> set ks \<Longrightarrow> k \<noteq> 0 \<and> (\<exists>key. handles h k = Some key)"
  unfolding owned_ok_alt mem_ok_def live_def by (metis UnI2 domD)

lemma live_handle_defined:
  assumes "handles h k = Some key"
  shows "msdk_apikey_free k h \<noteq> None"
    and "msdk_apikey_account_id alloc k out h \<noteq> None"
    and "msdk_apikey_scheme alloc k out h \<noteq> None"
    and "msdk_apikey_sign L crash alloc k msg n out h \<noteq> None"
  using assms
  by (auto simp: msdk_apikey_free_def msdk_apikey_account_id_def msdk_apikey_scheme_def
      msdk_apikey_sign_def api_key_sign_def Let_def guard_def case_prod_beta split: option.splits)

text \<open>Every live handle holds a key that was parsed.\<close>

definition parsed_handles :: "hex_lib \<Rightarrow> ('kp, 'm, 'j) signer_lib \<Rightarrow> (str \<Rightarrow> bool) \<Rightarrow> 'kp api_key memory \<Rightarrow> bool" where
  "parsed_handles H L uni h \<longleftrightarrow>
     (\<forall>k key. handles h k = Some key \<longrightarrow> (\<exists>text. api_key_parse H L uni text = Ok key))"

lemma into_buf_handles: "into_buf alloc v h = (b, h') \<Longrightarrow> handles h' = handles h"
  by (auto simp: into_buf_def split: if_splits)

lemma writes_handles: "writes alloc h b h' \<Longrightarrow> handles h' = handles h"
  by (auto simp: writes_def dest: into_buf_handles)

lemma writes_all_handles: "writes_all alloc h bs h' \<Longrightarrow> handles h' = handles h"
  by (induction bs arbitrary: h) (auto dest: writes_handles)

lemma session_parsed:
  assumes "session H K L uni alloc h owned ks"
  shows "parsed_handles H L uni h"
  using assms
proof induction
  case start
  show ?case by (simp add: parsed_handles_def new_memory_def)
next
  case (receive h owned ks bs h')
  then show ?case using writes_all_handles [OF buffer_call_writes [OF receive.hyps(2)]]
    by (simp add: parsed_handles_def)
next
  case (release h owned ks b h')
  then show ?case using msdk_free_Some [OF release.hyps(3)] by (auto simp: parsed_handles_def)
next
  case (parse_key h owned ks crash kp n old c k h')
  from parse_key.hyps(2)
  have "h' = h \<or> (\<exists>key text. api_key_parse H L uni text = Ok key \<and> handles h' = (handles h)(k \<mapsto> key))"
    by (auto simp: msdk_apikey_parse_def guard_def Let_def box_key_def
        split: in_ptr.splits if_splits sum.splits)
  then show ?case using parse_key.IH by (auto simp: parsed_handles_def split: if_splits)
next
  case (free_key h owned ks k h')
  then show ?case by (auto simp: parsed_handles_def msdk_apikey_free_def split: if_splits option.splits)
qed

section \<open>A concrete session\<close>

text \<open>The session that parses a key and asks for its account id.\<close>

definition ref_uri :: str where
  "ref_uri = ''0x'' @ concat (replicate 32 ''2a'')"

definition ref_key :: "bytes api_key" where
  "ref_key = from_keypair keys_ref (replicate 32 42)"

definition ref_memory :: "bytes api_key memory" where
  "ref_memory = new_memory\<lparr>handles := [1 \<mapsto> ref_key]\<rparr>"

definition ref_owned :: "buf list" where
  "ref_owned = [\<lparr>b_ptr = 2, b_len = 32\<rparr>]"

lemma ref_parse:
  "msdk_apikey_parse hex_ref keys_ref (\<lambda>_. False) False bump (Ptr (str_bytes ref_uri)) 66 (Some 7) new_memory =
     (MSDK_OK, Some 1, ref_memory)"
proof -
  have t: "take 66 (str_bytes ref_uri) = str_bytes ref_uri" "utf8_valid (str_bytes ref_uri)"
    "bytes_str (str_bytes ref_uri) = ref_uri"
    by code_simp+
  have e: "api_key_parse hex_ref keys_ref (\<lambda>_. False) ref_uri = Ok ref_key"
    unfolding ref_key_def ref_uri_def by code_simp
  have "bump (live (new_memory :: bytes api_key memory)) = 1"
    "handles (new_memory :: bytes api_key memory) = Map.empty"
    by (simp_all add: live_def new_memory_def bump_def)
  then show ?thesis
    by (simp add: msdk_apikey_parse_def t e box_key_def guard_def ref_memory_def)
qed

lemma ref_account:
  "\<exists>h'. msdk_apikey_account_id bump 1 (Some empty_buf) ref_memory = Some (MSDK_OK, Some \<lparr>b_ptr = 2, b_len = 32\<rparr>, h')"
proof -
  have a: "length (as_bytes (account ref_key)) = 32" "as_bytes (account ref_key) \<noteq> []"
    unfolding ref_key_def by code_simp+
  have "live ref_memory = {1}" by (simp add: live_def ref_memory_def new_memory_def)
  then have "bump (live ref_memory) = 2" by (simp add: bump_def)
  then show ?thesis
    using a by (simp add: msdk_apikey_account_id_def ref_memory_def guard_def into_buf_def Let_def)
qed

lemma ref_session_key: "session hex_ref kgc_ref keys_ref (\<lambda>_. False) bump ref_memory [] [1]"
  using session.parse_key [OF session.start ref_parse] by simp

lemma ref_session: "\<exists>h. session hex_ref kgc_ref keys_ref (\<lambda>_. False) bump h ref_owned [1]"
proof -
  from ref_account obtain h' where
    "msdk_apikey_account_id bump 1 (Some empty_buf) ref_memory = Some (MSDK_OK, Some \<lparr>b_ptr = 2, b_len = 32\<rparr>, h')" ..
  from session.receive [OF ref_session_key call_account [OF _ this]] show ?thesis
    by (auto simp: ref_owned_def)
qed

section \<open>Properties\<close>

text \<open>
  C7. Sessions are memory safe: in every session of a caller that releases only what it owns,
  each owned buffer still reads and can be released, each owned handle is live, the live blocks
  are exactly the owned ones with no two buffers sharing one, everything already released was
  wiped first, and a caller that has released everything leaves nothing behind.
\<close>

theorem ffi_sessions_are_memory_safe:
  assumes "allocator_law alloc" and "session H K L uni alloc h owned ks"
  shows "(\<forall>b\<in>set owned. get_buf b h \<noteq> None \<and> msdk_free b h \<noteq> None) \<and>
    (\<forall>k\<in>set ks. msdk_apikey_free k h \<noteq> None \<and>
       msdk_apikey_account_id alloc k out h \<noteq> None \<and> msdk_apikey_scheme alloc k out h \<noteq> None \<and>
       msdk_apikey_sign L crash alloc k msg n out h \<noteq> None) \<and>
    dom (blocks h) = b_ptr ` {b \<in> set owned. is_block b} \<and>
    distinct (map b_ptr (filter is_block owned)) \<and>
    (\<forall>v\<in>set (released h). \<forall>x\<in>set v. x = 0) \<and>
    (owned = [] \<and> ks = [] \<longrightarrow> live h = {})"
proof (intro conjI)
  have inv: "owned_ok h owned ks" by (rule session_owned_ok [OF assms])
  show "\<forall>b\<in>set owned. get_buf b h \<noteq> None \<and> msdk_free b h \<noteq> None"
    using inv get_buf_freed by (fastforce simp: owned_ok_def)
  show "\<forall>k\<in>set ks. msdk_apikey_free k h \<noteq> None \<and>
       msdk_apikey_account_id alloc k out h \<noteq> None \<and> msdk_apikey_scheme alloc k out h \<noteq> None \<and>
       msdk_apikey_sign L crash alloc k msg n out h \<noteq> None"
  proof
    fix k
    assume "k \<in> set ks"
    with owned_ok_handle [OF inv] obtain key where "handles h k = Some key" by blast
    then show "msdk_apikey_free k h \<noteq> None \<and>
       msdk_apikey_account_id alloc k out h \<noteq> None \<and> msdk_apikey_scheme alloc k out h \<noteq> None \<and>
       msdk_apikey_sign L crash alloc k msg n out h \<noteq> None"
      by (intro conjI live_handle_defined)
  qed
  show "dom (blocks h) = b_ptr ` {b \<in> set owned. is_block b}"
    "distinct (map b_ptr (filter is_block owned))" "\<forall>v\<in>set (released h). \<forall>x\<in>set v. x = 0"
    using inv by (simp_all add: owned_ok_def)
  show "owned = [] \<and> ks = [] \<longrightarrow> live h = {}" using inv by (auto simp: owned_ok_def live_def)
qed

theorem ffi_sessions_are_memory_safe_witness:
  "\<exists>h. session hex_ref kgc_ref keys_ref (\<lambda>_. False) bump h ref_owned [1] \<and>
     msdk_free \<lparr>b_ptr = 2, b_len = 32\<rparr> h \<noteq> None \<and> dom (blocks h) = {2}"
proof -
  obtain h where s: "session hex_ref kgc_ref keys_ref (\<lambda>_. False) bump h ref_owned [1]"
    using ref_session by blast
  have b: "{b \<in> set ref_owned. is_block b} = {\<lparr>b_ptr = 2, b_len = 32\<rparr>}"
    by (auto simp: ref_owned_def is_block_def)
  note safe = ffi_sessions_are_memory_safe [OF bump_law s, unfolded b]
  have "msdk_free \<lparr>b_ptr = 2, b_len = 32\<rparr> h \<noteq> None" "dom (blocks h) = {2}"
    using safe by (simp_all add: ref_owned_def)
  with s show ?thesis by blast
qed

text \<open>
  C37. The buffers of a key have the documented shape: through any handle a caller owns, the
  account id is 32 bytes, a signature over any readable message is 64 bytes, the scheme reads
  as its token, and all three calls succeed.
\<close>

theorem apikey_buffers_have_fixed_size:
  assumes "allocator_law alloc" and "subxt_keys L" and "session H K L uni alloc h owned ks"
    and "k \<in> set ks" and "msg \<noteq> Null \<or> n = 0"
  shows "(\<exists>b h'. msdk_apikey_account_id alloc k (Some old) h = Some (MSDK_OK, Some b, h') \<and>
      b_len b = ACCOUNT_ID_BYTES) \<and>
    (\<exists>b h'. msdk_apikey_sign L False alloc k msg n (Some old) h = Some (MSDK_OK, Some b, h') \<and>
      b_len b = SIGNATURE_BYTES) \<and>
    (\<exists>b h'. msdk_apikey_scheme alloc k (Some old) h = Some (MSDK_OK, Some b, h') \<and>
      get_buf b h' = Some (str_bytes ''sr25519''))"
proof -
  have inv: "owned_ok h owned ks" by (rule session_owned_ok [OF assms(1,3)])
  from owned_ok_handle [OF inv assms(4)] obtain key where k: "k \<noteq> 0" "handles h k = Some key" by blast
  from session_parsed [OF assms(3)] k(2) obtain s where p: "api_key_parse H L uni s = Ok key"
    by (auto simp: parsed_handles_def)
  have len: "length (as_bytes (account key)) = 32" "length (kp_sign L (material key) m) = 64" for m
    using subxt_keys.parsed_key_signs [OF assms(2) p] subxt_keys.raw_signature_bytes [OF assms(2)]
    by auto
  have ok: "allocator_law alloc \<and> mem_ok h" using assms(1) inv by (simp add: owned_ok_def)
  have sr: "scheme_as_str (key_scheme key) = ''sr25519''" by (cases "key_scheme key") simp
  have "\<exists>b h'. msdk_apikey_account_id alloc k (Some old) h = Some (MSDK_OK, Some b, h') \<and>
      b_len b = ACCOUNT_ID_BYTES"
    using k len(1) by (simp add: msdk_apikey_account_id_def guard_def case_prod_beta into_buf_len ACCOUNT_ID_BYTES_def)
  moreover have "\<exists>b h'. msdk_apikey_sign L False alloc k msg n (Some old) h = Some (MSDK_OK, Some b, h') \<and>
      b_len b = SIGNATURE_BYTES"
    using k len(2) assms(5)
    by (auto simp: msdk_apikey_sign_def api_key_sign_def guard_def Let_def case_prod_beta into_buf_len
        SIGNATURE_BYTES_def)
  moreover have "\<exists>b h'. msdk_apikey_scheme alloc k (Some old) h = Some (MSDK_OK, Some b, h') \<and>
      get_buf b h' = Some (str_bytes ''sr25519'')"
    using k own.get_put [OF ok, of "str_bytes ''sr25519''"]
    by (simp add: msdk_apikey_scheme_def guard_def case_prod_beta sr)
  ultimately show ?thesis by simp
qed

theorem apikey_buffers_have_fixed_size_witness:
  "\<exists>b h'. msdk_apikey_sign keys_ref False bump 1 (Ptr [1, 2, 3]) 3 (Some empty_buf) ref_memory =
      Some (MSDK_OK, Some b, h') \<and> b_len b = 64"
  using apikey_buffers_have_fixed_size [OF bump_law keysr.subxt_keys_axioms ref_session_key,
      of 1 "Ptr [1, 2, 3]" 3 empty_buf]
  by (simp add: SIGNATURE_BYTES_def)

text \<open>
  \<open>msdk_apikey_parse\<close> refines \<open>ApiKey::parse\<close>: it succeeds exactly on readable UTF-8 that
  parses, with a live handle to that very key; every failure clears the handle, keeps the memory
  and reports the argument error for text it cannot read and the key error otherwise.
\<close>

theorem ffi_parse_refines_core:
  assumes "allocator_law alloc" and "mem_ok h"
  shows "case msdk_apikey_parse H L uni False alloc ptr n (Some old) h of (c, out, h') \<Rightarrow>
    (case ptr of
       Null \<Rightarrow> c = MSDK_ERR_INVALID_ARG \<and> out = Some 0 \<and> h' = h
     | Ptr m \<Rightarrow>
        if utf8_valid (take n m)
        then (case api_key_parse H L uni (bytes_str (take n m)) of
                Ok key \<Rightarrow> c = MSDK_OK \<and>
                  (\<exists>k. out = Some k \<and> k \<notin> live h \<and> k \<noteq> 0 \<and> handles h' = (handles h)(k \<mapsto> key) \<and>
                     blocks h' = blocks h)
              | Err e \<Rightarrow> c = MSDK_ERR_KEY \<and> out = Some 0 \<and> h' = h)
        else c = MSDK_ERR_INVALID_ARG \<and> out = Some 0 \<and> h' = h)"
  using alloc_fresh [OF assms]
  by (auto simp: msdk_apikey_parse_def guard_def key_status_def box_key_def live_def Let_def
      split: in_ptr.splits sum.splits)

theorem ffi_parse_refines_core_witness:
  "\<exists>h'. msdk_apikey_parse hex_ref keys_ref (\<lambda>_. False) False bump (Ptr (str_bytes ref_uri)) 66 (Some 7)
      new_memory = (MSDK_OK, Some 1, h') \<and> handles h' 1 = Some ref_key \<and> blocks h' = Map.empty"
proof -
  have ok: "mem_ok new_memory" by (simp add: mem_ok_def live_def new_memory_def)
  have t: "take 66 (str_bytes ref_uri) = str_bytes ref_uri" "utf8_valid (str_bytes ref_uri)"
    "bytes_str (str_bytes ref_uri) = ref_uri"
    by code_simp+
  have e: "api_key_parse hex_ref keys_ref (\<lambda>_. False) ref_uri = Ok ref_key"
    unfolding ref_key_def ref_uri_def by code_simp
  from ffi_parse_refines_core [where H = hex_ref and L = keys_ref and uni = "\<lambda>_. False"
      and ptr = "Ptr (str_bytes ref_uri)" and n = 66 and old = 7, OF bump_law ok]
  show ?thesis unfolding ref_parse by (simp add: t e new_memory_def)
qed

end
