(* ===== verification/Bindings.thy ===== *)
theory Bindings
  imports Ffi_Key
begin

text \<open>
  The Python extension module (\<open>bindings/python/src/lib.rs\<close>) and the WebAssembly module
  (\<open>bindings/wasm/src/lib.rs\<close>). A Python exception is a \<open>py_error\<close>, a thrown JavaScript error its
  message; byte objects on either side are byte strings. How the JavaScript runtime reads an
  array of partials (\<open>serde_wasm_bindgen\<close>) is the parameter \<open>from_value\<close>.
\<close>

section \<open>Python\<close>

datatype py_error = ValueError (py_message: str) | TypeError (py_message: str)

definition py_err :: "hex_lib \<Rightarrow> core_error \<Rightarrow> py_error" where
  "py_err H e = ValueError (core_error_display H e)"

definition py_key_err :: "key_error \<Rightarrow> py_error" where
  "py_key_err e = ValueError (key_error_display e)"

definition py_encrypt ::
  "hex_lib \<Rightarrow> 'o kgc \<Rightarrow> (nat \<Rightarrow> bytes) \<Rightarrow> bytes \<Rightarrow> u32 \<Rightarrow> bytes \<Rightarrow> bytes \<Rightarrow> bytes option
     \<Rightarrow> py_error + (bytes \<times> bytes \<times> bytes \<times> bytes)" where
  "py_encrypt H K fill joint_pk epoch pt a bid =
     rbind (map_err (py_err H) (encrypt K fill joint_pk epoch pt a bid)) (\<lambda>env.
       Ok (binding_id env, capsule env, proof_blob env, ct env))"

definition py_signing_payload ::
  "'o kgc \<Rightarrow> u128 \<Rightarrow> u64 list \<Rightarrow> bytes \<Rightarrow> u64 \<Rightarrow> py_error + bytes" where
  "py_signing_payload K i subs block_hash recipient_index =
     (if length block_hash = 32 then Ok (signing_payload K i subs block_hash recipient_index)
      else Err (ValueError ''block_hash must be 32 bytes''))"

definition py_lagrange_for :: "hex_lib \<Rightarrow> 'o kgc \<Rightarrow> u64 \<Rightarrow> u64 list \<Rightarrow> py_error + bytes" where
  "py_lagrange_for H K p subs = map_err (py_err H) (lagrange_for K p subs)"

definition py_verify_plaintext_proof ::
  "hex_lib \<Rightarrow> 'o kgc \<Rightarrow> bytes \<Rightarrow> bytes \<Rightarrow> bytes \<Rightarrow> bytes \<Rightarrow> u32 \<Rightarrow> py_error + bool" where
  "py_verify_plaintext_proof H K joint_pk cap tagged_proof bid epoch =
     map_err (py_err H) (verify_plaintext_proof K joint_pk cap tagged_proof bid epoch)"

type_synonym partial_tuple = "u64 \<times> bytes \<times> bytes \<times> bytes"

definition py_partial :: "partial_tuple \<Rightarrow> partial_input" where
  "py_partial t = (case t of (p, pd, pf, cm) \<Rightarrow>
     \<lparr>point = p, partial = pd, p_proof = pf, commitment = cm\<rparr>)"

definition py_open_secret ::
  "hex_lib \<Rightarrow> 'o kgc \<Rightarrow> bytes \<Rightarrow> bytes \<Rightarrow> u128 \<Rightarrow> u32 \<Rightarrow> bytes \<Rightarrow> bytes \<Rightarrow> bytes \<Rightarrow> partial_tuple list
     \<Rightarrow> py_error + bytes" where
  "py_open_secret H K shared_a cap i epoch bid a c partials =
     rbind (map_err (py_err H)
         (open_secret K shared_a cap i epoch bid a c (map py_partial partials))) (\<lambda>pt.
       Ok (expose pt))"

definition py_new ::
  "hex_lib \<Rightarrow> ('kp, 'm, 'j) signer_lib \<Rightarrow> (str \<Rightarrow> bool) \<Rightarrow> str \<Rightarrow> py_error + 'kp api_key" where
  "py_new H L uni key = map_err py_key_err (api_key_parse H L uni key)"

definition py_scheme :: "'kp api_key \<Rightarrow> str" where
  "py_scheme k = scheme_as_str (key_scheme k)"

definition py_account_id :: "'kp api_key \<Rightarrow> bytes" where
  "py_account_id k = as_bytes (account k)"

definition py_account_id_hex :: "hex_lib \<Rightarrow> 'kp api_key \<Rightarrow> str" where
  "py_account_id_hex H k = account_to_hex H (account k)"

definition py_sign :: "('kp, 'm, 'j) signer_lib \<Rightarrow> 'kp api_key \<Rightarrow> bytes \<Rightarrow> py_error + bytes" where
  "py_sign L k message = map_err py_key_err (api_key_sign L k message)"

definition py_repr :: "hex_lib \<Rightarrow> 'kp api_key \<Rightarrow> str" where
  "py_repr H k = ''ApiKey('' @ py_scheme k @ '', '' @ py_account_id_hex H k @ '', <redacted>)''"

definition py_str :: "hex_lib \<Rightarrow> 'kp api_key \<Rightarrow> str" where
  "py_str H k = py_repr H k"

definition py_reduce :: "'kp api_key \<Rightarrow> py_error + unit" where
  "py_reduce k = Err (TypeError (''refusing to pickle an ApiKey; pass the key string through your '' @
     ''secret manager instead''))"

definition py_copy :: "'kp api_key \<Rightarrow> py_error + unit" where
  "py_copy k = Err (TypeError ''refusing to copy an ApiKey'')"

definition py_deepcopy :: "'kp api_key \<Rightarrow> 'memo \<Rightarrow> py_error + unit" where
  "py_deepcopy k memo = Err (TypeError ''refusing to deep-copy an ApiKey'')"

section \<open>JavaScript\<close>

datatype js_error = JsError (js_message: str)

definition js_err :: "hex_lib \<Rightarrow> core_error \<Rightarrow> js_error" where
  "js_err H e = JsError (core_error_display H e)"

definition js_key_err :: "key_error \<Rightarrow> js_error" where
  "js_key_err e = JsError (key_error_display e)"

definition js_new ::
  "hex_lib \<Rightarrow> ('kp, 'm, 'j) signer_lib \<Rightarrow> (str \<Rightarrow> bool) \<Rightarrow> str \<Rightarrow> js_error + 'kp api_key" where
  "js_new H L uni key = map_err js_key_err (api_key_parse H L uni key)"

definition js_scheme :: "'kp api_key \<Rightarrow> str" where
  "js_scheme k = scheme_as_str (key_scheme k)"

definition js_account_id :: "'kp api_key \<Rightarrow> bytes" where
  "js_account_id k = as_bytes (account k)"

definition js_account_id_hex :: "hex_lib \<Rightarrow> 'kp api_key \<Rightarrow> str" where
  "js_account_id_hex H k = account_to_hex H (account k)"

definition js_sign :: "('kp, 'm, 'j) signer_lib \<Rightarrow> 'kp api_key \<Rightarrow> bytes \<Rightarrow> js_error + bytes" where
  "js_sign L k message = map_err js_key_err (api_key_sign L k message)"

definition js_to_string :: "hex_lib \<Rightarrow> 'kp api_key \<Rightarrow> str" where
  "js_to_string H k = ''ApiKey('' @ js_scheme k @ '', '' @ js_account_id_hex H k @ '', <redacted>)''"

definition js_to_json :: "hex_lib \<Rightarrow> 'kp api_key \<Rightarrow> str" where
  "js_to_json H k = js_to_string H k"

record encrypted_secret_js =
  js_binding_id :: bytes
  js_capsule :: bytes
  js_proof :: bytes
  js_ct :: bytes

definition js_encrypt_secret ::
  "hex_lib \<Rightarrow> 'o kgc \<Rightarrow> (nat \<Rightarrow> bytes) \<Rightarrow> bytes \<Rightarrow> u32 \<Rightarrow> bytes \<Rightarrow> bytes \<Rightarrow> bytes option
     \<Rightarrow> js_error + encrypted_secret_js" where
  "js_encrypt_secret H K fill joint_pk epoch secrets a bid =
     rbind (map_err (js_err H) (encrypt K fill joint_pk epoch secrets a bid)) (\<lambda>env.
       Ok \<lparr>js_binding_id = binding_id env, js_capsule = capsule env, js_proof = proof_blob env,
          js_ct = ct env\<rparr>)"

definition js_signing_payload ::
  "hex_lib \<Rightarrow> 'o kgc \<Rightarrow> str \<Rightarrow> u64 list \<Rightarrow> str \<Rightarrow> u64 \<Rightarrow> js_error + bytes" where
  "js_signing_payload H K secret_id_hex subs block_hash_hex recipient_index =
     rbind (map_err (js_err H) (secret_id_from_hex H secret_id_hex)) (\<lambda>i.
     rbind (map_err (js_err H) (from_0x H ''block_hash'' block_hash_hex)) (\<lambda>bh.
     if length bh = 32 then Ok (signing_payload K i subs bh recipient_index)
     else Err (JsError ''block_hash must be 32 bytes'')))"

definition js_lagrange_for :: "hex_lib \<Rightarrow> 'o kgc \<Rightarrow> u64 \<Rightarrow> u64 list \<Rightarrow> js_error + bytes" where
  "js_lagrange_for H K p subs = map_err (js_err H) (lagrange_for K p subs)"

definition js_verify_plaintext_proof ::
  "hex_lib \<Rightarrow> 'o kgc \<Rightarrow> bytes \<Rightarrow> bytes \<Rightarrow> bytes \<Rightarrow> bytes \<Rightarrow> u32 \<Rightarrow> js_error + bool" where
  "js_verify_plaintext_proof H K joint_pk cap tagged_proof bid epoch =
     map_err (js_err H) (verify_plaintext_proof K joint_pk cap tagged_proof bid epoch)"

definition js_crypto_protocol_version :: "'o kgc \<Rightarrow> u16" where
  "js_crypto_protocol_version K = CRYPTO_PROTOCOL_VERSION K"

text \<open>The cap is far below \<open>2^53\<close>, so the float that carries it is exact.\<close>

definition js_max_committee_response_bytes :: nat where
  "js_max_committee_response_bytes = MAX_COMMITTEE_RESPONSE_BYTES"

record partial_input_js =
  pj_point :: u64
  pj_partial :: bytes
  pj_proof :: bytes
  pj_commitment :: bytes

definition js_partial :: "partial_input_js \<Rightarrow> partial_input" where
  "js_partial p =
     \<lparr>point = pj_point p, partial = pj_partial p, p_proof = pj_proof p, commitment = pj_commitment p\<rparr>"

definition js_open_secret ::
  "hex_lib \<Rightarrow> 'o kgc \<Rightarrow> ('v \<Rightarrow> str + partial_input_js list) \<Rightarrow> bytes \<Rightarrow> bytes \<Rightarrow> str \<Rightarrow> u32 \<Rightarrow> bytes
     \<Rightarrow> bytes \<Rightarrow> bytes \<Rightarrow> 'v \<Rightarrow> js_error + bytes" where
  "js_open_secret H K from_value shared_a cap secret_id_hex epoch bid a c partials =
     rbind (map_err (js_err H) (secret_id_from_hex H secret_id_hex)) (\<lambda>i.
     rbind (map_err (\<lambda>e. JsError (''partials shape: '' @ e)) (from_value partials)) (\<lambda>inputs.
     rbind (map_err (js_err H)
         (open_secret K shared_a cap i epoch bid a c (map js_partial inputs))) (\<lambda>pt.
     Ok (expose pt))))"

section \<open>The three bindings side by side\<close>

text \<open>What a caller sees of a result: its value, or the message of the error.\<close>

definition py_view :: "py_error + 'a \<Rightarrow> str + 'a" where
  "py_view r = map_err py_message r"

definition js_view :: "js_error + 'a \<Rightarrow> str + 'a" where
  "js_view r = map_err js_message r"

definition core_view :: "hex_lib \<Rightarrow> core_error + 'a \<Rightarrow> str + 'a" where
  "core_view H r = map_err (core_error_display H) r"

definition as_js :: "partial_tuple \<Rightarrow> partial_input_js" where
  "as_js t = (case t of (p, pd, pf, cm) \<Rightarrow>
     \<lparr>pj_point = p, pj_partial = pd, pj_proof = pf, pj_commitment = cm\<rparr>)"

lemma js_partial_as_js: "js_partial \<circ> as_js = py_partial"
  by (auto simp: fun_eq_iff js_partial_def as_js_def py_partial_def)

lemmas view_defs = py_view_def js_view_def core_view_def py_err_def js_err_def py_key_err_def
  js_key_err_def

section \<open>Properties\<close>

text \<open>
  The bindings agree: for the same secret id, block hash and partials, the Python and the
  JavaScript module give the same bytes or the same message as the core does, for the signing
  payload, for opening a secret and for signing with a key parsed from the same text.
\<close>

theorem bindings_agree:
  assumes "hex_crate H" and "from_value v = Ok (map as_js partials)"
  shows "py_view (py_open_secret H K sa cap i epoch bid a c partials) =
      core_view H (map_sum id expose (open_secret K sa cap i epoch bid a c (map py_partial partials))) \<and>
    js_view (js_open_secret H K from_value sa cap (secret_id_to_hex H i) epoch bid a c v) =
      py_view (py_open_secret H K sa cap i epoch bid a c partials) \<and>
    js_view (js_signing_payload H K (secret_id_to_hex H i) subs (to_0x H bh) r) =
      py_view (py_signing_payload K i subs bh r) \<and>
    js_view (rbind (js_new H L uni key) (\<lambda>k. js_sign L k m)) =
      py_view (rbind (py_new H L uni key) (\<lambda>k. py_sign L k m))"
proof (intro conjI)
  have hex: "secret_id_from_hex H (secret_id_to_hex H i) = Ok i" "from_0x H ''block_hash'' (to_0x H bh) = Ok bh"
    using hex_crate.secret_id_round_trip [OF assms(1)] hex_crate.from_0x_to_0x [OF assms(1)] by blast+
  show "py_view (py_open_secret H K sa cap i epoch bid a c partials) =
      core_view H (map_sum id expose (open_secret K sa cap i epoch bid a c (map py_partial partials)))"
    by (cases "open_secret K sa cap i epoch bid a c (map py_partial partials)")
      (simp_all add: py_open_secret_def view_defs)
  show "js_view (js_open_secret H K from_value sa cap (secret_id_to_hex H i) epoch bid a c v) =
      py_view (py_open_secret H K sa cap i epoch bid a c partials)"
    by (cases "open_secret K sa cap i epoch bid a c (map py_partial partials)")
      (simp_all add: py_open_secret_def js_open_secret_def view_defs hex assms(2) js_partial_as_js)
  show "js_view (js_signing_payload H K (secret_id_to_hex H i) subs (to_0x H bh) r) =
      py_view (py_signing_payload K i subs bh r)"
    by (simp add: js_signing_payload_def py_signing_payload_def view_defs hex)
  show "js_view (rbind (js_new H L uni key) (\<lambda>k. js_sign L k m)) =
      py_view (rbind (py_new H L uni key) (\<lambda>k. py_sign L k m))"
    by (cases "api_key_parse H L uni key")
      (simp_all add: js_new_def py_new_def js_sign_def py_sign_def view_defs api_key_sign_def)
qed

theorem bindings_agree_witness:
  "js_view (js_open_secret hex_ref kgc_ref (\<lambda>_. Ok (map as_js [(1, [4], [4], []), (2, [4], [4], [])]))
      [] [] (secret_id_to_hex hex_ref 7) 3 [] [9] (replicate 12 0 @ [3, 7, 8, 9]) ()) = Ok [7, 8]"
proof -
  have o: "open_secret kgc_ref [] [] 7 3 [] [9] (replicate 12 0 @ [3, 7, 8, 9]) [ref_partial 1, ref_partial 2] =
      Ok (Plaintext [7, 8])"
    by (simp add: open_secret_def subset_points_def de_def bound_def decode_partial_def
        ref_partial_def kgc_ref_def MAX_DECODE_BYTES_def Let_def)
  have p: "map py_partial [(1, [4], [4], []), (2, [4], [4], [])] = [ref_partial 1, ref_partial 2]"
    by (simp add: py_partial_def ref_partial_def)
  note agree = bindings_agree [where H = hex_ref and K = kgc_ref and i = 7 and sa = "[]" and cap = "[]" and bid = "[]"
        and from_value = "\<lambda>_. Ok (map as_js [(1, [4], [4], []), (2, [4], [4], [])])" and v = "()"
        and partials = "[(1, [4], [4], []), (2, [4], [4], [])]" and epoch = 3 and a = "[9]"
        and c = "replicate 12 0 @ [3, 7, 8, 9]", OF hexr.hex_crate_axioms refl,
        unfolded p o]
  from conjunct1 [OF agree] conjunct1 [OF conjunct2 [OF agree]] show ?thesis
    by (simp add: core_view_def)
qed

text \<open>
  A key is never rendered: whatever its secret material is replaced by, its Rust debug form,
  its Python \<open>repr\<close> and \<open>str\<close> and its JavaScript \<open>toString\<close> and \<open>toJSON\<close> stay the same text, and
  pickling, copying and deep-copying it always fail.
\<close>

theorem key_material_is_never_rendered:
  "api_key_debug H (k\<lparr>material := m\<rparr>) = api_key_debug H k \<and>
   py_repr H (k\<lparr>material := m\<rparr>) = py_repr H k \<and> py_str H (k\<lparr>material := m\<rparr>) = py_repr H k \<and>
   js_to_string H (k\<lparr>material := m\<rparr>) = py_repr H k \<and> js_to_json H (k\<lparr>material := m\<rparr>) = py_repr H k \<and>
   (\<exists>t. py_reduce k = Err (TypeError t)) \<and> (\<exists>t. py_copy k = Err (TypeError t)) \<and>
   (\<exists>t. py_deepcopy k memo = Err (TypeError t))"
  by (simp add: api_key_debug_def py_repr_def py_str_def js_to_string_def js_to_json_def
      py_scheme_def js_scheme_def py_account_id_hex_def js_account_id_hex_def py_reduce_def
      py_copy_def py_deepcopy_def)

end
