(* ===== verification/Test_Vectors.thy ===== *)
theory Test_Vectors
  imports Amount Recover
begin

text \<open>
  Expectations of the unit tests of the crates (the \<open>#[cfg(test)]\<close> modules of \<open>scopes.rs\<close>,
  \<open>amount.rs\<close>, \<open>error.rs\<close> and \<open>recover.rs\<close>, and \<open>matter-sdk-key/tests/parse.rs\<close>), evaluated on the
  definitions of the model: each lemma is named after the test whose cases it replays.
\<close>

section \<open>Scopes\<close>

lemma bit_layout_is_pinned:
  "map (\<lambda>(s, a). bits (single s a))
     [(Deployments, Read), (Deployments, Write), (Collaborations, Read), (Secrets, Read), (Secrets, Write),
      (Volumes, Write), (Datasets, Write), (Networking, Write), (Resources, Write), (Organization, Write),
      (Billing, Write), (Communities, Read), (Communities, Write)] =
   [1, 2, 4, 16, 32, 128, 512, 2048, 8192, 32768, 131072, 262144, 524288]"
  "bits SET_ALL = 1048575"
  by code_simp+

lemma contains_tracks_each_bit:
  "foldl (\<lambda>set (s, a). with_grant set s a) SET_EMPTY
     (concat (map (\<lambda>s. [(s, Read), (s, Write)]) scope_ALL)) = SET_ALL"
  "\<not> contains (single Secrets Write) Secrets Read" "\<not> contains (single Secrets Read) Secrets Write"
  by code_simp+

lemma superset_counts_read_bits:
  "is_superset (covering [Secrets]) (single Secrets Write)"
  "\<not> is_superset (single Secrets Write) (covering [Secrets])"
  "is_superset SET_ALL (covering [Secrets])" "\<not> is_superset SET_EMPTY (single Secrets Write)"
  by code_simp+

lemma undefined_bits_are_invalid:
  "\<not> is_valid (from_bits 0xFFFFFFFF)" "\<not> is_valid (from_bits (2 ^ 20))" "is_valid SET_ALL" "is_valid SET_EMPTY"
  by code_simp+

lemma display_renders_in_discriminant_order:
  "scope_set_display (with_grant (with_grant (with_grant SET_EMPTY Secrets Read) Deployments Write)
     Deployments Read) = ''deployments:rw, secrets:r''"
  by code_simp

lemma parse_is_lenient_about_case_and_separators:
  "list_all (\<lambda>text. scope_set_from_str text = Ok (with_grant (single Deployments Write) Secrets Read))
     [''deployments:w,secrets:r'', ''deployments:w, secrets:r'', ''Deployments:W  Secrets:R'',
      ''  secrets:r , deployments:w  '']"
  "map_sum id scope_set_display (scope_set_from_str ''secrets:wr'') = Ok ''secrets:rw''"
  "scope_set_from_str '''' = Ok SET_EMPTY" "scope_set_from_str ''(NONE)'' = Ok SET_EMPTY"
  by code_simp+

lemma parse_rejects_malformed_entries:
  "map scope_set_from_str [''deployments'', ''deploy:r'', ''secrets:x'', ''secrets:'', ''secrets:rr''] =
     [Err (MissingAccess ''deployments''), Err (UnknownScope ''deploy''), Err (InvalidAccess ''secrets'' ''x''),
      Err (InvalidAccess ''secrets'' ''''), Err (InvalidAccess ''secrets'' ''rr'')]"
  by code_simp

section \<open>Amounts\<close>

lemma parses_the_documented_form:
  "parse_amount ''  +2.25  '' 4 = Ok 22500"
proof -
  have "trim ''  +2.25  '' = ''+2.25''" "without_prefix ''+'' ''+2.25'' = ''2.25''"
    "split_once (CHR ''.'') ''2.25'' = Some (''2'', ''25'')"
    "trim_start_matches (CHR ''0'') ''22500'' = ''22500''" "\<not> starts_with ''-'' ''2.25''"
    "unat (4 :: u8) = 4" "replicate 2 (CHR ''0'') = ''00''"
    by code_simp+
  then show ?thesis
    by (simp add: parse_amount_def parse_u128_def MAX_DECIMALS_def is_ascii_digit_def Let_def)
qed

lemma rejects_malformed_and_negative_amounts:
  "list_all (\<lambda>(text, decimals).
       (case parse_amount text decimals of Inl e \<Rightarrow> True | Inr x \<Rightarrow> False))
     [(''0.0001'', 3), (''1.0000000000001'', 12), ('''', 12), (''  '', 12), (''-1'', 12), (''-0.5'', 12),
      (''abc'', 12), (''1.2.3'', 12), (''1,5'', 12), (''1.'', 12), (''.5'', 12), (''0x10'', 12), (''1e9'', 12)]"
  by code_simp

section \<open>Keys\<close>

lemma empty_and_phraseless_keys_are_rejected:
  "map (api_key_parse hex_ref keys_ref (\<lambda>_. False)) ['''', ''   '', ''sr25519:'', ''sr25519:   ''] =
     replicate 4 (Err KeyEmpty)"
  "map (api_key_parse hex_ref keys_ref (\<lambda>_. False)) [''//Alice'', ''/soft'', ''//Alice//stash'', ''sr25519://Alice''] =
     replicate 4 (Err NO_PHRASE)"
  by code_simp+

lemma prefixes_are_judged_without_echo:
  "map (api_key_parse hex_ref keys_ref (\<lambda>_. False)) [''banana:whatever'', ''fac7959dbfe7:x''] =
     replicate 2 (Err UNRECOGNISED_PREFIX)"
  "map (api_key_parse hex_ref keys_ref (\<lambda>_. False)) [''secp256k1:0x4c08'', ''ecdsa:0xfac7'', ''ed25519:bottom drive''] =
     map (\<lambda>s. Err (UnsupportedScheme s SUPPORTED_SCHEMES)) RESERVED_SCHEMES"
  by code_simp+

section \<open>Errors\<close>

lemma quorum_unavailable_renders_every_fault:
  "sdk_error_display hex_ref (QuorumUnavailable 3 2
     [\<lparr>f_index = 4, f_endpoint = ''https://kgc4'', f_stage = StagePartialDecrypt, f_detail = ''503 Service Unavailable''\<rparr>,
      \<lparr>f_index = 5, f_endpoint = ''https://kgc5'', f_stage = StageHealth, f_detail = ''connection refused''\<rparr>]) =
   ''quorum unavailable: need 3 healthy nodes, found 2 '' @ [CHR 0xE2, CHR 0x80, CHR 0x94] @
   '' node 4 (https://kgc4) partial-decrypt: 503 Service Unavailable; node 5 (https://kgc5) health: connection refused''"
  by code_simp

lemma no_faults_renders_the_bare_count:
  "sdk_error_display hex_ref (QuorumUnavailable 3 1 []) = ''quorum unavailable: need 3 healthy nodes, found 1''"
  by code_simp

section \<open>The committee of an epoch\<close>

definition vector_committee :: "(bytes \<times> u64) list" where
  "vector_committee = [([3], 30), ([1], 10), ([2], 20)]"

definition vector_commitments :: "(bytes \<times> bytes) list" where
  "vector_commitments = [([1], str_bytes ''g1''), ([2], str_bytes ''g2''), ([3], str_bytes ''g3'')]"

lemma assemble_nodes_joins_the_tables_and_sorts:
  "assemble_nodes vector_committee
     [([1], str_bytes ''https://kgc1.example''), ([2], str_bytes ''https://kgc2.example/''),
      ([3], str_bytes ''https://kgc3.example'')] vector_commitments 7 =
   Ok [\<lparr>n_index = 10, n_endpoint = ''https://kgc1.example'', share_commitment = str_bytes ''g1''\<rparr>,
       \<lparr>n_index = 20, n_endpoint = ''https://kgc2.example'', share_commitment = str_bytes ''g2''\<rparr>,
       \<lparr>n_index = 30, n_endpoint = ''https://kgc3.example'', share_commitment = str_bytes ''g3''\<rparr>]"
  by code_simp

lemma assemble_nodes_drops_unlisted_and_junk:
  "map_sum id (map n_index) (assemble_nodes vector_committee
     [([1], str_bytes ''https://kgc1.example''), ([2], str_bytes ''ftp://kgc2.example'')] vector_commitments 7) =
   Ok [10]"
  by code_simp

lemma check_aad_accepts_the_same_tag_or_an_empty_one:
  "check_aad 1 (aad_as_bytes QuantumGuardPolicyDekV1) QuantumGuardPolicyDekV1 = Ok ()"
  "check_aad 1 [] QuantumGuardPolicyDekV1 = Ok ()"
  "check_aad 1 (aad_as_bytes EnvV1) QuantumGuardPolicyDekV1 =
     Err (AadMismatch 1 ''matter-deployment/env/v1'' ''quantum-guard/policy-dek/v1'')"
  by code_simp+

end
