(* ===== verification/Spec2Isabelle.thy ===== *)
theory Spec2Isabelle
  imports Traffic Rounds Interleaving E2e_Harness Demos Local_Committee Bindings Test_Vectors
begin

text \<open>
  A verification of MatterSDK, the client library of the OpenMatter network: it seals secrets
  under the joint key of a key-generating committee, asks committee members for partial
  decryptions until a threshold of them opens a secret, derives and uses API keys, and submits
  calls to the chain either directly or on behalf of a member within granted scopes. The theories
  model the Rust crates under \<open>crates/\<close> and the two Rust binding crates under \<open>bindings/\<close>.

  \<^bold>\<open>Parts and theories.\<close>

  \<^item> \<open>Prelude\<close> and \<open>Rust_Text\<close>: results as sums (\<open>Ok\<close>, \<open>Err\<close>, \<open>rbind\<close> for the question mark), words
    and big-endian bytes, and the string operations of the Rust standard library the sources use.
    Text is a list of bytes in UTF-8. \<open>Utf8\<close>: validity and the lossy reading of byte strings.
  \<^item> \<open>Wire\<close> (\<open>matter-sdk-core/src/error.rs\<close>, \<open>aad.rs\<close>, \<open>wire.rs\<close>, \<open>lib.rs\<close>): errors of the core, the AAD
    registry and hex forms; the locale \<open>hex_crate\<close> is what the \<open>hex\<close> crate promises.
  \<^item> \<open>Seal\<close> (\<open>types.rs\<close>, \<open>encrypt.rs\<close>, \<open>decrypt.rs\<close>): sealing, the proof check and opening, over the
    record \<open>kgc\<close> of library functions. Field bounds are checked before anything is decoded.
  \<^item> \<open>Scopes\<close> (\<open>matter-sdk-key/src/scopes.rs\<close>): the bit mask of grants, its text and its parser.
  \<^item> \<open>Keys\<close> (\<open>scheme.rs\<close>, \<open>suri.rs\<close>, \<open>apikey.rs\<close>, \<open>error.rs\<close>): key text, secret URIs, derivation,
    over the record \<open>signer_lib\<close>; the locale \<open>key_signer\<close> is the \<open>KeySigner\<close> trait.
  \<^item> \<open>Sdk_Error\<close>, \<open>Signer\<close>, \<open>Transport\<close> (\<open>matter-sdk/src/error.rs\<close>, \<open>signer.rs\<close>, \<open>transport.rs\<close>): the
    error type and its rendering, the auth fields of a request, and the capped HTTP client.
  \<^item> \<open>Committee\<close> (\<open>committee.rs\<close>): the threshold decrypt. Probing, choosing a quorum, one round of
    requests and the retry loop thread a world of type \<open>'w\<close> on which the network, the signer and
    the random generator act. \<open>Quorum\<close>: what its result and its errors guarantee. \<open>Traffic\<close>: what
    it signs and sends, over a log of authorizations, requests and answers. \<open>Rounds\<close>: the loop as a relation between rounds, with its bound.
  \<^item> \<open>Amount\<close>, \<open>Calls\<close>, \<open>Scopes_Table\<close> (\<open>chain/amount.rs\<close>, \<open>calls.rs\<close>, \<open>chain/scopes_table.rs\<close>): token
    amounts, call builders, and which scopes a runtime call needs.
  \<^item> \<open>Subxt\<close>: the part of the chain client library that is used, as a record of operations, and
    the combinators for steps that can fail.
  \<^item> \<open>Mode\<close>, \<open>Network\<close>, \<open>Client\<close> (\<open>chain/mode.rs\<close>, \<open>chain/mod.rs\<close>): the identity a client acts under,
    the configuration and the guards of every constructor, and \<open>tx\<close> with the classification of
    its failures. The client is a record whose only mutable field is its mode. \<open>Interleaving\<close>:
    concurrent calls on one client, as tasks whose steps lie between two accesses to the mode;
    the sequential \<open>tx\<close> is one of their runs.
  \<^item> \<open>Recover\<close> (\<open>chain/recover.rs\<close>, \<open>lib.rs\<close>): reading a secret and its committee from the chain and
    recovering it through \<open>decrypt\<close>. \<open>Facade\<close> (\<open>chain/facade.rs\<close>): every typed operation as a call.
  \<^item> \<open>Round_Trip\<close>: the whole path of a secret through \<open>Seal\<close>, \<open>Recover\<close> and \<open>Committee\<close>, with what is
    assumed of the chain's records (\<open>chain_holds\<close>) and of the nodes (\<open>dependable\<close>, \<open>faithful\<close>).
  \<^item> \<open>E2e_Harness\<close> (\<open>examples/rust-e2e/src/main.rs\<close>), \<open>Demos\<close> (\<open>examples/client-rust\<close>,
    \<open>examples/delegated-e2e\<close>): the programs that use the SDK on a live chain, without their output.
    \<open>Local_Committee\<close> (\<open>examples/rust\<close>): the demo that is its own committee, key generation and nodes
    included, over a record \<open>dkg_lib\<close> of what the cryptographic library offers to a node.
  \<^item> \<open>Ffi_Memory\<close>, \<open>Ffi\<close>, \<open>Ffi_Key\<close> (\<open>matter-sdk-ffi/src/lib.rs\<close>, \<open>apikey.rs\<close>): buffers and handles
    over an explicit memory, every entry point of the C interface, and the sessions of a caller.
    \<open>Bindings\<close> (\<open>bindings/python/src/lib.rs\<close>, \<open>bindings/wasm/src/lib.rs\<close>): the other two modules.
  \<^item> \<open>Test_Vectors\<close>: expectations of the crates' own unit tests, evaluated on the definitions.

  \<^bold>\<open>Interfaces.\<close> Each interface is a locale with an interpretation on the definitions of the model,
  for instance \<open>hex_crate\<close>, \<open>key_signer\<close>, \<open>lossless_codec\<close>, \<open>scale_values\<close> (the argument encoder of
  the chain library), \<open>stepper\<close> (an operation that keeps a relation keeps it over any run, used
  for \<open>tx\<close>) and \<open>owned_memory\<close> (what a C caller relies on, discharged by the library's memory).

  \<^bold>\<open>What is shown.\<close> For the decrypt: a success opened exactly a threshold of partials, enough
  honest nodes suffice, each request is what the signer authorized for its recipient and carries
  its coefficient, every node is accounted for in the error, the loop ends, and one answer that is
  not hex ends the whole run, which the documentation denies. For sealing: the round trip, the on-chain bounds, and that no
  oversized blob is decoded. For scopes: the operations are those of sets of grants, and the text
  form is a codec. For keys: the documented grammar is accepted and
  only line feeds in a password beyond it, what a key is derived from, and that errors and
  renderings carry nothing of it. For the chain client: the mainnet guards, what is signed, that
  refused calls stay local, what a receipt means, when revocation is reported, and that the
  identity never changes, under any interleaving of calls. For recovery: the committee join, and that what was
  sealed and recorded, as the raw answers of the RPC node have it, is recovered from enough honest
  nodes while fewer than a threshold of others fail openly. For the demo with its own committee:
  it ends without a panic exactly for one protocol version of the library. For the C interface: sessions are
  memory safe, buffers are wiped on release, failures leave nothing behind, and the entry points
  refine the core.

  \<^bold>\<open>Bounds and termination.\<close> No definition uses fuel. Recursions that are not structural have a
  measure: the retry loop the number of available nodes (a round that fails drops one), the
  parsers the length of the rest of the text. Machine integers are words; where the sources check
  for overflow the check is written out, and an arithmetic panic is the value \<open>None\<close>.

  \<^bold>\<open>Parameters.\<close> Code outside the repository is an argument of the definitions that use it:
  \<open>matter_crypto\<close> and \<open>bincode\<close> (\<open>kgc\<close>, \<open>dkg_lib\<close>), \<open>hex\<close>, \<open>subxt_signer\<close> with BIP39 (\<open>signer_lib\<close>), \<open>subxt\<close> and
  its SCALE values, \<open>reqwest\<close> and \<open>serde_json\<close>, the JSON-RPC client, the timer, the random source,
  the allocator and the conversions of PyO3 and wasm-bindgen. Each law assumed of one has a
  reference instance that satisfies it.

  \<^bold>\<open>Not modelled.\<close> The zeroizing of key material and plaintexts inside Rust (only the wiping of C
  buffers is), log lines, warnings and other terminal output, code that only forwards (accessors of a
  field, blanket implementations, the construction of the HTTP client with its timeouts),
  the Go, TypeScript and pure Python packages, the scripts and the tests (some of whose
  cases \<open>Test_Vectors\<close> replays).
\<close>

end
